(* ===== verification/Const_Prelude.thy ===== *)
theory Const_Prelude
  imports Main "HOL-Library.Word" "HOL-Library.Multiset"
begin

text \<open>
  Shared vocabulary of the development: the machine integer types of the Go
  sources, the collections of simplification rules the component theories feed,
  and the generic facts on lists of heights, sorting and words that several
  components use. Nothing here models a particular source file.
\<close>

section \<open>Machine types\<close>

type_synonym u8 = "8 word"
type_synonym u32 = "32 word"
type_synonym u64 = "64 word"
type_synonym bytes = "u8 list"

text \<open>A \<open>common.Hash\<close> is a 32 byte array; it is carried as its byte list.\<close>

type_synonym hash = "u8 list"

named_theorems pool_defs \<open>definitions unfolded in the proofs about the block pools\<close>
named_theorems go_simps \<open>rewrite rules for the loops of the Go sources\<close>

section \<open>Go maps\<close>

text \<open>Reading a missing key of a Go map gives the zero value of the element type.\<close>

definition go_get :: "'v \<Rightarrow> ('k \<rightharpoonup> 'v) \<Rightarrow> 'k \<Rightarrow> 'v" where
  "go_get zero m k = (case m k of None \<Rightarrow> zero | Some v \<Rightarrow> v)"

lemma go_get_upd [simp]: "go_get z (m(k \<mapsto> v)) j = (if j = k then v else go_get z m j)"
  by (simp add: go_get_def)

lemma go_get_empty [simp]: "go_get z Map.empty k = z"
  by (simp add: go_get_def)

section \<open>Words\<close>

lemma word_succ_le: "(x::'a::len word) < y \<Longrightarrow> x + 1 \<le> y"
  by (rule inc_le)

lemma word_less_succ: "(x::'a::len word) < y \<Longrightarrow> x < x + 1"
  by (metis inc_less_eq_iff inc_less_eq_self_iff_eq linorder_not_less word_order.extremum_strict)

lemma word_between_succ:
  fixes x z :: "'a::len word"
  assumes "x < z" "z \<le> x + 1"
  shows "z = x + 1"
  using assms inc_le [of x z] by (intro order.antisym) simp_all

lemma word_interval_Suc:
  fixes a b :: u64
  assumes "a < b"
  shows "{a<..b} = insert (a + 1) {a + 1<..b}"
proof (rule set_eqI)
  fix x
  have "a < x \<longleftrightarrow> a + 1 \<le> x"
    using word_less_succ [OF assms] by (auto intro: inc_le)
  then show "x \<in> {a<..b} \<longleftrightarrow> x \<in> insert (a + 1) {a + 1<..b}"
    using inc_le [OF assms] by (auto simp: order_le_less)
qed

section \<open>Strictly increasing lists\<close>

text \<open>\<open>sincr\<close>: each element is below every later one.\<close>

abbreviation sincr :: "'a::linorder list \<Rightarrow> bool" where
  "sincr xs \<equiv> sorted_wrt (<) xs"

lemma sincr_sorted: "sincr xs \<Longrightarrow> sorted xs"
  by (simp add: strict_sorted_iff)

lemma sincr_distinct: "sincr xs \<Longrightarrow> distinct xs"
  by (simp add: strict_sorted_iff)

lemma sincr_dropWhile: "sincr xs \<Longrightarrow> sincr (dropWhile P xs)"
  by (metis dropWhile_eq_drop sorted_wrt_drop)

lemma sincr_takeWhile: "sincr xs \<Longrightarrow> sincr (takeWhile P xs)"
  by (metis takeWhile_eq_take sorted_wrt_take)

lemma sincr_butlast: "sincr xs \<Longrightarrow> sincr (butlast xs)"
  by (simp add: butlast_conv_take)

lemma sincr_filter: "sincr xs \<Longrightarrow> sincr (filter P xs)"
  by (rule sorted_wrt_filter)

lemma sincr_takeWhile_le:
  "sincr xs \<Longrightarrow> takeWhile (\<lambda>h. h \<le> (L::'a::linorder)) xs = filter (\<lambda>h. h \<le> L) xs"
  by (induction xs) (fastforce simp: eq_commute [of "[]"] filter_empty_conv)+

lemma sincr_dropWhile_le:
  "sincr xs \<Longrightarrow> dropWhile (\<lambda>h. h \<le> (L::'a::linorder)) xs = filter (\<lambda>h. L < h) xs"
proof (induction xs)
  case (Cons a xs)
  then have "L < a \<Longrightarrow> filter (\<lambda>h. L < h) xs = xs" by (auto simp: filter_id_conv dest: less_trans)
  with Cons show ?case by (auto simp: not_le)
qed simp

lemma sincr_appendI:
  "\<lbrakk>sincr xs; sincr ys; \<And>x y. x \<in> set xs \<Longrightarrow> y \<in> set ys \<Longrightarrow> x < y\<rbrakk> \<Longrightarrow> sincr (xs @ ys)"
  by (auto simp: sorted_wrt_append)

text \<open>A strictly increasing list is determined by its set of elements.\<close>

lemma sincr_unique: "sincr xs \<Longrightarrow> sincr ys \<Longrightarrow> set xs = set ys \<Longrightarrow> xs = ys"
  by (rule strict_sorted_equal)

lemma sincr_map_sort_key:
  assumes "distinct (map f xs)"
  shows "sincr (map f (sort_key f xs))"
proof -
  have "mset (map f (sort_key f xs)) = mset (map f xs)" by simp
  then have "distinct (map f (sort_key f xs))"
    using assms by (metis distinct_count_atmost_1 mset_eq_imp_distinct_iff)
  then show ?thesis by (simp add: strict_sorted_iff)
qed

lemma sincr_le_last: "sincr xs \<Longrightarrow> x \<in> set xs \<Longrightarrow> x \<le> last xs"
proof (induction xs)
  case (Cons a xs)
  then show ?case
    by (cases "xs = []") (auto intro: order_less_imp_le last_in_set)
qed simp

lemma butlast_sincr_less_last:
  "sincr xs \<Longrightarrow> x \<in> set (butlast xs) \<Longrightarrow> x < last xs"
  by (induction xs) (auto split: if_splits)

lemma butlast_sincr_filter_le:
  assumes "sincr hs" "hs \<noteq> []" "(L::'a::linorder) < last hs"
  shows "filter (\<lambda>h. h \<le> L) (butlast hs) = filter (\<lambda>h. h \<le> L) hs"
proof -
  have "hs = butlast hs @ [last hs]" using assms(2) by simp
  then have "filter (\<lambda>h. h \<le> L) hs = filter (\<lambda>h. h \<le> L) (butlast hs @ [last hs])" by simp
  then show ?thesis using assms(3) by simp
qed

lemma last_dropWhile_suffix: "dropWhile P xs \<noteq> [] \<Longrightarrow> last (dropWhile P xs) = last xs"
  by (induction xs) (auto split: if_splits)

lemma set_butlast_distinct:
  assumes "distinct xs" "xs \<noteq> []"
  shows "set (butlast xs) = set xs - {last xs}"
proof -
  have xs: "xs = butlast xs @ [last xs]" using assms(2) by simp
  then have "last xs \<notin> set (butlast xs)" using assms(1) by (metis distinct_append not_distinct_conv_prefix)
  then show ?thesis using xs by (metis Diff_insert_absorb insert_absorb list.simps(15) rotate1.simps(2) set_rotate1)
qed

section \<open>Runs of consecutive heights\<close>

fun consec :: "u64 list \<Rightarrow> bool" where
  "consec [] = True"
| "consec [x] = True"
| "consec (x # y # zs) = (y = x + 1 \<and> consec (y # zs))"

lemma consec_Cons: "consec (x # xs) \<longleftrightarrow> consec xs \<and> (xs \<noteq> [] \<longrightarrow> hd xs = x + 1)"
  by (cases xs) auto

lemma consec_append:
  "consec (xs @ ys) \<longleftrightarrow>
     consec xs \<and> consec ys \<and> (xs \<noteq> [] \<longrightarrow> ys \<noteq> [] \<longrightarrow> hd ys = last xs + 1)"
  by (induction xs) (auto simp: consec_Cons)

lemma consec_suffix: "consec (xs @ ys) \<Longrightarrow> consec ys"
  by (simp add: consec_append)

text \<open>A consecutive, strictly increasing run holds every height between its ends.\<close>

lemma consec_interval:
  "consec (x # xs) \<Longrightarrow> sincr (x # xs) \<Longrightarrow> set (x # xs) = {x .. last (x # xs)}"
proof (induction xs arbitrary: x)
  case Nil
  then show ?case by simp
next
  case (Cons y ys)
  from Cons.prems have y: "y = x + 1" and xy: "x < y" by simp_all
  have IH: "set (y # ys) = {y .. last (y # ys)}"
    by (rule Cons.IH) (use Cons.prems in auto)
  have le: "y \<le> last (y # ys)" using IH by (metis atLeastAtMost_iff last_in_set list.distinct(1))
  have "{x .. last (y # ys)} = insert x {y .. last (y # ys)}"
  proof (rule set_eqI)
    fix z
    have "x \<le> z \<longleftrightarrow> z = x \<or> y \<le> z"
      using xy y inc_le [of x z] by (auto simp: order_le_less)
    then show "z \<in> {x..last (y # ys)} \<longleftrightarrow> z \<in> insert x {y..last (y # ys)}"
      using le xy by auto
  qed
  then show ?case using IH by simp
qed

end
