(* ===== verification/Byte_Codec.thy ===== *)
theory Byte_Codec
  imports Const_Prelude
begin

text \<open>
  The byte and string codecs of \<open>src/common\<close>: the integer encodings and small helpers of
  \<open>common.go\<close>, the \<open>Hash\<close> type of \<open>hash.go\<close> with its byte-reversed hexadecimal form, and the
  base58 and base58check codecs of \<open>base58/\<close>. SHA-256 is the argument \<open>sha256\<close>. A Go
  function that panics on a short slice returns \<open>None\<close>.
\<close>

section \<open>Little endian integers\<close>

text \<open>\<open>binary.LittleEndian.PutUintN\<close> writes \<open>k\<close> bytes, \<open>UintN\<close> reads them.\<close>

fun le_put :: "nat \<Rightarrow> nat \<Rightarrow> bytes" where
  "le_put 0 n = []"
| "le_put (Suc k) n = word_of_nat (n mod 256) # le_put k (n div 256)"

fun le_read :: "bytes \<Rightarrow> nat" where
  "le_read [] = 0"
| "le_read (b # bs) = unat b + 256 * le_read bs"

definition Uint32ToBytes :: "u32 \<Rightarrow> bytes" where
  "Uint32ToBytes v = le_put 4 (unat v)"

definition BytesToUint32 :: "bytes \<Rightarrow> u32 option" where
  "BytesToUint32 b = (if length b < 4 then None else Some (word_of_nat (le_read (take 4 b))))"

definition Uint8ToBytes :: "u8 \<Rightarrow> bytes" where
  "Uint8ToBytes v = [v]"

definition ByteToBytes :: "u8 \<Rightarrow> bytes" where
  "ByteToBytes v = [v]"

definition BytesToUint8 :: "bytes \<Rightarrow> u8 option" where
  "BytesToUint8 b = (case b of [] \<Rightarrow> None | x # _ \<Rightarrow> Some x)"

text \<open>An \<open>int32\<close> is carried as the word with the same bits.\<close>

definition Int32ToBytes :: "u32 \<Rightarrow> bytes" where
  "Int32ToBytes v = le_put 4 (unat v)"

definition BytesToInt32 :: "bytes \<Rightarrow> u32 option" where
  "BytesToInt32 b = (if length b < 4 then None else Some (word_of_nat (le_read (take 4 b))))"

definition Uint64ToBytes :: "u64 \<Rightarrow> bytes" where
  "Uint64ToBytes v = le_put 8 (unat v)"

definition BytesToUint64 :: "bytes \<Rightarrow> u64 option" where
  "BytesToUint64 b = (if length b < 8 then None else Some (word_of_nat (le_read (take 8 b))))"

definition Int64ToBytes :: "int \<Rightarrow> bytes" where
  "Int64ToBytes v = Uint64ToBytes (word_of_int v)"

definition BoolToByte :: "bool \<Rightarrow> u8" where
  "BoolToByte v = (if v then 1 else 0)"

lemma length_le_put [simp]: "length (le_put k n) = k"
  by (induction k arbitrary: n) simp_all

lemma unat_byte [simp]: "unat (word_of_nat (n mod 256) :: u8) = n mod 256"
  by (simp add: unsigned_of_nat take_bit_eq_mod)

lemma le_read_put: "le_read (le_put k n) = n mod 256 ^ k"
proof (induction k arbitrary: n)
  case (Suc k)
  have "n mod 256 + 256 * (n div 256 mod 256 ^ k) = n mod (256 * 256 ^ k)"
    by (metis add.commute mod_mult2_eq)
  with Suc show ?case by simp
qed simp

lemma le_put_read: "le_put (length bs) (le_read bs) = bs"
proof (induction bs)
  case (Cons b bs)
  have "unat b < 256" using unsigned_less [of b, where ?'a = nat] by simp
  with Cons show ?case by simp
qed simp

lemma le_read_bound: "le_read bs < 256 ^ length bs"
proof (induction bs)
  case (Cons b bs)
  have "unat b < 256" using unsigned_less [of b, where ?'a = nat] by simp
  with Cons show ?case by simp
qed simp

lemma le_put_inj: "x < 256 ^ k \<Longrightarrow> y < 256 ^ k \<Longrightarrow> le_put k x = le_put k y \<Longrightarrow> x = y"
  by (metis le_read_put mod_less)

lemma unat_u64_bound: "unat (v::u64) < 256 ^ 8"
  using unsigned_less [of v, where ?'a = nat] by simp

lemma unat_u32_bound: "unat (v::u32) < 256 ^ 4"
  using unsigned_less [of v, where ?'a = nat] by simp

lemma Uint64ToBytes_length [simp]: "length (Uint64ToBytes v) = 8"
  by (simp add: Uint64ToBytes_def)

lemma Uint64ToBytes_inj: "Uint64ToBytes v = Uint64ToBytes w \<longleftrightarrow> v = w"
  using le_put_inj [OF unat_u64_bound [of v] unat_u64_bound [of w]]
  by (auto simp: Uint64ToBytes_def word_eq_iff_unsigned [where ?'a = nat])

lemma BytesToUint64_put [simp]: "BytesToUint64 (Uint64ToBytes v) = Some v"
  using unat_u64_bound [of v] by (simp add: BytesToUint64_def Uint64ToBytes_def le_read_put)

lemma BytesToUint64_append [simp]: "BytesToUint64 (Uint64ToBytes v @ bs) = Some v"
  using unat_u64_bound [of v] by (simp add: BytesToUint64_def Uint64ToBytes_def le_read_put)

text \<open>
  The 64, 32 and 8 bit encodings round trip in both directions: reading what was
  written gives the value back, with any bytes after it; writing what was read gives the
  bytes that were read; and reading a slice that is too short is the only failure.
\<close>

theorem integer_codec_roundtrip:
  "BytesToUint64 (Uint64ToBytes v @ rest) = Some v \<and>
   BytesToUint32 (Uint32ToBytes w @ rest) = Some w \<and>
   BytesToInt32 (Int32ToBytes w @ rest) = Some w \<and>
   BytesToUint8 (Uint8ToBytes x @ rest) = Some x \<and>
   map_option Uint64ToBytes (BytesToUint64 b) = (if length b < 8 then None else Some (take 8 b)) \<and>
   map_option Uint32ToBytes (BytesToUint32 b) = (if length b < 4 then None else Some (take 4 b))"
proof -
  have "Uint64ToBytes (word_of_nat (le_read (take 8 b))) = take 8 b" if "\<not> length b < 8"
    using that le_read_bound [of "take 8 b"] le_put_read [of "take 8 b"]
    by (simp add: Uint64ToBytes_def unsigned_of_nat take_bit_nat_eq_self)
  moreover have "Uint32ToBytes (word_of_nat (le_read (take 4 b))) = take 4 b" if "\<not> length b < 4"
    using that le_read_bound [of "take 4 b"] le_put_read [of "take 4 b"]
    by (simp add: Uint32ToBytes_def unsigned_of_nat take_bit_nat_eq_self)
  ultimately show ?thesis
    using unat_u32_bound [of w] BytesToUint64_append [of v rest]
    by (auto simp: BytesToUint64_def BytesToUint32_def BytesToInt32_def Uint32ToBytes_def Int32ToBytes_def
        BytesToUint8_def Uint8ToBytes_def le_read_put)
qed


section \<open>Small helpers of common.go\<close>

definition MAX_SHARD_NUMBER :: nat where
  "MAX_SHARD_NUMBER = 4"

definition GetShardIDFromLastByte :: "u8 \<Rightarrow> u8" where
  "GetShardIDFromLastByte b = word_of_nat (unat b mod MAX_SHARD_NUMBER)"

text \<open>The element-wise comparisons: lengths first, then index by index.\<close>

fun array_equals_loop :: "'a list \<Rightarrow> 'a list \<Rightarrow> nat \<Rightarrow> bool" where
  "array_equals_loop [] b i = True"
| "array_equals_loop (v # vs) b i = (if v \<noteq> b ! i then False else array_equals_loop vs b (Suc i))"

definition IntArrayEquals :: "int list \<Rightarrow> int list \<Rightarrow> bool" where
  "IntArrayEquals a b = (if length a \<noteq> length b then False else array_equals_loop a b 0)"

definition CompareStringArray :: "string list \<Rightarrow> string list \<Rightarrow> bool" where
  "CompareStringArray src dst = (if length src \<noteq> length dst then False else array_equals_loop src dst 0)"

text \<open>The index of the first occurrence, or \<open>-1\<close>.\<close>

fun index_loop :: "'a \<Rightarrow> 'a list \<Rightarrow> int \<Rightarrow> int" where
  "index_loop item [] k = -1"
| "index_loop item (v # vs) k = (if item = v then k else index_loop item vs (k + 1))"

definition IndexOfStr :: "string \<Rightarrow> string list \<Rightarrow> int" where
  "IndexOfStr item list = index_loop item list 0"

definition IndexOfByte :: "u8 \<Rightarrow> u8 list \<Rightarrow> int" where
  "IndexOfByte item arrays = index_loop item arrays 0"

definition SliceBytesExists :: "bytes list \<Rightarrow> bytes \<Rightarrow> int" where
  "SliceBytesExists s item = index_loop item s 0"

definition Max :: "int \<Rightarrow> int \<Rightarrow> int" where
  "Max x y = (if x > y then x else y)"

fun adjacent_equal :: "'a list \<Rightarrow> bool" where
  "adjacent_equal (x # y # zs) = (if x = y then True else adjacent_equal (y # zs))"
| "adjacent_equal _ = False"

definition CheckDuplicateBigIntArray :: "int list \<Rightarrow> bool" where
  "CheckDuplicateBigIntArray arr = adjacent_equal (sort arr)"

text \<open>
  \<open>BytesPlusOne\<close> runs an index down from the last byte; \<open>i\<close> below is that index plus one.
\<close>

fun bytes_plus_loop :: "bytes \<Rightarrow> nat \<Rightarrow> bytes \<Rightarrow> bytes" where
  "bytes_plus_loop b 0 res = res"
| "bytes_plus_loop b (Suc i) res =
    (if b ! i < 0xff then (take i b @ drop i res)[i := b ! i + 1]
     else bytes_plus_loop b i (res[i := 0]))"

definition BytesPlusOne :: "bytes \<Rightarrow> bytes" where
  "BytesPlusOne b = bytes_plus_loop b (length b) (replicate (length b) 0)"

text \<open>Big endian numbers, as \<open>big.Int.SetBytes\<close> reads them and \<open>big.Int.Bytes\<close> writes them.\<close>

fun be_read :: "nat \<Rightarrow> bytes \<Rightarrow> nat" where
  "be_read acc [] = acc"
| "be_read acc (b # bs) = be_read (acc * 256 + unat b) bs"

fun be_write :: "nat \<Rightarrow> bytes" where
  "be_write n = (if n = 0 then [] else be_write (n div 256) @ [word_of_nat (n mod 256)])"

declare be_write.simps [simp del]

lemma array_equals_loop_iff:
  "i + length vs = length b \<Longrightarrow> array_equals_loop vs b i \<longleftrightarrow> vs = drop i b"
proof (induction vs arbitrary: i)
  case (Cons v vs)
  then have "drop i b = b ! i # drop (Suc i) b" by (simp add: Cons_nth_drop_Suc)
  with Cons show ?case by auto
qed simp

lemma index_loop_shift: "index_loop x vs k = (if x \<in> set vs then k + index_loop x vs 0 else -1)"
proof (induction vs arbitrary: k)
  case (Cons v vs)
  show ?case using Cons.IH [of "k + 1"] Cons.IH [of 1] by auto
qed simp

lemma index_loop_spec:
  "if x \<in> set vs then 0 \<le> index_loop x vs 0 \<and> nat (index_loop x vs 0) < length vs \<and>
       vs ! nat (index_loop x vs 0) = x \<and> x \<notin> set (take (nat (index_loop x vs 0)) vs)
   else index_loop x vs 0 = -1"
proof (induction vs)
  case (Cons v vs)
  show ?case
  proof (cases "x = v")
    case False
    with Cons have "index_loop x (v # vs) 0 = (if x \<in> set vs then 1 + index_loop x vs 0 else -1)"
      using index_loop_shift [of x vs 1] by simp
    with Cons False show ?thesis by (auto simp: nat_add_distrib split: if_splits)
  qed simp
qed simp

lemma adjacent_equal_sorted: "sorted xs \<Longrightarrow> adjacent_equal xs \<longleftrightarrow> \<not> distinct xs"
proof (induction xs rule: adjacent_equal.induct)
  case (1 x y zs)
  then show ?case by (auto simp: order_le_less)
qed simp_all

lemma be_read_acc: "be_read acc bs = acc * 256 ^ length bs + be_read 0 bs"
proof (induction bs arbitrary: acc)
  case (Cons b bs)
  show ?case using Cons.IH [of "acc * 256 + unat b"] Cons.IH [of "unat b"] by (simp add: algebra_simps)
qed simp

lemma be_read_append: "be_read 0 (xs @ ys) = be_read 0 xs * 256 ^ length ys + be_read 0 ys"
proof (induction xs)
  case (Cons x xs)
  show ?case
    using Cons be_read_acc [of "unat x" xs] be_read_acc [of "unat x" "xs @ ys"]
    by (simp add: algebra_simps power_add)
qed simp

lemma be_read_bound: "be_read 0 bs < 256 ^ length bs"
proof (induction bs)
  case (Cons b bs)
  have "unat b < 256" using unsigned_less [of b, where ?'a = nat] by simp
  then have "unat b * 256 ^ length bs \<le> 255 * 256 ^ length bs" by (intro mult_le_mono1) simp
  then have "be_read (unat b) bs < 256 * 256 ^ length bs"
    using Cons be_read_acc [of "unat b" bs] by linarith
  then show ?case by simp
qed simp

lemma be_read_replicate_0 [simp]: "be_read 0 (replicate n 0 @ bs) = be_read 0 bs"
  by (induction n) simp_all

lemma be_read_write [simp]: "be_read 0 (be_write n) = n"
proof (induction n rule: be_write.induct)
  case (1 n)
  then show ?case by (subst be_write.simps) (simp add: be_read_append)
qed

lemma be_write_hd: "be_write n \<noteq> [] \<Longrightarrow> hd (be_write n) \<noteq> 0"
proof (induction n rule: be_write.induct)
  case (1 n)
  show ?case
  proof (cases "n div 256 = 0")
    case True
    then have "be_write n = (if n = 0 then [] else [word_of_nat (n mod 256)])"
      by (subst be_write.simps) (simp add: be_write.simps [of 0])
    moreover have "n mod 256 = n" using True by (simp add: div_eq_0_iff)
    moreover have "(word_of_nat n :: u8) \<noteq> 0" if "n \<noteq> 0"
      using that True unat_byte [of n] calculation(2) by (metis unsigned_0)
    ultimately show ?thesis using "1.prems" by (cases "n = 0") simp_all
  next
    case False
    then have n: "n \<noteq> 0" "be_write (n div 256) \<noteq> []" by (auto simp: be_write.simps [of "n div 256"])
    with 1 have "hd (be_write (n div 256)) \<noteq> 0" by simp
    with n show ?thesis by (subst be_write.simps) simp
  qed
qed

text \<open>Two byte strings of one length with the same value are equal.\<close>

lemma be_read_inj: "length xs = length ys \<Longrightarrow> be_read 0 xs = be_read 0 ys \<Longrightarrow> xs = ys"
proof (induction xs ys rule: list_induct2)
  case (Cons x xs y ys)
  have x: "be_read 0 (x # xs) = unat x * 256 ^ length xs + be_read 0 xs" using be_read_acc [of "unat x" xs] by simp
  have y: "be_read 0 (y # ys) = unat y * 256 ^ length ys + be_read 0 ys" using be_read_acc [of "unat y" ys] by simp
  have P: "(256::nat) ^ length ys \<noteq> 0" by simp
  have eq: "unat x * 256 ^ length ys + be_read 0 xs = unat y * 256 ^ length ys + be_read 0 ys"
    using Cons.prems x y Cons.hyps by simp
  have b: "be_read 0 xs < 256 ^ length ys" "be_read 0 ys < 256 ^ length ys"
    using be_read_bound [of xs] be_read_bound [of ys] Cons.hyps by simp_all
  have "unat x = unat y"
    using arg_cong [OF eq, of "\<lambda>n. n div 256 ^ length ys"] b P by simp
  moreover from this eq have "be_read 0 xs = be_read 0 ys" by simp
  ultimately show ?case using Cons(2) by (simp add: word_eq_iff_unsigned [where ?'a = nat])
qed simp


lemma be_read_replicate_ff: "be_read 0 (replicate n (255::u8)) + 1 = 256 ^ n"
proof (induction n)
  case (Suc n)
  then show ?case using be_read_acc [of 255 "replicate n 255"] by simp
qed simp

lemma bytes_plus_loop_spec:
  assumes "i \<le> length b" "drop i b = replicate (length b - i) 255"
  shows "be_read 0 (bytes_plus_loop b i (replicate (length b) 0)) = (be_read 0 b + 1) mod 256 ^ length b"
  using assms
proof (induction i)
  case 0
  then have "b = replicate (length b) 255" by simp
  then have "be_read 0 b + 1 = 256 ^ length b" by (metis be_read_replicate_ff)
  then show ?case using be_read_replicate_0 [of "length b" "[]"] by simp
next
  case (Suc i)
  let ?r = "length b - Suc i"
  have b: "b = take i b @ b ! i # replicate ?r 255"
    using Suc.prems by (metis Suc_le_lessD id_take_nth_drop)
  show ?case
  proof (cases "b ! i < 0xff")
    case True
    have res: "(take i b @ drop i (replicate (length b) 0))[i := b ! i + 1] =
        take i b @ (b ! i + 1) # replicate ?r 0"
    proof -
      have "length b - i = Suc ?r" using Suc.prems(1) by simp
      then show ?thesis using Suc.prems(1) by (simp add: list_update_append drop_replicate del: diff_Suc_Suc)
    qed
    have u: "unat (b ! i + 1) = unat (b ! i) + 1"
      using True by (simp add: unat_add_lem [THEN iffD1] word_less_nat_alt)
    have z: "be_read 0 (x # replicate ?r 0) = unat x * 256 ^ ?r" for x :: u8
      using be_read_acc [of "unat x" "replicate ?r 0"] be_read_replicate_0 [of ?r "[]"] by simp
    have f: "be_read 0 (x # replicate ?r 255) + 1 = unat x * 256 ^ ?r + 256 ^ ?r" for x :: u8
      using be_read_acc [of "unat x" "replicate ?r 255"] be_read_replicate_ff [of ?r] by simp
    have "be_read 0 b + 1 = be_read 0 (take i b) * 256 ^ Suc ?r + (unat (b ! i) * 256 ^ ?r + 256 ^ ?r)"
      using arg_cong [OF b, of "be_read 0"] f [of "b ! i"] by (simp add: be_read_append)
    also have "\<dots> = be_read 0 (take i b @ (b ! i + 1) # replicate ?r 0)"
      unfolding be_read_append z u by (simp add: algebra_simps)
    finally have eq: "be_read 0 (bytes_plus_loop b (Suc i) (replicate (length b) 0)) = be_read 0 b + 1"
      using True res by simp
    have "length (bytes_plus_loop b (Suc i) (replicate (length b) 0)) = length b"
      using True res b Suc.prems(1) by simp
    with be_read_bound [of "bytes_plus_loop b (Suc i) (replicate (length b) 0)"] eq
    show ?thesis by simp
  next
    case False
    have "unat (b ! i) < 256" using unsigned_less [of "b ! i", where ?'a = nat] by simp
    with False have "b ! i = 255"
      by (simp add: word_less_nat_alt word_eq_iff_unsigned [where ?'a = nat])
    then have "drop i b = replicate (length b - i) 255"
      using Suc.prems Cons_nth_drop_Suc [of i b] by (simp add: Suc_diff_Suc [symmetric])
    moreover have "(replicate (length b) (0::u8))[i := 0] = replicate (length b) 0"
      by (metis Suc.prems(1) Suc_le_lessD length_replicate list_update_id nth_replicate)
    ultimately show ?thesis using Suc False by simp
  qed
qed

section \<open>Hash (hash.go)\<close>

definition HashSize :: nat where
  "HashSize = 32"

definition MaxHashStringSize :: nat where
  "MaxHashStringSize = HashSize * 2"

datatype hash_error = ErrHashStrSize | InvalidHashLength nat | InvalidHexByte

text \<open>\<open>encoding/hex\<close>: two lower case digits per byte; decoding takes both cases.\<close>

definition hex_digit :: "nat \<Rightarrow> char" where
  "hex_digit n = ''0123456789abcdef'' ! n"

definition hex_EncodeToString :: "bytes \<Rightarrow> string" where
  "hex_EncodeToString bs = concat (map (\<lambda>b. [hex_digit (unat b div 16), hex_digit (unat b mod 16)]) bs)"

definition fromHexChar :: "char \<Rightarrow> nat option" where
  "fromHexChar c =
    (let n = of_char c :: nat in
     if 48 \<le> n \<and> n \<le> 57 then Some (n - 48)
     else if 97 \<le> n \<and> n \<le> 102 then Some (n - 97 + 10)
     else if 65 \<le> n \<and> n \<le> 70 then Some (n - 65 + 10)
     else None)"

fun hex_Decode :: "string \<Rightarrow> bytes option" where
  "hex_Decode (a # b # cs) =
    (case (fromHexChar a, fromHexChar b) of
       (Some x, Some y) \<Rightarrow> map_option (\<lambda>bs. word_of_nat (x * 16 + y) # bs) (hex_Decode cs)
     | _ \<Rightarrow> None)"
| "hex_Decode [] = Some []"
| "hex_Decode [a] = None"

text \<open>The loop of \<open>String\<close> swaps the bytes from both ends, that of \<open>Decode\<close> copies them crosswise.\<close>

definition Hash_String :: "hash \<Rightarrow> string" where
  "Hash_String h =
     hex_EncodeToString
       (fold (\<lambda>i h. h[i := h ! (HashSize - 1 - i), HashSize - 1 - i := h ! i]) [0..<HashSize div 2] h)"

definition Hash_Decode :: "hash \<Rightarrow> string \<Rightarrow> hash_error + hash" where
  "Hash_Decode dst src =
    (if length src > MaxHashStringSize then Inl ErrHashStrSize
     else
       (let srcBytes = (if length src mod 2 = 0 then src else CHR ''0'' # src) in
        case hex_Decode srcBytes of
          None \<Rightarrow> Inl InvalidHexByte
        | Some ds \<Rightarrow>
            (let reversedHash = replicate (HashSize - length srcBytes div 2) 0 @ ds
             in Inr (fold (\<lambda>i dst. dst[i := reversedHash ! (HashSize - 1 - i),
                                       HashSize - 1 - i := reversedHash ! i])
                       [0..<HashSize div 2] dst))))"

definition NewHashFromStr :: "string \<Rightarrow> hash_error + hash" where
  "NewHashFromStr s = Hash_Decode (replicate HashSize 0) s"

definition Hash_SetBytes :: "bytes \<Rightarrow> hash_error + hash" where
  "Hash_SetBytes newHash =
    (if length newHash \<noteq> HashSize then Inl (InvalidHashLength (length newHash)) else Inr newHash)"

definition NewHash :: "bytes \<Rightarrow> hash_error + hash" where
  "NewHash b = Hash_SetBytes b"

definition Hash_GetBytes :: "hash \<Rightarrow> bytes" where
  "Hash_GetBytes h = take (length h) h"

text \<open>Pointers to hashes may be nil.\<close>

definition Hash_IsEqual :: "hash option \<Rightarrow> hash option \<Rightarrow> bool" where
  "Hash_IsEqual h target =
    (if h = None \<and> target = None then True
     else if h = None \<or> target = None then False
     else the h = the target)"

fun hash_cmp_loop :: "hash \<Rightarrow> hash \<Rightarrow> int" where
  "hash_cmp_loop (x # xs) (y # ys) = (if x > y then 1 else if x < y then -1 else hash_cmp_loop xs ys)"
| "hash_cmp_loop _ _ = 0"

definition Hash_Cmp :: "hash \<Rightarrow> hash \<Rightarrow> int" where
  "Hash_Cmp h target = hash_cmp_loop (take HashSize h) (take HashSize target)"

fun ConvertArrayStringToArrayHash :: "string list \<Rightarrow> hash_error + hash list" where
  "ConvertArrayStringToArrayHash [] = Inr []"
| "ConvertArrayStringToArrayHash (s # ss) =
    (case NewHashFromStr s of
       Inl e \<Rightarrow> Inl e
     | Inr h \<Rightarrow> (case ConvertArrayStringToArrayHash ss of Inl e \<Rightarrow> Inl e | Inr hs \<Rightarrow> Inr (h # hs)))"


lemma cross_copy:
  assumes "length r = n" "length dst = n" "k \<le> n div 2"
  shows "length (fold (\<lambda>i dst. dst[i := r ! (n - 1 - i), n - 1 - i := r ! i]) [0..<k] dst) = n \<and>
    (\<forall>j < n. fold (\<lambda>i dst. dst[i := r ! (n - 1 - i), n - 1 - i := r ! i]) [0..<k] dst ! j =
       (if j < k \<or> n - 1 - j < k then r ! (n - 1 - j) else dst ! j))"
  using assms(3)
proof (induction k)
  case (Suc k)
  then have IH: "length (fold (\<lambda>i dst. dst[i := r ! (n - 1 - i), n - 1 - i := r ! i]) [0..<k] dst) = n"
    "\<And>j. j < n \<Longrightarrow> fold (\<lambda>i dst. dst[i := r ! (n - 1 - i), n - 1 - i := r ! i]) [0..<k] dst ! j =
       (if j < k \<or> n - 1 - j < k then r ! (n - 1 - j) else dst ! j)" by auto
  have k: "k < n" "n - 1 - k < n" "k < n - 1 - k \<or> k = n - 1 - k" using Suc.prems by auto
  show ?case using k IH by (auto simp: nth_list_update less_Suc_eq)
qed (simp add: assms)

lemma cross_copy_rev:
  assumes "length r = HashSize" "length dst = HashSize"
  shows "fold (\<lambda>i dst. dst[i := r ! (HashSize - 1 - i), HashSize - 1 - i := r ! i])
           [0..<HashSize div 2] dst = rev r"
  using cross_copy [OF assms, of "HashSize div 2"] assms
  by (auto intro!: nth_equalityI simp: rev_nth HashSize_def)

lemma swap_loop:
  assumes "length h = n" "k \<le> n div 2"
  shows "fold (\<lambda>i h. h[i := h ! (n - 1 - i), n - 1 - i := h ! i]) [0..<k] h =
         fold (\<lambda>i dst. dst[i := h ! (n - 1 - i), n - 1 - i := h ! i]) [0..<k] h"
  using assms(2)
proof (induction k)
  case (Suc k)
  note C = cross_copy [OF assms(1) assms(1), of k]
  have "k < n" "n - 1 - k < n" "\<not> n - 1 - k < k" "n - 1 - (n - 1 - k) = k" using Suc.prems by auto
  with C Suc show ?case by simp
qed simp

lemma hash_swap_rev:
  "length h = HashSize \<Longrightarrow>
   fold (\<lambda>i h. h[i := h ! (HashSize - 1 - i), HashSize - 1 - i := h ! i]) [0..<HashSize div 2] h = rev h"
  using swap_loop [of h HashSize "HashSize div 2"] cross_copy_rev [of h h] by simp

lemma hex_digit_inverse: "n < 16 \<Longrightarrow> fromHexChar (hex_digit n) = Some n"
proof -
  have "list_all (\<lambda>n. fromHexChar (hex_digit n) = Some n) [0..<16]"
    by (simp add: upt_rec hex_digit_def fromHexChar_def)
  then show "n < 16 \<Longrightarrow> fromHexChar (hex_digit n) = Some n" by (simp add: list_all_iff)
qed

lemma hex_Decode_Encode: "hex_Decode (hex_EncodeToString bs) = Some bs"
proof (induction bs)
  case (Cons b bs)
  have "unat b < 256" using unsigned_less [of b, where ?'a = nat] by simp
  then have "unat b div 16 < 16" "unat b mod 16 < 16" by simp_all
  moreover have "unat b div 16 * 16 + unat b mod 16 = unat b" by simp
  ultimately show ?case using Cons by (simp add: hex_EncodeToString_def hex_digit_inverse)
qed (simp add: hex_EncodeToString_def)

lemma length_hex_Encode [simp]: "length (hex_EncodeToString bs) = 2 * length bs"
  by (induction bs) (simp_all add: hex_EncodeToString_def)

lemma NewHashFromStr_String:
  assumes "length h = HashSize"
  shows "NewHashFromStr (Hash_String h) = Inr h"
proof -
  have s: "Hash_String h = hex_EncodeToString (rev h)"
    using hash_swap_rev [OF assms] by (simp add: Hash_String_def)
  have len: "length (Hash_String h) = 64" using assms by (simp add: s HashSize_def)
  show ?thesis
    unfolding NewHashFromStr_def Hash_Decode_def s
    using assms len cross_copy_rev [of "rev h" "replicate HashSize 0"]
    by (simp add: s hex_Decode_Encode MaxHashStringSize_def HashSize_def Let_def)
qed

lemma hash_cmp_eq: "length a = length b \<Longrightarrow> hash_cmp_loop a b = 0 \<longleftrightarrow> a = b"
  by (induction a b rule: list_induct2) (auto simp: not_less)

lemma hash_cmp_anti: "hash_cmp_loop a b = - hash_cmp_loop b a"
  by (induction a b rule: hash_cmp_loop.induct) auto

lemma hash_cmp_trans:
  "length a = length b \<Longrightarrow> length b = length c \<Longrightarrow> hash_cmp_loop a b = 1 \<Longrightarrow> hash_cmp_loop b c = 1 \<Longrightarrow>
   hash_cmp_loop a c = 1"
proof (induction a arbitrary: b c)
  case (Cons x xs)
  obtain y ys where "b = y # ys" using Cons.prems(1) by (cases b) auto
  moreover obtain z zs where "c = z # zs" using Cons.prems(1,2) by (cases c) auto
  ultimately show ?case using Cons.prems Cons.IH [of ys zs] by (auto split: if_splits)
qed simp

text \<open>
  A hash survives its text form: \<open>String\<close> (byte-reversed hexadecimal) is 64 characters
  and \<open>NewHashFromStr\<close> turns it back into the same 32 bytes; \<open>NewHash\<close> accepts exactly the
  32 byte slices; and \<open>Cmp\<close> is a total order that is 0 exactly on equal hashes.
\<close>

theorem hash_text_roundtrip:
  assumes "length h = HashSize" "length g = HashSize" "length f = HashSize"
  shows "NewHashFromStr (Hash_String h) = Inr h \<and> length (Hash_String h) = MaxHashStringSize \<and>
    NewHash h = Inr h \<and> (Hash_Cmp h g = 0 \<longleftrightarrow> h = g) \<and> Hash_Cmp h g = - Hash_Cmp g h \<and>
    (Hash_Cmp h g = 1 \<longrightarrow> Hash_Cmp g f = 1 \<longrightarrow> Hash_Cmp h f = 1)"
proof -
  have "length (Hash_String h) = MaxHashStringSize"
    using hash_swap_rev [OF assms(1)] assms(1) by (simp add: Hash_String_def MaxHashStringSize_def)
  then show ?thesis
    using assms NewHashFromStr_String [OF assms(1)] hash_cmp_eq [of h g] hash_cmp_anti [of h g]
      hash_cmp_trans [of h g f]
    by (simp add: NewHash_def Hash_SetBytes_def Hash_Cmp_def)
qed

theorem hash_text_roundtrip_witness:
  "NewHashFromStr (Hash_String (replicate 31 7 @ [9])) = Inr (replicate 31 7 @ [9])"
  using hash_text_roundtrip [of "replicate 31 7 @ [9]" "replicate 32 0" "replicate 32 0"]
  by (simp add: HashSize_def)

text \<open>
  \<open>BytesPlusOne\<close> adds one to a byte string read as a big endian number, keeps its
  length, and wraps around to all zeros exactly when every byte is \<open>0xff\<close>.
\<close>

theorem BytesPlusOne_adds_one:
  "be_read 0 (BytesPlusOne b) = (be_read 0 b + 1) mod 256 ^ length b \<and> length (BytesPlusOne b) = length b"
proof
  show "be_read 0 (BytesPlusOne b) = (be_read 0 b + 1) mod 256 ^ length b"
    unfolding BytesPlusOne_def by (rule bytes_plus_loop_spec) simp_all
  have "i \<le> length b \<Longrightarrow> length r = length b \<Longrightarrow> length (bytes_plus_loop b i r) = length b" for i r
    by (induction i arbitrary: r) auto
  then show "length (BytesPlusOne b) = length b" by (simp add: BytesPlusOne_def)
qed

end
