(* ===== verification/Lvdb.thy ===== *)
theory Lvdb
  imports Byte_Codec
begin

text \<open>
  The database layer of \<open>src/database/lvdb\<close>: \<open>db.go\<close>, \<open>beacon.go\<close> and \<open>shard.go\<close>. LevelDB itself
  is not part of the repository: it is the argument \<open>l\<close>, a record of its four operations,
  and what the code relies on is the locale \<open>leveldb_contract\<close>. A method takes the
  database state and returns the new state with an error or a result, so that a write
  that succeeded before a later one failed stays visible. \<open>json.Marshal\<close> of a stored
  value is the argument \<open>marshal\<close> (\<open>None\<close> when it fails).
\<close>

section \<open>LevelDB and the error codes\<close>

datatype ldb_error = ErrNotFound | ErrIO

record 'db leveldb =
  ldb_Get :: "'db \<Rightarrow> bytes \<Rightarrow> ldb_error + bytes"
  ldb_Has :: "'db \<Rightarrow> bytes \<Rightarrow> ldb_error + bool"
  ldb_Put :: "'db \<Rightarrow> bytes \<Rightarrow> bytes \<Rightarrow> ldb_error + 'db"
  ldb_Delete :: "'db \<Rightarrow> bytes \<Rightarrow> ldb_error + 'db"

text \<open>The codes of \<open>database/error.go\<close>, errors passed on without a code, and a run-time panic.\<close>

datatype db_error =
    NotExistValue | LvDbNotFound | NotImplHashMethod | BlockExisted | UnexpectedError | ErrUnexpected
  | RawError ldb_error | JsonError | GoPanic

type_synonym ('db, 'a) dbm = "'db \<Rightarrow> 'db \<times> (db_error + 'a)"

definition db_return :: "'a \<Rightarrow> ('db, 'a) dbm" where
  "db_return x d = (d, Inr x)"

definition db_fail :: "db_error \<Rightarrow> ('db, 'a) dbm" where
  "db_fail e d = (d, Inl e)"

definition db_bind :: "('db, 'a) dbm \<Rightarrow> ('a \<Rightarrow> ('db, 'b) dbm) \<Rightarrow> ('db, 'b) dbm" where
  "db_bind m f d = (case m d of (d', Inl e) \<Rightarrow> (d', Inl e) | (d', Inr x) \<Rightarrow> f x d')"

definition db_then :: "('db, 'a) dbm \<Rightarrow> ('db, 'b) dbm \<Rightarrow> ('db, 'b) dbm" where
  "db_then m k = db_bind m (\<lambda>_. k)"

text \<open>The direct calls \<open>db.lvdb.Get\<close>, \<open>Has\<close>, \<open>Put\<close>, \<open>Delete\<close>; \<open>e\<close> is the error they are wrapped in.\<close>

definition lvdb_Get :: "'db leveldb \<Rightarrow> (ldb_error \<Rightarrow> db_error) \<Rightarrow> bytes \<Rightarrow> ('db, bytes) dbm" where
  "lvdb_Get l e k d = (case ldb_Get l d k of Inl x \<Rightarrow> (d, Inl (e x)) | Inr v \<Rightarrow> (d, Inr v))"

definition lvdb_Has :: "'db leveldb \<Rightarrow> (ldb_error \<Rightarrow> db_error) \<Rightarrow> bytes \<Rightarrow> ('db, bool) dbm" where
  "lvdb_Has l e k d = (case ldb_Has l d k of Inl x \<Rightarrow> (d, Inl (e x)) | Inr v \<Rightarrow> (d, Inr v))"

definition lvdb_Put :: "'db leveldb \<Rightarrow> (ldb_error \<Rightarrow> db_error) \<Rightarrow> bytes \<Rightarrow> bytes \<Rightarrow> ('db, unit) dbm" where
  "lvdb_Put l e k v d = (case ldb_Put l d k v of Inl x \<Rightarrow> (d, Inl (e x)) | Inr d' \<Rightarrow> (d', Inr ()))"

definition lvdb_Delete :: "'db leveldb \<Rightarrow> (ldb_error \<Rightarrow> db_error) \<Rightarrow> bytes \<Rightarrow> ('db, unit) dbm" where
  "lvdb_Delete l e k d = (case ldb_Delete l d k of Inl x \<Rightarrow> (d, Inl (e x)) | Inr d' \<Rightarrow> (d', Inr ()))"

abbreviation unexp :: "ldb_error \<Rightarrow> db_error" where
  "unexp \<equiv> (\<lambda>_. UnexpectedError)"

section \<open>db.go\<close>

definition str_bytes :: "string \<Rightarrow> bytes" where
  "str_bytes s = map of_char s"

definition beaconPrefix :: bytes where "beaconPrefix = str_bytes ''bea-''"
definition beaconBestBlockkey :: bytes where "beaconBestBlockkey = str_bytes ''bea-bestBlock''"
definition committeePrefix :: bytes where "committeePrefix = str_bytes ''com-''"
definition epochPrefix :: bytes where "epochPrefix = str_bytes ''ep-''"
definition shardIDPrefix :: bytes where "shardIDPrefix = str_bytes ''s''"
definition blockKeyPrefix :: bytes where "blockKeyPrefix = str_bytes ''b-''"
definition blockKeyIdxPrefix :: bytes where "blockKeyIdxPrefix = str_bytes ''i-''"
definition crossShardKeyPrefix :: bytes where "crossShardKeyPrefix = str_bytes ''csh-''"
definition nextCrossShardKeyPrefix :: bytes where "nextCrossShardKeyPrefix = str_bytes ''ncsh-''"
definition shardToBeaconKeyPrefix :: bytes where "shardToBeaconKeyPrefix = str_bytes ''stb-''"
definition serialNumbersPrefix :: bytes where "serialNumbersPrefix = str_bytes ''serinalnumbers-''"
definition commitmentsPrefix :: bytes where "commitmentsPrefix = str_bytes ''commitments-''"
definition outcoinsPrefix :: bytes where "outcoinsPrefix = str_bytes ''outcoins-''"
definition snderivatorsPrefix :: bytes where "snderivatorsPrefix = str_bytes ''snderivators-''"
definition bestBlockKey :: bytes where "bestBlockKey = str_bytes ''bestBlock''"

definition db_HasValue :: "'db leveldb \<Rightarrow> bytes \<Rightarrow> ('db, bool) dbm" where
  "db_HasValue l key = lvdb_Has l (\<lambda>_. NotExistValue) key"

definition db_Put :: "'db leveldb \<Rightarrow> bytes \<Rightarrow> bytes \<Rightarrow> ('db, unit) dbm" where
  "db_Put l key v = lvdb_Put l unexp key v"

definition db_Delete :: "'db leveldb \<Rightarrow> bytes \<Rightarrow> ('db, unit) dbm" where
  "db_Delete l key = lvdb_Delete l unexp key"

definition db_Get :: "'db leveldb \<Rightarrow> bytes \<Rightarrow> ('db, bytes) dbm" where
  "db_Get l key = lvdb_Get l (\<lambda>_. LvDbNotFound) key"

text \<open>Callers that wrap an error of \<open>db.Get\<close> once more replace its code.\<close>

definition db_Get_as :: "'db leveldb \<Rightarrow> db_error \<Rightarrow> bytes \<Rightarrow> ('db, bytes) dbm" where
  "db_Get_as l e key d = (case db_Get l key d of (d', Inl _) \<Rightarrow> (d', Inl e) | (d', Inr v) \<Rightarrow> (d', Inr v))"

text \<open>\<open>if ok, _ := db.HasValue(key); ok\<close>: an error counts as absent.\<close>

definition db_present :: "'db leveldb \<Rightarrow> bytes \<Rightarrow> ('db, bool) dbm" where
  "db_present l key d = (case db_HasValue l key d of (d', Inl _) \<Rightarrow> (d', Inr False) | (d', Inr b) \<Rightarrow> (d', Inr b))"

text \<open>
  \<open>GetKey\<close>: block keys carry the hash bytes, the others its text form; an unknown prefix
  gives the empty key.
\<close>

definition GetKey :: "bytes \<Rightarrow> hash \<Rightarrow> bytes" where
  "GetKey keyType key =
    (if keyType = blockKeyPrefix then blockKeyPrefix @ key
     else if keyType = blockKeyIdxPrefix then blockKeyIdxPrefix @ key
     else if keyType \<in> {serialNumbersPrefix, commitmentsPrefix, outcoinsPrefix, snderivatorsPrefix,
         str_bytes ''token-'', str_bytes ''privacy-token-'', str_bytes ''token-init-'',
         str_bytes ''privacy-token-init-''}
       then keyType @ str_bytes (Hash_String key)
     else [])"

section \<open>beacon.go\<close>

definition nextCrossShardKey :: "u8 \<Rightarrow> u8 \<Rightarrow> u64 \<Rightarrow> bytes" where
  "nextCrossShardKey fromShard toShard curHeight =
     nextCrossShardKeyPrefix @ [fromShard] @ str_bytes ''-'' @ [toShard] @ str_bytes ''-'' @
     Uint64ToBytes curHeight"

definition StoreCrossShardNextHeight ::
  "'db leveldb \<Rightarrow> u8 \<Rightarrow> u8 \<Rightarrow> u64 \<Rightarrow> u64 \<Rightarrow> ('db, unit) dbm" where
  "StoreCrossShardNextHeight l fromShard toShard curHeight nextHeight =
     db_Put l (nextCrossShardKey fromShard toShard curHeight) (Uint64ToBytes nextHeight)"

definition HasCrossShardNextHeight :: "'db leveldb \<Rightarrow> bytes \<Rightarrow> ('db, bool) dbm" where
  "HasCrossShardNextHeight l key = db_HasValue l key"

text \<open>\<open>info[:8]\<close> panics on a shorter value.\<close>

definition FetchCrossShardNextHeight :: "'db leveldb \<Rightarrow> u8 \<Rightarrow> u8 \<Rightarrow> u64 \<Rightarrow> ('db, u64) dbm" where
  "FetchCrossShardNextHeight l fromShard toShard curHeight =
    (let key = nextCrossShardKey fromShard toShard curHeight in
     db_then (HasCrossShardNextHeight l key)
       (db_bind (db_Get_as l UnexpectedError key)
         (\<lambda>info. case BytesToUint64 info of None \<Rightarrow> db_fail GoPanic | Some n \<Rightarrow> db_return n)))"

text \<open>
  \<open>StoreBeaconBlock\<close> and \<open>StoreShardBlock\<close>: \<open>hashOf v\<close> is the hash method of the value, \<open>None\<close>
  when it has none. The block is stored under its own key, and a marker under the chain's.
\<close>

definition store_block ::
  "'db leveldb \<Rightarrow> ('v \<Rightarrow> bytes option) \<Rightarrow> bytes \<Rightarrow> hash \<Rightarrow> 'v \<Rightarrow> ('db, unit) dbm" where
  "store_block l marshal key hash v =
    (let keyB = blockKeyPrefix @ hash in
     db_bind (db_present l key) (\<lambda>ok.
       if ok then db_fail BlockExisted
       else
         (case marshal v of
            None \<Rightarrow> db_fail UnexpectedError
          | Some val \<Rightarrow> db_then (db_Put l key keyB) (db_Put l keyB val))))"

definition StoreBeaconBlock ::
  "'db leveldb \<Rightarrow> ('v \<Rightarrow> bytes option) \<Rightarrow> ('v \<Rightarrow> hash option) \<Rightarrow> 'v \<Rightarrow> ('db, unit) dbm" where
  "StoreBeaconBlock l marshal hashOf v =
    (case hashOf v of
       None \<Rightarrow> db_fail NotImplHashMethod
     | Some hash \<Rightarrow> store_block l marshal (beaconPrefix @ blockKeyPrefix @ hash) hash v)"

definition StoreBeaconBlockHeader ::
  "'db leveldb \<Rightarrow> ('v \<Rightarrow> bytes option) \<Rightarrow> 'v \<Rightarrow> hash \<Rightarrow> ('db, unit) dbm" where
  "StoreBeaconBlockHeader l marshal v hash =
     store_block l marshal (beaconPrefix @ blockKeyPrefix @ hash) hash v"

definition HasBeaconBlock :: "'db leveldb \<Rightarrow> hash \<Rightarrow> ('db, bool) dbm" where
  "HasBeaconBlock l hash =
     db_then (db_HasValue l (beaconPrefix @ blockKeyPrefix @ hash)) (db_HasValue l (blockKeyPrefix @ hash))"

definition FetchBeaconBlock :: "'db leveldb \<Rightarrow> hash \<Rightarrow> ('db, bytes) dbm" where
  "FetchBeaconBlock l hash =
     db_then (HasBeaconBlock l hash) (db_Get_as l UnexpectedError (blockKeyPrefix @ hash))"

definition DeleteBeaconBlock :: "'db leveldb \<Rightarrow> hash \<Rightarrow> u64 \<Rightarrow> ('db, unit) dbm" where
  "DeleteBeaconBlock l hash idx =
    (let key = beaconPrefix @ blockKeyPrefix @ hash in
     db_then (lvdb_Delete l unexp key)
      (db_then (lvdb_Delete l unexp (blockKeyPrefix @ hash))
        (db_then (lvdb_Delete l unexp (beaconPrefix @ blockKeyIdxPrefix @ hash))
          (db_then (lvdb_Delete l unexp (Uint64ToBytes idx))
            (lvdb_Delete l unexp key)))))"

definition StoreBeaconBestState :: "'db leveldb \<Rightarrow> ('v \<Rightarrow> bytes option) \<Rightarrow> 'v \<Rightarrow> ('db, unit) dbm" where
  "StoreBeaconBestState l marshal v =
    (case marshal v of None \<Rightarrow> db_fail UnexpectedError | Some val \<Rightarrow> db_Put l beaconBestBlockkey val)"

definition FetchBeaconBestState :: "'db leveldb \<Rightarrow> ('db, bytes) dbm" where
  "FetchBeaconBestState l = db_Get_as l UnexpectedError beaconBestBlockkey"

definition CleanBeaconBestState :: "'db leveldb \<Rightarrow> ('db, unit) dbm" where
  "CleanBeaconBestState l = lvdb_Delete l unexp beaconBestBlockkey"

definition StoreBeaconBlockIndex :: "'db leveldb \<Rightarrow> hash \<Rightarrow> u64 \<Rightarrow> ('db, unit) dbm" where
  "StoreBeaconBlockIndex l h idx =
    (let buf = Uint64ToBytes idx in
     db_then (lvdb_Put l unexp (beaconPrefix @ blockKeyIdxPrefix @ h) buf)
       (lvdb_Put l unexp (beaconPrefix @ blockKeyIdxPrefix @ buf) h))"

definition GetIndexOfBeaconBlock :: "'db leveldb \<Rightarrow> hash \<Rightarrow> ('db, u64) dbm" where
  "GetIndexOfBeaconBlock l h =
     db_bind (lvdb_Get l unexp (beaconPrefix @ blockKeyIdxPrefix @ h))
       (\<lambda>b. case BytesToUint64 b of None \<Rightarrow> db_fail GoPanic | Some n \<Rightarrow> db_return n)"

text \<open>\<open>SetBytes\<close> on a value of another length leaves the zero hash, its error is dropped.\<close>

definition GetBeaconBlockHashByIndex :: "'db leveldb \<Rightarrow> u64 \<Rightarrow> ('db, hash) dbm" where
  "GetBeaconBlockHashByIndex l idx =
     db_bind (lvdb_Get l unexp (beaconPrefix @ blockKeyIdxPrefix @ Uint64ToBytes idx))
       (\<lambda>b. case Hash_SetBytes b of Inl _ \<Rightarrow> db_return (replicate HashSize 0) | Inr h \<Rightarrow> db_return h)"

definition shardToBeaconKey :: "u8 \<Rightarrow> hash \<Rightarrow> bytes" where
  "shardToBeaconKey shardID shardBlkHash = shardToBeaconKeyPrefix @ [shardID] @ shardBlkHash"

definition StoreAcceptedShardToBeacon :: "'db leveldb \<Rightarrow> u8 \<Rightarrow> u64 \<Rightarrow> hash \<Rightarrow> ('db, unit) dbm" where
  "StoreAcceptedShardToBeacon l shardID blkHeight shardBlkHash =
     lvdb_Put l unexp (shardToBeaconKey shardID shardBlkHash) (Uint64ToBytes blkHeight)"

definition HasAcceptedShardToBeacon :: "'db leveldb \<Rightarrow> u8 \<Rightarrow> hash \<Rightarrow> ('db, unit) dbm" where
  "HasAcceptedShardToBeacon l shardID shardBlkHash =
     db_bind (db_present l (shardToBeaconKey shardID shardBlkHash))
       (\<lambda>ok. if ok then db_return () else db_fail BlockExisted)"

text \<open>\<open>binary.Read\<close> of a short value is an error, and ignores what follows eight bytes.\<close>

definition GetAcceptedShardToBeacon :: "'db leveldb \<Rightarrow> u8 \<Rightarrow> hash \<Rightarrow> ('db, u64) dbm" where
  "GetAcceptedShardToBeacon l shardID shardBlkHash =
     db_bind (db_Get_as l UnexpectedError (shardToBeaconKey shardID shardBlkHash))
       (\<lambda>b. case BytesToUint64 b of None \<Rightarrow> db_fail UnexpectedError | Some n \<Rightarrow> db_return n)"

definition committeeHeightKey :: "u64 \<Rightarrow> bytes" where
  "committeeHeightKey blkHeight = beaconPrefix @ shardIDPrefix @ committeePrefix @ Uint64ToBytes blkHeight"

definition committeeEpochKey :: "u64 \<Rightarrow> bytes" where
  "committeeEpochKey blkEpoch =
     beaconPrefix @ shardIDPrefix @ committeePrefix @ epochPrefix @ Uint64ToBytes blkEpoch"

definition StoreCommitteeByHeight ::
  "'db leveldb \<Rightarrow> ('v \<Rightarrow> bytes option) \<Rightarrow> u64 \<Rightarrow> 'v \<Rightarrow> ('db, unit) dbm" where
  "StoreCommitteeByHeight l marshal blkHeight v =
    (case marshal v of
       None \<Rightarrow> db_fail UnexpectedError
     | Some val \<Rightarrow> lvdb_Put l unexp (committeeHeightKey blkHeight) val)"

definition FetchCommitteeByHeight :: "'db leveldb \<Rightarrow> u64 \<Rightarrow> ('db, bytes) dbm" where
  "FetchCommitteeByHeight l blkHeight = lvdb_Get l unexp (committeeHeightKey blkHeight)"

definition StoreCommitteeByEpoch ::
  "'db leveldb \<Rightarrow> ('v \<Rightarrow> bytes option) \<Rightarrow> u64 \<Rightarrow> 'v \<Rightarrow> ('db, unit) dbm" where
  "StoreCommitteeByEpoch l marshal blkEpoch v =
    (case marshal v of
       None \<Rightarrow> db_fail UnexpectedError
     | Some val \<Rightarrow> lvdb_Put l unexp (committeeEpochKey blkEpoch) val)"

definition FetchCommitteeByEpoch :: "'db leveldb \<Rightarrow> u64 \<Rightarrow> ('db, bytes) dbm" where
  "FetchCommitteeByEpoch l blkEpoch = lvdb_Get l unexp (committeeEpochKey blkEpoch)"

definition HasCommitteeByEpoch :: "'db leveldb \<Rightarrow> u64 \<Rightarrow> ('db, bool) dbm" where
  "HasCommitteeByEpoch l blkEpoch = lvdb_Has l unexp (committeeEpochKey blkEpoch)"


section \<open>shard.go\<close>

definition shardBlockKey :: "u8 \<Rightarrow> hash \<Rightarrow> bytes" where
  "shardBlockKey shardID hash = shardIDPrefix @ [shardID] @ blockKeyPrefix @ hash"

definition StoreShardBlock ::
  "'db leveldb \<Rightarrow> ('v \<Rightarrow> bytes option) \<Rightarrow> ('v \<Rightarrow> hash option) \<Rightarrow> 'v \<Rightarrow> u8 \<Rightarrow> ('db, unit) dbm" where
  "StoreShardBlock l marshal hashOf v shardID =
    (case hashOf v of
       None \<Rightarrow> db_fail NotImplHashMethod
     | Some hash \<Rightarrow> store_block l marshal (shardBlockKey shardID hash) hash v)"

definition StoreShardBlockHeader ::
  "'db leveldb \<Rightarrow> ('v \<Rightarrow> bytes option) \<Rightarrow> 'v \<Rightarrow> hash \<Rightarrow> u8 \<Rightarrow> ('db, unit) dbm" where
  "StoreShardBlockHeader l marshal v hash shardID =
     store_block l marshal (shardBlockKey shardID hash) hash v"

definition HasBlock :: "'db leveldb \<Rightarrow> hash \<Rightarrow> ('db, bool) dbm" where
  "HasBlock l hash = db_HasValue l (GetKey blockKeyPrefix hash)"

text \<open>A missing block is an error; any other failure is read as an empty block.\<close>

definition FetchBlock :: "'db leveldb \<Rightarrow> hash \<Rightarrow> ('db, bytes) dbm" where
  "FetchBlock l hash d =
    (case ldb_Get l d (GetKey blockKeyPrefix hash) of
       Inl err \<Rightarrow> if err = ErrNotFound then (d, Inl UnexpectedError) else (d, Inr [])
     | Inr block \<Rightarrow> (d, Inr block))"

definition DeleteBlock :: "'db leveldb \<Rightarrow> hash \<Rightarrow> u64 \<Rightarrow> u8 \<Rightarrow> ('db, unit) dbm" where
  "DeleteBlock l hash idx shardID =
     db_then (lvdb_Delete l unexp (GetKey blockKeyPrefix hash))
       (db_then (lvdb_Delete l unexp (GetKey blockKeyIdxPrefix hash))
         (lvdb_Delete l unexp (Uint64ToBytes idx @ [shardID])))"

definition StoreBestState :: "'db leveldb \<Rightarrow> ('v \<Rightarrow> bytes option) \<Rightarrow> 'v \<Rightarrow> u8 \<Rightarrow> ('db, unit) dbm" where
  "StoreBestState l marshal v shardID =
    (case marshal v of None \<Rightarrow> db_fail UnexpectedError | Some val \<Rightarrow> db_Put l (bestBlockKey @ [shardID]) val)"

definition FetchBestState :: "'db leveldb \<Rightarrow> u8 \<Rightarrow> ('db, bytes) dbm" where
  "FetchBestState l shardID = db_Get_as l UnexpectedError (bestBlockKey @ [shardID])"

fun delete_all :: "'db leveldb \<Rightarrow> bytes list \<Rightarrow> ('db, unit) dbm" where
  "delete_all l [] = db_return ()"
| "delete_all l (k # ks) = db_then (lvdb_Delete l unexp k) (delete_all l ks)"

definition CleanBestState :: "'db leveldb \<Rightarrow> ('db, unit) dbm" where
  "CleanBestState l = delete_all l (map (\<lambda>i. bestBlockKey @ [word_of_nat i]) [0..<MAX_SHARD_NUMBER])"

definition StoreShardBlockIndex :: "'db leveldb \<Rightarrow> hash \<Rightarrow> u64 \<Rightarrow> u8 \<Rightarrow> ('db, unit) dbm" where
  "StoreShardBlockIndex l h idx shardID =
    (let buf = Uint64ToBytes idx @ [shardID] in
     db_then (lvdb_Put l unexp (GetKey blockKeyIdxPrefix h) buf) (lvdb_Put l unexp buf h))"

definition GetIndexOfBlock :: "'db leveldb \<Rightarrow> hash \<Rightarrow> ('db, u64 \<times> u8) dbm" where
  "GetIndexOfBlock l h =
     db_bind (lvdb_Get l unexp (GetKey blockKeyIdxPrefix h))
       (\<lambda>b. case BytesToUint64 b of
              None \<Rightarrow> db_fail GoPanic
            | Some idx \<Rightarrow> (case drop 8 b of [] \<Rightarrow> db_fail UnexpectedError | shardID # _ \<Rightarrow> db_return (idx, shardID)))"

definition GetBlockByIndex :: "'db leveldb \<Rightarrow> u64 \<Rightarrow> u8 \<Rightarrow> ('db, hash) dbm" where
  "GetBlockByIndex l idx shardID =
     db_bind (lvdb_Get l unexp (Uint64ToBytes idx @ [shardID]))
       (\<lambda>b. case Hash_SetBytes b of Inl _ \<Rightarrow> db_fail UnexpectedError | Inr h \<Rightarrow> db_return h)"

definition incomingCrossShardKey :: "u8 \<Rightarrow> u8 \<Rightarrow> hash \<Rightarrow> bytes" where
  "incomingCrossShardKey shardID crossShardID crossBlkHash =
     crossShardKeyPrefix @ [shardID] @ [crossShardID] @ crossBlkHash"

definition StoreIncomingCrossShard :: "'db leveldb \<Rightarrow> u8 \<Rightarrow> u8 \<Rightarrow> u64 \<Rightarrow> hash \<Rightarrow> ('db, unit) dbm" where
  "StoreIncomingCrossShard l shardID crossShardID blkHeight crossBlkHash =
    (let key = incomingCrossShardKey shardID crossShardID crossBlkHash in
     db_bind (db_present l key)
       (\<lambda>ok. if ok then db_fail BlockExisted else lvdb_Put l unexp key (Uint64ToBytes blkHeight)))"

definition HasIncomingCrossShard :: "'db leveldb \<Rightarrow> u8 \<Rightarrow> u8 \<Rightarrow> hash \<Rightarrow> ('db, unit) dbm" where
  "HasIncomingCrossShard l shardID crossShardID crossBlkHash =
     db_bind (db_present l (incomingCrossShardKey shardID crossShardID crossBlkHash))
       (\<lambda>ok. if ok then db_return () else db_fail BlockExisted)"

definition GetIncomingCrossShard :: "'db leveldb \<Rightarrow> u8 \<Rightarrow> u8 \<Rightarrow> hash \<Rightarrow> ('db, u64) dbm" where
  "GetIncomingCrossShard l shardID crossShardID crossBlkHash =
     db_bind (db_Get_as l UnexpectedError (incomingCrossShardKey shardID crossShardID crossBlkHash))
       (\<lambda>b. case BytesToUint64 b of None \<Rightarrow> db_fail UnexpectedError | Some n \<Rightarrow> db_return n)"

definition outgoingCrossShardKey :: "u8 \<Rightarrow> u8 \<Rightarrow> u64 \<Rightarrow> bytes" where
  "outgoingCrossShardKey shardID crossShardID blkHeight =
     crossShardKeyPrefix @ [shardID] @ Uint64ToBytes blkHeight @ [crossShardID]"

definition StoreOutgoingCrossShard ::
  "'db leveldb \<Rightarrow> ('v \<Rightarrow> bytes option) \<Rightarrow> ('v \<Rightarrow> hash option) \<Rightarrow> u8 \<Rightarrow> u8 \<Rightarrow> u64 \<Rightarrow> 'v \<Rightarrow> ('db, unit) dbm" where
  "StoreOutgoingCrossShard l marshal hashOf shardID crossShardID blkHeight crossBlk =
    (case hashOf crossBlk of
       None \<Rightarrow> db_fail NotImplHashMethod
     | Some _ \<Rightarrow>
         (let key = outgoingCrossShardKey shardID crossShardID blkHeight in
          db_bind (db_present l key)
            (\<lambda>ok. if ok then db_fail BlockExisted
                  else (case marshal crossBlk of
                          None \<Rightarrow> db_fail UnexpectedError
                        | Some val \<Rightarrow> db_Put l key val))))"

definition HasOutgoingCrossShard :: "'db leveldb \<Rightarrow> u8 \<Rightarrow> u8 \<Rightarrow> u64 \<Rightarrow> ('db, unit) dbm" where
  "HasOutgoingCrossShard l shardID crossShardID blkHeight =
     db_bind (db_present l (outgoingCrossShardKey shardID crossShardID blkHeight))
       (\<lambda>ok. if ok then db_return () else db_fail BlockExisted)"

definition GetOutgoingCrossShard :: "'db leveldb \<Rightarrow> u8 \<Rightarrow> u8 \<Rightarrow> u64 \<Rightarrow> ('db, bytes) dbm" where
  "GetOutgoingCrossShard l shardID crossShardID blkHeight =
     db_Get_as l UnexpectedError (outgoingCrossShardKey shardID crossShardID blkHeight)"

section \<open>The contract of LevelDB\<close>

text \<open>
  What the layer relies on: a successful write is read back and touches no other key, a
  deleted key is not found, and \<open>Has\<close> and \<open>Get\<close> agree.
\<close>

locale leveldb_contract =
  fixes l :: "'db leveldb"
  assumes put_get: "ldb_Put l d k v = Inr d' \<Longrightarrow> ldb_Get l d' k = Inr v"
    and put_frame: "ldb_Put l d k v = Inr d' \<Longrightarrow> k' \<noteq> k \<Longrightarrow> ldb_Get l d' k' = ldb_Get l d k'"
    and delete_get: "ldb_Delete l d k = Inr d' \<Longrightarrow> ldb_Get l d' k = Inl ErrNotFound"
    and delete_frame: "ldb_Delete l d k = Inr d' \<Longrightarrow> k' \<noteq> k \<Longrightarrow> ldb_Get l d' k' = ldb_Get l d k'"
    and has_found: "ldb_Get l d k = Inr v \<Longrightarrow> ldb_Has l d k = Inr True"
    and has_missing: "ldb_Get l d k = Inl ErrNotFound \<Longrightarrow> ldb_Has l d k = Inr False"

text \<open>An in-memory database that never fails, as the map from keys to values.\<close>

definition mem_leveldb :: "(bytes \<rightharpoonup> bytes) leveldb" where
  "mem_leveldb =
    \<lparr>ldb_Get = (\<lambda>d k. case d k of None \<Rightarrow> Inl ErrNotFound | Some v \<Rightarrow> Inr v),
     ldb_Has = (\<lambda>d k. Inr (d k \<noteq> None)),
     ldb_Put = (\<lambda>d k v. Inr (d(k \<mapsto> v))),
     ldb_Delete = (\<lambda>d k. Inr (d(k := None)))\<rparr>"

interpretation mem: leveldb_contract mem_leveldb
  by unfold_locales (auto simp: mem_leveldb_def split: option.splits)

lemmas dbm_defs =
  db_return_def db_fail_def db_bind_def db_then_def lvdb_Get_def lvdb_Has_def lvdb_Put_def
  lvdb_Delete_def db_HasValue_def db_Put_def db_Get_def db_Get_as_def db_present_def

section \<open>Keys\<close>

text \<open>The prefixes as bytes, and the facts that keep the families of keys apart.\<close>

lemmas prefix_defs =
  beaconPrefix_def beaconBestBlockkey_def committeePrefix_def epochPrefix_def shardIDPrefix_def
  blockKeyPrefix_def blockKeyIdxPrefix_def crossShardKeyPrefix_def nextCrossShardKeyPrefix_def
  shardToBeaconKeyPrefix_def bestBlockKey_def str_bytes_def

lemmas key_defs =
  nextCrossShardKey_def shardToBeaconKey_def committeeHeightKey_def committeeEpochKey_def
  shardBlockKey_def incomingCrossShardKey_def outgoingCrossShardKey_def

lemma nextCrossShardKey_inj:
  "nextCrossShardKey f t h = nextCrossShardKey f' t' h' \<longleftrightarrow> f = f' \<and> t = t' \<and> h = h'"
  by (auto simp: nextCrossShardKey_def Uint64ToBytes_inj)

section \<open>What a successful call did\<close>

lemma lvdb_Put_ok: "lvdb_Put l e k v d = (d', Inr u) \<longleftrightarrow> ldb_Put l d k v = Inr d'"
  by (auto simp: lvdb_Put_def split: sum.splits)

lemma lvdb_Delete_ok: "lvdb_Delete l e k d = (d', Inr u) \<longleftrightarrow> ldb_Delete l d k = Inr d'"
  by (auto simp: lvdb_Delete_def split: sum.splits)

lemma db_then_ok: "db_then m n d = (d', Inr x) \<longleftrightarrow> (\<exists>d1 y. m d = (d1, Inr y) \<and> n d1 = (d', Inr x))"
  by (auto simp: db_then_def db_bind_def split: prod.splits sum.splits)

lemma db_bind_ok: "db_bind m f d = (d', Inr x) \<longleftrightarrow> (\<exists>d1 y. m d = (d1, Inr y) \<and> f y d1 = (d', Inr x))"
  by (auto simp: db_bind_def split: prod.splits sum.splits)

lemma lvdb_Get_found: "ldb_Get l d k = Inr v \<Longrightarrow> lvdb_Get l e k d = (d, Inr v)"
  by (simp add: lvdb_Get_def)

lemma db_Get_as_found: "ldb_Get l d k = Inr v \<Longrightarrow> db_Get_as l e k d = (d, Inr v)"
  by (simp add: db_Get_as_def db_Get_def lvdb_Get_def)

lemma db_present_state: "\<exists>b. db_present l k d = (d, Inr b)"
  by (auto simp: db_present_def db_HasValue_def lvdb_Has_def split: sum.splits)

lemma store_block_ok:
  assumes "store_block l marshal key hash v d = (d', Inr u)"
  obtains d1 val where "marshal v = Some val" "db_present l key d = (d, Inr False)"
    "ldb_Put l d key (blockKeyPrefix @ hash) = Inr d1" "ldb_Put l d1 (blockKeyPrefix @ hash) val = Inr d'"
proof -
  obtain b where b: "db_present l key d = (d, Inr b)" using db_present_state by metis
  with assms that show ?thesis
    by (auto simp: store_block_def Let_def db_bind_def db_fail_def db_then_ok db_Put_def lvdb_Put_ok
        split: if_splits option.splits)
qed

context leveldb_contract
begin

lemma HasValue_found: "ldb_Get l d k = Inr v \<Longrightarrow> db_HasValue l k d = (d, Inr True)"
  by (simp add: db_HasValue_def lvdb_Has_def has_found)

lemma present_found: "ldb_Get l d k = Inr v \<Longrightarrow> db_present l k d = (d, Inr True)"
  by (simp add: db_present_def HasValue_found)

text \<open>A stored block is found under both its keys, and cannot be stored twice.\<close>

lemma store_block_found:
  assumes "store_block l marshal key hash v d = (d', Inr u)" "key \<noteq> blockKeyPrefix @ hash"
  shows "marshal v = Some val \<Longrightarrow> ldb_Get l d' (blockKeyPrefix @ hash) = Inr val"
    and "ldb_Get l d' key = Inr (blockKeyPrefix @ hash)"
    and "store_block l marshal' key hash v' d' = (d', Inl BlockExisted)"
proof -
  obtain d1 val' where s: "marshal v = Some val'" "ldb_Put l d key (blockKeyPrefix @ hash) = Inr d1"
    "ldb_Put l d1 (blockKeyPrefix @ hash) val' = Inr d'"
    using store_block_ok [OF assms(1)] by metis
  show "marshal v = Some val \<Longrightarrow> ldb_Get l d' (blockKeyPrefix @ hash) = Inr val"
    using s put_get by simp
  show k: "ldb_Get l d' key = Inr (blockKeyPrefix @ hash)"
    using put_get [OF s(2)] put_frame [OF s(3) assms(2)] by simp
  show "store_block l marshal' key hash v' d' = (d', Inl BlockExisted)"
    using present_found [OF k] by (simp add: store_block_def Let_def db_bind_def db_fail_def)
qed

lemma next_height_get:
  assumes "StoreCrossShardNextHeight l f t c n d = (d', Inr u)"
  shows "ldb_Get l d' (nextCrossShardKey f' t' c') =
    (if f' = f \<and> t' = t \<and> c' = c then Inr (Uint64ToBytes n) else ldb_Get l d (nextCrossShardKey f' t' c'))"
  using assms put_get put_frame
  by (auto simp: StoreCrossShardNextHeight_def db_Put_def lvdb_Put_ok nextCrossShardKey_inj)

lemma FetchCrossShardNextHeight_eq:
  "FetchCrossShardNextHeight l f t c d =
    (case ldb_Get l d (nextCrossShardKey f t c) of
       Inr info \<Rightarrow> (d, case BytesToUint64 info of None \<Rightarrow> Inl GoPanic | Some n \<Rightarrow> Inr n)
     | Inl ErrNotFound \<Rightarrow> (d, Inl UnexpectedError)
     | Inl ErrIO \<Rightarrow> (d, Inl (case ldb_Has l d (nextCrossShardKey f t c) of Inl _ \<Rightarrow> NotExistValue | Inr _ \<Rightarrow> UnexpectedError)))"
  using has_found [of d "nextCrossShardKey f t c"] has_missing [of d "nextCrossShardKey f t c"]
  by (auto simp: FetchCrossShardNextHeight_def HasCrossShardNextHeight_def Let_def dbm_defs
      split: sum.splits ldb_error.splits option.splits)

end

lemma hash_key_neq [simp]:
  "beaconPrefix @ blockKeyPrefix @ h \<noteq> blockKeyPrefix @ h"
  "shardBlockKey i h \<noteq> blockKeyPrefix @ h"
  by (auto simp: prefix_defs shardBlockKey_def)


section \<open>Properties\<close>

text \<open>
  A beacon block that was stored is read back as it was marshalled, by
  \<open>FetchBeaconBlock\<close> and by \<open>FetchBlock\<close>; \<open>HasBeaconBlock\<close> sees it; and storing it again is
  refused with \<open>BlockExisted\<close> and changes nothing.
\<close>

theorem beacon_block_store_fetch:
  assumes "leveldb_contract l" "hashOf v = Some h" "marshal v = Some val"
    and "StoreBeaconBlock l marshal hashOf v d = (d', Inr u)"
  shows "FetchBeaconBlock l h d' = (d', Inr val) \<and> FetchBlock l h d' = (d', Inr val) \<and>
    HasBeaconBlock l h d' = (d', Inr True) \<and>
    StoreBeaconBlock l marshal hashOf v d' = (d', Inl BlockExisted)"
proof -
  let ?key = "beaconPrefix @ blockKeyPrefix @ h"
  have s: "store_block l marshal ?key h v d = (d', Inr u)"
    using assms(2,4) by (simp add: StoreBeaconBlock_def)
  note F = leveldb_contract.store_block_found [OF assms(1) s hash_key_neq(1)]
  note has = leveldb_contract.HasValue_found [OF assms(1)]
  have B: "HasBeaconBlock l h d' = (d', Inr True)"
    using has [OF F(2)] has [OF F(1) [OF assms(3)]]
    by (simp add: HasBeaconBlock_def db_then_def db_bind_def)
  moreover have "FetchBeaconBlock l h d' = (d', Inr val)"
    using B db_Get_as_found [OF F(1) [OF assms(3)]]
    by (simp add: FetchBeaconBlock_def db_then_def db_bind_def)
  moreover have "FetchBlock l h d' = (d', Inr val)"
    using F(1) [OF assms(3)] by (simp add: FetchBlock_def GetKey_def)
  ultimately show ?thesis using F(3) assms(2) by (simp add: StoreBeaconBlock_def)
qed

definition sample_hash :: hash where
  "sample_hash = replicate 32 7"

lemma sample_hash_length [simp]: "length sample_hash = HashSize"
  by (simp add: sample_hash_def HashSize_def)

theorem beacon_block_store_fetch_witness:
  "let (d', r) = StoreBeaconBlock mem_leveldb Some (\<lambda>_. Some sample_hash) [1, 2, 3] Map.empty
   in r = Inr () \<and> FetchBeaconBlock mem_leveldb sample_hash d' = (d', Inr [1, 2, 3])"
proof -
  obtain d' where s: "StoreBeaconBlock mem_leveldb Some (\<lambda>_. Some sample_hash) [1, 2, 3] Map.empty = (d', Inr ())"
    by (simp add: StoreBeaconBlock_def store_block_def dbm_defs mem_leveldb_def Let_def)
  from beacon_block_store_fetch [OF mem.leveldb_contract_axioms _ _ s]
  show ?thesis using s by simp
qed

text \<open>
  Heights and hashes of beacon blocks are stored both ways: after
  \<open>StoreBeaconBlockIndex\<close> the height of the hash and the hash of the height are found,
  and the entries of other hashes and of other heights are as before.
\<close>

theorem beacon_index_roundtrip:
  assumes c: "leveldb_contract l" and h: "length h = HashSize"
    and s: "StoreBeaconBlockIndex l h idx d = (d', Inr u)"
  shows "GetIndexOfBeaconBlock l h d' = (d', Inr idx) \<and>
    GetBeaconBlockHashByIndex l idx d' = (d', Inr h) \<and>
    (\<forall>g. length g = HashSize \<longrightarrow> g \<noteq> h \<longrightarrow>
       snd (GetIndexOfBeaconBlock l g d') = snd (GetIndexOfBeaconBlock l g d)) \<and>
    (\<forall>i. i \<noteq> idx \<longrightarrow> snd (GetBeaconBlockHashByIndex l i d') = snd (GetBeaconBlockHashByIndex l i d))"
proof -
  let ?k = "\<lambda>x. beaconPrefix @ blockKeyIdxPrefix @ x"
  obtain d1 where p: "ldb_Put l d (?k h) (Uint64ToBytes idx) = Inr d1" "ldb_Put l d1 (?k (Uint64ToBytes idx)) h = Inr d'"
    using s by (auto simp: StoreBeaconBlockIndex_def Let_def db_then_ok lvdb_Put_ok)
  note L = leveldb_contract.put_get [OF c] leveldb_contract.put_frame [OF c]
  have ne: "g \<noteq> Uint64ToBytes i" if "length g = HashSize" for g i
    using that by (auto simp: HashSize_def)
  have kne: "?k g \<noteq> ?k (Uint64ToBytes i)" if "length g = HashSize" for g i
    using ne [OF that] by simp
  have "ldb_Get l d' (?k h) = Inr (Uint64ToBytes idx)"
    using L(1) [OF p(1)] L(2) [OF p(2) kne [OF h]] by simp
  moreover have "ldb_Get l d' (?k (Uint64ToBytes idx)) = Inr h" by (rule L(1) [OF p(2)])
  moreover have "ldb_Get l d' (?k g) = ldb_Get l d (?k g)" if "length g = HashSize" "g \<noteq> h" for g
    using L(2) [OF p(2) kne [OF that(1)]] L(2) [OF p(1), of "?k g"] that(2) by simp
  moreover have "ldb_Get l d' (?k (Uint64ToBytes i)) = ldb_Get l d (?k (Uint64ToBytes i))" if "i \<noteq> idx" for i
    using L(2) [OF p(2), of "?k (Uint64ToBytes i)"] L(2) [OF p(1) kne [OF h, symmetric]] that
    by (simp add: Uint64ToBytes_inj)
  ultimately show ?thesis using h
    by (simp add: GetIndexOfBeaconBlock_def GetBeaconBlockHashByIndex_def db_bind_def lvdb_Get_def
        db_return_def db_fail_def Hash_SetBytes_def split: sum.splits option.splits)
qed

lemma store_index_example:
  "StoreBeaconBlockIndex mem_leveldb sample_hash 5 Map.empty =
    ([beaconPrefix @ blockKeyIdxPrefix @ sample_hash \<mapsto> Uint64ToBytes 5,
      beaconPrefix @ blockKeyIdxPrefix @ Uint64ToBytes 5 \<mapsto> sample_hash], Inr ())"
  by (simp add: StoreBeaconBlockIndex_def dbm_defs mem_leveldb_def Let_def)

theorem beacon_index_roundtrip_witness:
  "let d' = fst (StoreBeaconBlockIndex mem_leveldb sample_hash 5 Map.empty)
   in GetIndexOfBeaconBlock mem_leveldb sample_hash d' = (d', Inr 5) \<and>
      GetBeaconBlockHashByIndex mem_leveldb 5 d' = (d', Inr sample_hash)"
  using beacon_index_roundtrip [OF mem.leveldb_contract_axioms _ store_index_example]
  by (simp add: store_index_example Let_def)

text \<open>
  \<open>DeleteBeaconBlock\<close> does not remove what \<open>StoreBeaconBlockIndex\<close> stored under the
  height: it deletes the bare eight bytes of the index instead of the prefixed key, so
  after a successful delete the height still leads to the hash of the deleted block.
\<close>

theorem beacon_index_survives_delete:
  assumes c: "leveldb_contract l" and h: "length h = HashSize"
    and s: "DeleteBeaconBlock l h idx d = (d', Inr u)"
  shows "snd (GetBeaconBlockHashByIndex l i d') = snd (GetBeaconBlockHashByIndex l i d)"
proof -
  let ?key = "beaconPrefix @ blockKeyIdxPrefix @ Uint64ToBytes i"
  obtain d1 d2 d3 d4 where p: "ldb_Delete l d (beaconPrefix @ blockKeyPrefix @ h) = Inr d1"
    "ldb_Delete l d1 (blockKeyPrefix @ h) = Inr d2"
    "ldb_Delete l d2 (beaconPrefix @ blockKeyIdxPrefix @ h) = Inr d3"
    "ldb_Delete l d3 (Uint64ToBytes idx) = Inr d4"
    "ldb_Delete l d4 (beaconPrefix @ blockKeyPrefix @ h) = Inr d'"
    using s by (auto simp: DeleteBeaconBlock_def Let_def db_then_ok lvdb_Delete_ok)
  have len: "length ?key = 14" by (simp add: prefix_defs)
  have ne: "?key \<noteq> beaconPrefix @ blockKeyPrefix @ h" "?key \<noteq> blockKeyPrefix @ h"
    "?key \<noteq> beaconPrefix @ blockKeyIdxPrefix @ h" "?key \<noteq> Uint64ToBytes idx"
    using h by (auto simp: HashSize_def prefix_defs dest!: arg_cong [of _ _ length])
  note F = leveldb_contract.delete_frame [OF c]
  have "ldb_Get l d' ?key = ldb_Get l d ?key"
    using F [OF p(1) ne(1)] F [OF p(2) ne(2)] F [OF p(3) ne(3)] F [OF p(4) ne(4)] F [OF p(5) ne(1)] by simp
  then show ?thesis
    by (simp add: GetBeaconBlockHashByIndex_def db_bind_def lvdb_Get_def db_return_def split: sum.splits)
qed

theorem beacon_index_survives_delete_witness:
  "let d = fst (StoreBeaconBlockIndex mem_leveldb sample_hash 5 Map.empty);
       d' = fst (DeleteBeaconBlock mem_leveldb sample_hash 5 d)
   in snd (GetBeaconBlockHashByIndex mem_leveldb 5 d') = Inr sample_hash"
proof -
  define d where "d = fst (StoreBeaconBlockIndex mem_leveldb sample_hash 5 Map.empty)"
  obtain d' where s: "DeleteBeaconBlock mem_leveldb sample_hash 5 d = (d', Inr ())"
    by (simp add: DeleteBeaconBlock_def dbm_defs mem_leveldb_def Let_def)
  have "snd (GetBeaconBlockHashByIndex mem_leveldb 5 d) = Inr sample_hash"
    unfolding d_def store_index_example
    by (simp add: GetBeaconBlockHashByIndex_def dbm_defs mem_leveldb_def Hash_SetBytes_def)
  with beacon_index_survives_delete [OF mem.leveldb_contract_axioms _ s]
  show ?thesis unfolding Let_def d_def [symmetric] s by simp
qed

text \<open>
  A shard block that is deleted cannot be stored again: \<open>DeleteBlock\<close> leaves the marker
  under the shard's key, and \<open>StoreShardBlock\<close> takes it for an existing block, although
  \<open>FetchBlock\<close> no longer finds one.
\<close>

theorem shard_block_not_restorable:
  assumes c: "leveldb_contract l" and h: "length h = HashSize" "hashOf v = Some h"
    and st: "StoreShardBlock l marshal hashOf v i d = (d1, Inr u)"
    and de: "DeleteBlock l h idx i d1 = (d2, Inr u')"
  shows "FetchBlock l h d2 = (d2, Inl UnexpectedError) \<and>
    StoreShardBlock l marshal hashOf v i d2 = (d2, Inl BlockExisted)"
proof -
  let ?key = "shardBlockKey i h"
  have s: "store_block l marshal ?key h v d = (d1, Inr u)"
    using st h(2) by (simp add: StoreShardBlock_def)
  note F = leveldb_contract.store_block_found [OF c s hash_key_neq(2)]
  obtain e1 e2 where p: "ldb_Delete l d1 (blockKeyPrefix @ h) = Inr e1"
    "ldb_Delete l e1 (blockKeyIdxPrefix @ h) = Inr e2" "ldb_Delete l e2 (Uint64ToBytes idx @ [i]) = Inr d2"
    using de by (auto simp: DeleteBlock_def GetKey_def db_then_ok lvdb_Delete_ok prefix_defs)
  note D = leveldb_contract.delete_frame [OF c] leveldb_contract.delete_get [OF c]
  have ne: "?key \<noteq> blockKeyPrefix @ h" "?key \<noteq> blockKeyIdxPrefix @ h" "?key \<noteq> Uint64ToBytes idx @ [i]"
    "blockKeyPrefix @ h \<noteq> blockKeyIdxPrefix @ h" "blockKeyPrefix @ h \<noteq> Uint64ToBytes idx @ [i]"
    using h(1) by (auto simp: HashSize_def prefix_defs shardBlockKey_def dest!: arg_cong [of _ _ length])
  have "ldb_Get l d2 ?key = Inr (blockKeyPrefix @ h)"
    using F(2) D(1) [OF p(1) ne(1)] D(1) [OF p(2) ne(2)] D(1) [OF p(3) ne(3)] by simp
  then have "store_block l marshal ?key h v d2 = (d2, Inl BlockExisted)"
    using leveldb_contract.present_found [OF c] by (simp add: store_block_def Let_def db_bind_def db_fail_def)
  moreover have "ldb_Get l d2 (blockKeyPrefix @ h) = Inl ErrNotFound"
    using D(2) [OF p(1)] D(1) [OF p(2) ne(4)] D(1) [OF p(3) ne(5)] by simp
  ultimately show ?thesis using h(2) by (simp add: StoreShardBlock_def FetchBlock_def GetKey_def)
qed

theorem shard_block_not_restorable_witness:
  "let d1 = fst (StoreShardBlock mem_leveldb Some (\<lambda>_. Some sample_hash) [1, 2] 3 Map.empty);
       d2 = fst (DeleteBlock mem_leveldb sample_hash 9 3 d1)
   in StoreShardBlock mem_leveldb Some (\<lambda>_. Some sample_hash) [1, 2] 3 d2 = (d2, Inl BlockExisted)"
proof -
  obtain d1 where s: "StoreShardBlock mem_leveldb Some (\<lambda>_. Some sample_hash) [1, 2] 3 Map.empty = (d1, Inr ())"
    by (simp add: StoreShardBlock_def store_block_def dbm_defs mem_leveldb_def Let_def)
  obtain d2 where t: "DeleteBlock mem_leveldb sample_hash 9 3 d1 = (d2, Inr ())"
    by (simp add: DeleteBlock_def dbm_defs mem_leveldb_def)
  from shard_block_not_restorable [OF mem.leveldb_contract_axioms _ _ s t]
  show ?thesis unfolding Let_def s fst_conv t by simp
qed

end
