(* ===== verification/Lvdb_Tx.thy ===== *)
theory Lvdb_Tx
  imports Lvdb
begin

text \<open>
  The transaction tables of the database (\<open>src/database/lvdb/tx.go\<close>): serial numbers of
  spent coins, coin commitments with their indices, output coins and serial number
  derivators, each kept per token and shard. \<open>json.Marshal\<close> and \<open>json.Unmarshal\<close> on lists of
  byte slices are the arguments \<open>jm\<close> and \<open>ju\<close>. The first part models the methods, the second
  shows what a store does to the lookups of its own and of the other tables.
\<close>

section \<open>Tables\<close>

text \<open>Read a stored array: a missing or empty value is the empty array; \<open>e\<close> is the error of a bad one.\<close>

definition fetch_array ::
  "'db leveldb \<Rightarrow> (bytes \<Rightarrow> 'x list option) \<Rightarrow> db_error \<Rightarrow> bytes \<Rightarrow> ('db, 'x list) dbm" where
  "fetch_array l ju e key d =
    (case ldb_Get l d key of
       Inl ErrNotFound \<Rightarrow> (d, Inr [])
     | Inl ErrIO \<Rightarrow> (d, Inl UnexpectedError)
     | Inr res \<Rightarrow>
         if length res > 0
         then (case ju res of None \<Rightarrow> (d, Inl e) | Some xs \<Rightarrow> (d, Inr xs))
         else (d, Inr []))"

definition put_array ::
  "'db leveldb \<Rightarrow> ('x list \<Rightarrow> bytes option) \<Rightarrow> db_error \<Rightarrow> bytes \<Rightarrow> 'x list \<Rightarrow> ('db, unit) dbm" where
  "put_array l jm e key xs =
    (case jm xs of None \<Rightarrow> db_fail e | Some b \<Rightarrow> lvdb_Put l RawError key b)"

text \<open>The bytes of an index; zero is one zero byte.\<close>

definition newIndexBytes :: "nat \<Rightarrow> bytes" where
  "newIndexBytes n = (if n = 0 then [0] else be_write n)"

definition tableKey :: "bytes \<Rightarrow> hash \<Rightarrow> u8 \<Rightarrow> bytes" where
  "tableKey p tokenID shardID = GetKey p tokenID @ [shardID]"

definition db_found :: "'db leveldb \<Rightarrow> bytes \<Rightarrow> ('db, bool) dbm" where
  "db_found l key d = (case db_Get l key d of (d', Inl _) \<Rightarrow> (d', Inr False) | (d', Inr _) \<Rightarrow> (d', Inr True))"

section \<open>Serial numbers\<close>

definition StoreSerialNumbers ::
  "'db leveldb \<Rightarrow> (bytes list \<Rightarrow> bytes option) \<Rightarrow> (bytes \<Rightarrow> bytes list option) \<Rightarrow>
   hash \<Rightarrow> bytes \<Rightarrow> u8 \<Rightarrow> ('db, unit) dbm" where
  "StoreSerialNumbers l jm ju tokenID serialNumber shardID =
    (let key = tableKey serialNumbersPrefix tokenID shardID in
     db_bind (fetch_array l ju UnexpectedError key) (\<lambda>arrayData.
       db_then (lvdb_Put l RawError (key @ serialNumber) (newIndexBytes (length arrayData)))
         (put_array l jm UnexpectedError key (arrayData @ [serialNumber]))))"

definition FetchSerialNumbers ::
  "'db leveldb \<Rightarrow> (bytes \<Rightarrow> bytes list option) \<Rightarrow> hash \<Rightarrow> u8 \<Rightarrow> ('db, bytes list) dbm" where
  "FetchSerialNumbers l ju tokenID shardID =
     fetch_array l ju JsonError (tableKey serialNumbersPrefix tokenID shardID)"

definition HasSerialNumber :: "'db leveldb \<Rightarrow> hash \<Rightarrow> bytes \<Rightarrow> u8 \<Rightarrow> ('db, bool) dbm" where
  "HasSerialNumber l tokenID serialNumber shardID =
     db_found l (tableKey serialNumbersPrefix tokenID shardID @ serialNumber)"

section \<open>Output coins\<close>

definition StoreOutputCoins ::
  "'db leveldb \<Rightarrow> (bytes list \<Rightarrow> bytes option) \<Rightarrow> (bytes \<Rightarrow> bytes list option) \<Rightarrow>
   hash \<Rightarrow> bytes \<Rightarrow> bytes \<Rightarrow> u8 \<Rightarrow> ('db, unit) dbm" where
  "StoreOutputCoins l jm ju tokenID pubkey outputcoin shardID =
    (let key = tableKey outcoinsPrefix tokenID shardID @ pubkey in
     db_bind (fetch_array l ju UnexpectedError key) (\<lambda>arr. put_array l jm JsonError key (arr @ [outputcoin])))"

definition GetOutcoinsByPubkey ::
  "'db leveldb \<Rightarrow> (bytes \<Rightarrow> bytes list option) \<Rightarrow> hash \<Rightarrow> bytes \<Rightarrow> u8 \<Rightarrow> ('db, bytes list) dbm" where
  "GetOutcoinsByPubkey l ju tokenID pubkey shardID =
     fetch_array l ju UnexpectedError (tableKey outcoinsPrefix tokenID shardID @ pubkey)"

section \<open>Commitments\<close>

definition StoreCommitments ::
  "'db leveldb \<Rightarrow> (bytes list \<Rightarrow> bytes option) \<Rightarrow> (bytes \<Rightarrow> bytes list option) \<Rightarrow>
   hash \<Rightarrow> bytes \<Rightarrow> bytes \<Rightarrow> u8 \<Rightarrow> ('db, unit) dbm" where
  "StoreCommitments l jm ju tokenID pubkey commitments shardID =
    (let key = tableKey commitmentsPrefix tokenID shardID in
     db_bind (fetch_array l ju UnexpectedError key) (\<lambda>arrData.
       let newIndex = newIndexBytes (length arrData) in
       db_then (lvdb_Put l RawError (key @ newIndex) commitments)
        (db_then (lvdb_Put l RawError (key @ commitments) newIndex)
          (db_then (lvdb_Put l RawError (key @ str_bytes ''len'') newIndex)
            (db_bind (fetch_array l ju UnexpectedError (key @ pubkey)) (\<lambda>arrDatabyPubkey.
              db_then (put_array l jm JsonError (key @ pubkey) (arrDatabyPubkey @ [newIndex]))
                (put_array l jm UnexpectedError key (arrData @ [commitments]))))))))"

definition FetchCommitments ::
  "'db leveldb \<Rightarrow> (bytes \<Rightarrow> bytes list option) \<Rightarrow> hash \<Rightarrow> u8 \<Rightarrow> ('db, bytes list) dbm" where
  "FetchCommitments l ju tokenID shardID = fetch_array l ju UnexpectedError (tableKey commitmentsPrefix tokenID shardID)"

definition HasCommitment :: "'db leveldb \<Rightarrow> hash \<Rightarrow> bytes \<Rightarrow> u8 \<Rightarrow> ('db, bool) dbm" where
  "HasCommitment l tokenID commitment shardID =
     db_found l (tableKey commitmentsPrefix tokenID shardID @ commitment)"

definition HasCommitmentIndex :: "'db leveldb \<Rightarrow> hash \<Rightarrow> u64 \<Rightarrow> u8 \<Rightarrow> ('db, bool) dbm" where
  "HasCommitmentIndex l tokenID commitmentIndex shardID =
     db_then (db_Get l (tableKey commitmentsPrefix tokenID shardID @ be_write (unat commitmentIndex)))
       (db_return True)"

definition GetCommitmentByIndex :: "'db leveldb \<Rightarrow> hash \<Rightarrow> u64 \<Rightarrow> u8 \<Rightarrow> ('db, bytes) dbm" where
  "GetCommitmentByIndex l tokenID commitmentIndex shardID =
     db_Get l (tableKey commitmentsPrefix tokenID shardID @
       (if commitmentIndex = 0 then [0] else be_write (unat commitmentIndex)))"

definition GetCommitmentIndex :: "'db leveldb \<Rightarrow> hash \<Rightarrow> bytes \<Rightarrow> u8 \<Rightarrow> ('db, nat) dbm" where
  "GetCommitmentIndex l tokenID commitment shardID =
     db_bind (db_Get l (tableKey commitmentsPrefix tokenID shardID @ commitment))
       (\<lambda>data. db_return (be_read 0 data))"

definition GetCommitmentLength :: "'db leveldb \<Rightarrow> hash \<Rightarrow> u8 \<Rightarrow> ('db, nat) dbm" where
  "GetCommitmentLength l tokenID shardID =
     db_bind (db_Get l (tableKey commitmentsPrefix tokenID shardID @ str_bytes ''len''))
       (\<lambda>data. db_return (be_read 0 data + 1))"

definition GetCommitmentIndexsByPubkey ::
  "'db leveldb \<Rightarrow> (bytes \<Rightarrow> bytes list option) \<Rightarrow> hash \<Rightarrow> bytes \<Rightarrow> u8 \<Rightarrow> ('db, bytes list) dbm" where
  "GetCommitmentIndexsByPubkey l ju tokenID pubkey shardID =
     fetch_array l ju UnexpectedError (tableKey commitmentsPrefix tokenID shardID @ pubkey)"

section \<open>Serial number derivators and the fee estimator\<close>

text \<open>The list of derivators is stored as JSON strings, with its own codec \<open>jms\<close>, \<open>jus\<close>.\<close>

definition StoreSNDerivators ::
  "'db leveldb \<Rightarrow> (bytes list \<Rightarrow> bytes option) \<Rightarrow> (bytes \<Rightarrow> bytes list option) \<Rightarrow>
   hash \<Rightarrow> nat \<Rightarrow> u8 \<Rightarrow> ('db, unit) dbm" where
  "StoreSNDerivators l jms jus tokenID data shardID d =
    (let key = tableKey snderivatorsPrefix tokenID shardID;
         snderivatorData = be_write data
     in case ldb_Get l d key of
          Inl ErrIO \<Rightarrow> (d, Inl UnexpectedError)
        | res \<Rightarrow>
            db_then (lvdb_Put l RawError (key @ snderivatorData) snderivatorData)
              (db_bind
                (\<lambda>d. case res of
                   Inl _ \<Rightarrow> (d, Inr [])
                 | Inr r \<Rightarrow>
                     if length r > 0
                     then (case jus r of None \<Rightarrow> (d, Inl UnexpectedError) | Some xs \<Rightarrow> (d, Inr xs))
                     else (d, Inr []))
                (\<lambda>arrData. put_array l jms UnexpectedError key (arrData @ [snderivatorData]))) d)"

definition FetchSNDerivator ::
  "'db leveldb \<Rightarrow> (bytes \<Rightarrow> bytes list option) \<Rightarrow> hash \<Rightarrow> u8 \<Rightarrow> ('db, nat list) dbm" where
  "FetchSNDerivator l jus tokenID shardID =
     db_bind (fetch_array l jus JsonError (tableKey snderivatorsPrefix tokenID shardID))
       (\<lambda>arrData. db_return (map (be_read 0) arrData))"

definition HasSNDerivator :: "'db leveldb \<Rightarrow> hash \<Rightarrow> nat \<Rightarrow> u8 \<Rightarrow> ('db, bool) dbm" where
  "HasSNDerivator l tokenID data shardID =
     db_found l (tableKey snderivatorsPrefix tokenID shardID @ be_write data)"

definition feeEstimator :: bytes where "feeEstimator = str_bytes ''feeEstimator''"

definition StoreFeeEstimator :: "'db leveldb \<Rightarrow> bytes \<Rightarrow> u8 \<Rightarrow> ('db, unit) dbm" where
  "StoreFeeEstimator l val shardID = db_Put l (feeEstimator @ [shardID]) val"

definition GetFeeEstimator :: "'db leveldb \<Rightarrow> u8 \<Rightarrow> ('db, bytes) dbm" where
  "GetFeeEstimator l shardID = lvdb_Get l unexp (feeEstimator @ [shardID])"


section \<open>Keys of the tables\<close>

lemma of_char_u8_inj: "(of_char c :: u8) = of_char c' \<longleftrightarrow> c = c'"
proof
  assume a: "(of_char c :: u8) = of_char c'"
  have "unat (of_char x :: u8) = of_char x" for x
  proof -
    have "unat (word_of_nat (of_char x) :: u8) = take_bit 8 (of_char x)" by (simp add: unsigned_of_nat)
    also have "\<dots> = of_char x" by (rule take_bit_nat_eq_self) (use nat_of_char_less_256 [of x] in simp)
    finally show ?thesis by (simp add: of_nat_of_char)
  qed
  with a show "c = c'" by (metis of_char_eq_iff)
qed simp

lemma str_bytes_inj: "str_bytes a = str_bytes b \<longleftrightarrow> a = b"
  unfolding str_bytes_def by (metis inj_onI inj_on_map_eq_map of_char_u8_inj)

lemma str_bytes_length [simp]: "length (str_bytes a) = length a"
  by (simp add: str_bytes_def)


lemma Hash_String_length: "length t = HashSize \<Longrightarrow> length (Hash_String t) = 64"
  using hash_swap_rev [of t] by (simp add: Hash_String_def HashSize_def)

lemma Hash_String_inj:
  "length t = HashSize \<Longrightarrow> length t' = HashSize \<Longrightarrow> Hash_String t = Hash_String t' \<longleftrightarrow> t = t'"
  by (metis NewHashFromStr_String sum.inject(2))

lemmas table_prefixes =
  serialNumbersPrefix_def commitmentsPrefix_def outcoinsPrefix_def snderivatorsPrefix_def

lemma tableKey_eq:
  assumes "p \<in> {serialNumbersPrefix, commitmentsPrefix, outcoinsPrefix, snderivatorsPrefix}"
  shows "tableKey p t s = p @ str_bytes (Hash_String t) @ [s]"
proof -
  have "p \<noteq> blockKeyPrefix" "p \<noteq> blockKeyIdxPrefix"
    using assms unfolding table_prefixes blockKeyPrefix_def blockKeyIdxPrefix_def
    by (auto simp: str_bytes_inj)
  then show ?thesis using assms by (auto simp: tableKey_def GetKey_def)
qed

text \<open>Within a table, the key of an entry determines token, shard and entry.\<close>

lemma tableKey_inj:
  assumes "p \<in> {serialNumbersPrefix, commitmentsPrefix, outcoinsPrefix, snderivatorsPrefix}"
    and "length t = HashSize" "length t' = HashSize"
  shows "tableKey p t s @ x = tableKey p t' s' @ x' \<longleftrightarrow> t = t' \<and> s = s' \<and> x = x'"
  using Hash_String_length [OF assms(2)] Hash_String_length [OF assms(3)]
    Hash_String_inj [OF assms(2,3)]
  by (auto simp: tableKey_eq [OF assms(1)] str_bytes_inj)

section \<open>Reading after writing\<close>

lemma db_found_eq: "db_found l k d = (d, Inr (\<exists>v. ldb_Get l d k = Inr v))"
  by (auto simp: db_found_def db_Get_def lvdb_Get_def split: sum.splits)

lemma db_Get_found: "ldb_Get l d k = Inr v \<Longrightarrow> db_Get l k d = (d, Inr v)"
  by (simp add: db_Get_def lvdb_Get_def)

lemma fetch_array_state: "fetch_array l ju e k d = (d', r) \<Longrightarrow> d' = d"
  by (auto simp: fetch_array_def split: sum.splits ldb_error.splits option.splits if_splits)

lemma put_array_ok:
  "put_array l jm e k xs d = (d', Inr u) \<longleftrightarrow> (\<exists>b. jm xs = Some b \<and> ldb_Put l d k b = Inr d')"
  by (auto simp: put_array_def db_fail_def lvdb_Put_ok split: option.splits)

text \<open>The JSON codec, as far as the tables rely on it.\<close>

definition json_laws :: "(bytes list \<Rightarrow> bytes option) \<Rightarrow> (bytes \<Rightarrow> bytes list option) \<Rightarrow> bool" where
  "json_laws jm ju \<longleftrightarrow> (\<forall>xs b. jm xs = Some b \<longrightarrow> b \<noteq> [] \<and> ju b = Some xs)"

lemma fetch_array_stored:
  assumes "json_laws jm ju" "jm xs = Some b" "ldb_Get l d k = Inr b"
  shows "fetch_array l ju e k d = (d, Inr xs)"
  using assms by (auto simp: fetch_array_def json_laws_def)

text \<open>
  Double spending is detected: once \<open>StoreSerialNumbers\<close> has stored the serial number of
  a spent coin, \<open>HasSerialNumber\<close> finds it and the list of the shard has it at the end; the
  answer for every other serial number, token and shard is what it was before.
\<close>

theorem serial_number_recorded:
  assumes c: "leveldb_contract l" and j: "json_laws jm ju"
    and t: "length t = HashSize" "sn \<noteq> []"
    and old: "FetchSerialNumbers l ju t s d = (d, Inr arr)"
    and st: "StoreSerialNumbers l jm ju t sn s d = (d', Inr u)"
  shows "HasSerialNumber l t sn s d' = (d', Inr True) \<and>
    FetchSerialNumbers l ju t s d' = (d', Inr (arr @ [sn])) \<and>
    (\<forall>t' sn' s'. length t' = HashSize \<longrightarrow> sn' \<noteq> [] \<longrightarrow> (t', sn', s') \<noteq> (t, sn, s) \<longrightarrow>
       snd (HasSerialNumber l t' sn' s' d') = snd (HasSerialNumber l t' sn' s' d))"
proof -
  let ?key = "\<lambda>t s. tableKey serialNumbersPrefix t s"
  have inj: "?key t s @ x = ?key t' s' @ x' \<longleftrightarrow> t = t' \<and> s = s' \<and> x = x'"
    if "length t' = HashSize" for t' s' x x'
    using tableKey_inj [of serialNumbersPrefix t t' s x s' x'] t(1) that by simp
  obtain arr' d1 b where p: "fetch_array l ju UnexpectedError (?key t s) d = (d, Inr arr')"
    "ldb_Put l d (?key t s @ sn) (newIndexBytes (length arr')) = Inr d1"
    "jm (arr' @ [sn]) = Some b" "ldb_Put l d1 (?key t s) b = Inr d'"
    using st unfolding StoreSerialNumbers_def Let_def db_bind_ok db_then_ok lvdb_Put_ok put_array_ok
    by (metis fetch_array_state)
  have "arr' = arr"
    using p(1) old unfolding FetchSerialNumbers_def fetch_array_def
    by (auto split: sum.splits ldb_error.splits option.splits if_splits)
  note L = leveldb_contract.put_get [OF c] leveldb_contract.put_frame [OF c]
  have key: "ldb_Get l d' (?key t s) = Inr b" by (rule L(1) [OF p(4)])
  have fr: "ldb_Get l d' k = (if k = ?key t s @ sn then Inr (newIndexBytes (length arr')) else ldb_Get l d k)"
    if "k \<noteq> ?key t s" for k
    using L(1) [OF p(2)] L(2) [OF p(2)] L(2) [OF p(4) that] by simp
  have "HasSerialNumber l t sn s d' = (d', Inr True)"
    using fr [of "?key t s @ sn"] t(2) by (simp add: HasSerialNumber_def db_found_eq)
  moreover have "FetchSerialNumbers l ju t s d' = (d', Inr (arr @ [sn]))"
    using fetch_array_stored [OF j p(3) key] \<open>arr' = arr\<close> by (simp add: FetchSerialNumbers_def)
  moreover have "snd (HasSerialNumber l t' sn' s' d') = snd (HasSerialNumber l t' sn' s' d)"
    if a: "length t' = HashSize" "sn' \<noteq> []" "(t', sn', s') \<noteq> (t, sn, s)" for t' sn' s'
  proof -
    have "?key t' s' @ sn' \<noteq> ?key t s" "?key t' s' @ sn' \<noteq> ?key t s @ sn"
      using inj [OF a(1), of "[]" s' sn'] inj [OF a(1), of sn s' sn'] a by auto
    then show ?thesis using fr by (simp add: HasSerialNumber_def db_found_eq)
  qed
  ultimately show ?thesis by blast
qed

text \<open>A codec for two arrays, enough for the examples.\<close>

definition sample_jm :: "bytes list \<Rightarrow> bytes option" where
  "sample_jm xs = (if xs = [] then Some [1] else if xs = [[5]] then Some [2] else if xs = [[0]] then Some [3] else None)"

definition sample_ju :: "bytes \<Rightarrow> bytes list option" where
  "sample_ju b = (if b = [1] then Some [] else if b = [2] then Some [[5]] else if b = [3] then Some [[0]] else None)"

lemma sample_json_laws: "json_laws sample_jm sample_ju"
  by (simp add: json_laws_def sample_jm_def sample_ju_def)

theorem serial_number_recorded_witness:
  "let d' = fst (StoreSerialNumbers mem_leveldb sample_jm sample_ju sample_hash [5] 2 Map.empty)
   in HasSerialNumber mem_leveldb sample_hash [5] 2 d' = (d', Inr True) \<and>
      snd (HasSerialNumber mem_leveldb sample_hash [6] 2 d') = Inr False"
proof -
  have f: "FetchSerialNumbers mem_leveldb sample_ju sample_hash 2 Map.empty = (Map.empty, Inr [])"
    by (simp add: FetchSerialNumbers_def fetch_array_def mem_leveldb_def)
  obtain d' where s: "StoreSerialNumbers mem_leveldb sample_jm sample_ju sample_hash [5] 2 Map.empty = (d', Inr ())"
    by (simp add: StoreSerialNumbers_def fetch_array_def put_array_def sample_jm_def mem_leveldb_def dbm_defs Let_def)
  have "snd (HasSerialNumber mem_leveldb sample_hash [6] 2 Map.empty) = Inr False"
    by (simp add: HasSerialNumber_def db_found_eq mem_leveldb_def)
  then show ?thesis
    using serial_number_recorded [OF mem.leveldb_contract_axioms sample_json_laws _ _ f s]
    by (simp add: s Let_def)
qed

section \<open>Commitments\<close>

lemma be_write_length: "n < 256 ^ k \<Longrightarrow> length (be_write n) \<le> k"
proof (induction k arbitrary: n)
  case (Suc k)
  then have "n div 256 < 256 ^ k" by (simp add: less_mult_imp_div_less mult.commute)
  from Suc.IH [OF this] show ?case by (subst be_write.simps) simp
qed (simp add: be_write.simps)

lemma be_read_newIndex [simp]: "be_read 0 (newIndexBytes n) = n"
  by (simp add: newIndexBytes_def)

lemma newIndexBytes_inj: "newIndexBytes m = newIndexBytes n \<longleftrightarrow> m = n"
  by (metis be_read_newIndex)

lemma newIndexBytes_nonempty [simp]: "newIndexBytes n \<noteq> []"
  by (auto simp: newIndexBytes_def be_write.simps [of n])

lemma newIndexBytes_short: "n < 2 ^ 64 \<Longrightarrow> length (newIndexBytes n) \<le> 8"
  using be_write_length [of n 8] by (simp add: newIndexBytes_def)

text \<open>The index whose bytes spell \<open>len\<close>.\<close>

lemma len_key_bytes: "str_bytes ''len'' = [108, 101, 110]"
  by (simp add: str_bytes_def)

lemma newIndexBytes_len: "newIndexBytes n = str_bytes ''len'' \<longleftrightarrow> n = 7103854"
proof
  assume "newIndexBytes n = str_bytes ''len''"
  then have "n = be_read 0 (str_bytes ''len'')" by (metis be_read_newIndex)
  then show "n = 7103854" by (simp add: len_key_bytes)
next
  assume "n = 7103854"
  then show "newIndexBytes n = str_bytes ''len''"
    by (simp add: newIndexBytes_def len_key_bytes be_write.simps)
qed

text \<open>The writes of \<open>StoreCommitments\<close>, in order.\<close>

lemma fetch_array_ok:
  "fetch_array l ju e k d = (d', Inr xs) \<longleftrightarrow> d' = d \<and> snd (fetch_array l ju e k d) = Inr xs"
  using fetch_array_state [of l ju e k d] by (cases "fetch_array l ju e k d") auto

lemma StoreCommitments_ok:
  assumes "StoreCommitments l jm ju t pk cm s d = (d', Inr u)"
  defines "key \<equiv> tableKey commitmentsPrefix t s"
  obtains arr arr2 d1 d2 d3 d4 b1 b2 where
    "snd (fetch_array l ju UnexpectedError key d) = Inr arr"
    "ldb_Put l d (key @ newIndexBytes (length arr)) cm = Inr d1"
    "ldb_Put l d1 (key @ cm) (newIndexBytes (length arr)) = Inr d2"
    "ldb_Put l d2 (key @ str_bytes ''len'') (newIndexBytes (length arr)) = Inr d3"
    "snd (fetch_array l ju UnexpectedError (key @ pk) d3) = Inr arr2"
    "jm (arr2 @ [newIndexBytes (length arr)]) = Some b1" "ldb_Put l d3 (key @ pk) b1 = Inr d4"
    "jm (arr @ [cm]) = Some b2" "ldb_Put l d4 key b2 = Inr d'"
  using assms(1) that
  by (auto simp: StoreCommitments_def Let_def key_def [symmetric] db_bind_ok db_then_ok lvdb_Put_ok
      put_array_ok fetch_array_ok)

text \<open>
  Commitments and their indices agree: after \<open>StoreCommitments\<close> adds a commitment to a
  list of \<open>n\<close>, the length reads \<open>n + 1\<close>, the commitment is found with index \<open>n\<close>, index \<open>n\<close>
  leads back to the commitment, and the list ends with it. Commitments and public keys
  are 33 bytes and differ, and \<open>n\<close> is not the one index excluded by the next property.
\<close>

theorem commitment_recorded:
  assumes c: "leveldb_contract l" and j: "json_laws jm ju"
    and len: "length pk = 33" "length cm = 33" "pk \<noteq> cm"
    and old: "FetchCommitments l ju t s d = (d, Inr arr)"
    and n: "length arr < 2 ^ 64" "length arr \<noteq> 7103854"
    and st: "StoreCommitments l jm ju t pk cm s d = (d', Inr u)"
  shows "GetCommitmentLength l t s d' = (d', Inr (length arr + 1)) \<and>
    HasCommitment l t cm s d' = (d', Inr True) \<and>
    GetCommitmentIndex l t cm s d' = (d', Inr (length arr)) \<and>
    GetCommitmentByIndex l t (word_of_nat (length arr)) s d' = (d', Inr cm) \<and>
    FetchCommitments l ju t s d' = (d', Inr (arr @ [cm]))"
proof -
  let ?key = "tableKey commitmentsPrefix t s"
  obtain arr' arr2 d1 d2 d3 d4 b1 b2 where p:
    "snd (fetch_array l ju UnexpectedError ?key d) = Inr arr'"
    "ldb_Put l d (?key @ newIndexBytes (length arr')) cm = Inr d1"
    "ldb_Put l d1 (?key @ cm) (newIndexBytes (length arr')) = Inr d2"
    "ldb_Put l d2 (?key @ str_bytes ''len'') (newIndexBytes (length arr')) = Inr d3"
    "ldb_Put l d3 (?key @ pk) b1 = Inr d4" "jm (arr' @ [cm]) = Some b2" "ldb_Put l d4 ?key b2 = Inr d'"
    using st by (elim StoreCommitments_ok)
  have arr: "arr' = arr" using p(1) old by (simp add: FetchCommitments_def)
  note G = leveldb_contract.put_get [OF c] note F = leveldb_contract.put_frame [OF c]
  let ?i = "newIndexBytes (length arr)"
  have i: "length ?i \<le> 8" "?i \<noteq> str_bytes ''len''"
    using newIndexBytes_short [OF n(1)] newIndexBytes_len n(2) by auto
  have ne: "?key @ ?i \<noteq> ?key @ cm" "?key @ ?i \<noteq> ?key @ str_bytes ''len''" "?key @ ?i \<noteq> ?key @ pk" "?key @ ?i \<noteq> ?key"
    "?key @ cm \<noteq> ?key @ str_bytes ''len''" "?key @ cm \<noteq> ?key @ pk" "?key @ cm \<noteq> ?key"
    "?key @ str_bytes ''len'' \<noteq> ?key @ pk" "?key @ str_bytes ''len'' \<noteq> ?key"
    using i len by (auto simp: len_key_bytes)
  note q = p(2-5,7) [unfolded arr]
  have gi: "ldb_Get l d' (?key @ ?i) = Inr cm"
    using G [OF q(1)] F [OF q(2) ne(1)] F [OF q(3) ne(2)] F [OF q(4) ne(3)] F [OF q(5) ne(4)] by simp
  have gc: "ldb_Get l d' (?key @ cm) = Inr ?i"
    using G [OF q(2)] F [OF q(3) ne(5)] F [OF q(4) ne(6)] F [OF q(5) ne(7)] by simp
  have gl: "ldb_Get l d' (?key @ str_bytes ''len'') = Inr ?i"
    using G [OF q(3)] F [OF q(4) ne(8)] F [OF q(5) ne(9)] by simp
  have "unat (word_of_nat (length arr) :: u64) = length arr"
    using n(1) by (simp add: unsigned_of_nat take_bit_nat_eq_self)
  then have w: "(if (word_of_nat (length arr) :: u64) = 0 then [0] else be_write (unat (word_of_nat (length arr) :: u64))) = ?i"
    by (auto simp: newIndexBytes_def)
  show ?thesis
    using db_Get_found [OF gl] db_Get_found [OF gc] db_Get_found [OF gi] gc
      fetch_array_stored [OF j p(6) G [OF p(7)]]
    unfolding GetCommitmentLength_def HasCommitment_def GetCommitmentIndex_def GetCommitmentByIndex_def
      FetchCommitments_def w arr
    by (simp add: db_bind_def db_return_def db_found_eq)
qed

definition sample_cm :: bytes where
  "sample_cm = replicate 33 4"

definition sample_pk :: bytes where
  "sample_pk = replicate 33 9"

definition sample_cm_jm :: "bytes list \<Rightarrow> bytes option" where
  "sample_cm_jm xs = (if xs = [[0]] then Some [1] else if xs = [sample_cm] then Some [2] else None)"

definition sample_cm_ju :: "bytes \<Rightarrow> bytes list option" where
  "sample_cm_ju b = (if b = [1] then Some [[0]] else if b = [2] then Some [sample_cm] else None)"

lemma sample_cm_json_laws: "json_laws sample_cm_jm sample_cm_ju"
  by (simp add: json_laws_def sample_cm_jm_def sample_cm_ju_def)

lemma sample_cm_neq: "sample_cm \<noteq> sample_pk" "sample_pk \<noteq> sample_cm" "sample_cm \<noteq> [0]"
    "sample_pk \<noteq> [0]" "sample_pk \<noteq> str_bytes ''len''"
  by (auto simp: sample_cm_def sample_pk_def len_key_bytes dest!: arg_cong [of _ _ length])

theorem commitment_recorded_witness:
  "let d' = fst (StoreCommitments mem_leveldb sample_cm_jm sample_cm_ju sample_hash sample_pk sample_cm 1 Map.empty)
   in GetCommitmentLength mem_leveldb sample_hash 1 d' = (d', Inr 1) \<and>
      GetCommitmentByIndex mem_leveldb sample_hash 0 1 d' = (d', Inr sample_cm)"
proof -
  have f: "FetchCommitments mem_leveldb sample_cm_ju sample_hash 1 Map.empty = (Map.empty, Inr [])"
    by (simp add: FetchCommitments_def fetch_array_def mem_leveldb_def)
  have "fetch_array mem_leveldb sample_cm_ju UnexpectedError (tableKey commitmentsPrefix sample_hash 1 @ sample_pk)
      [tableKey commitmentsPrefix sample_hash 1 @ [0] \<mapsto> sample_cm,
       tableKey commitmentsPrefix sample_hash 1 @ sample_cm \<mapsto> [0],
       tableKey commitmentsPrefix sample_hash 1 @ str_bytes ''len'' \<mapsto> [0]] =
     ([tableKey commitmentsPrefix sample_hash 1 @ [0] \<mapsto> sample_cm,
       tableKey commitmentsPrefix sample_hash 1 @ sample_cm \<mapsto> [0],
       tableKey commitmentsPrefix sample_hash 1 @ str_bytes ''len'' \<mapsto> [0]], Inr [])"
    using sample_cm_neq by (simp add: fetch_array_def mem_leveldb_def)
  then obtain d' where s: "StoreCommitments mem_leveldb sample_cm_jm sample_cm_ju sample_hash sample_pk sample_cm 1 Map.empty = (d', Inr ())"
    using f sample_cm_neq
    by (simp add: StoreCommitments_def FetchCommitments_def put_array_def sample_cm_jm_def
        newIndexBytes_def db_bind_def db_then_def lvdb_Put_def Let_def mem_leveldb_def)
  have l: "length sample_pk = 33" "length sample_cm = 33" by (simp_all add: sample_pk_def sample_cm_def)
  show ?thesis
    using commitment_recorded [OF mem.leveldb_contract_axioms sample_cm_json_laws l sample_cm_neq(2) f _ _ s]
    by (simp add: s Let_def)
qed

text \<open>
  The length of the list is stored under the key of one index: the bytes of 7103854
  spell \<open>len\<close>. When the list has that many commitments, storing the next one overwrites it
  with the length, and \<open>GetCommitmentByIndex\<close> returns the bytes of the index instead of the
  commitment.
\<close>

theorem commitment_len_collision:
  assumes c: "leveldb_contract l" and pk: "length pk = 33"
    and old: "FetchCommitments l ju t s d = (d, Inr arr)" and n: "length arr = 7103854"
    and st: "StoreCommitments l jm ju t pk cm s d = (d', Inr u)"
  shows "GetCommitmentByIndex l t 7103854 s d' = (d', Inr (newIndexBytes 7103854))"
proof -
  let ?key = "tableKey commitmentsPrefix t s"
  obtain arr' d2 d3 d4 b1 b2 where p: "snd (fetch_array l ju UnexpectedError ?key d) = Inr arr'"
    "ldb_Put l d2 (?key @ str_bytes ''len'') (newIndexBytes (length arr')) = Inr d3"
    "ldb_Put l d3 (?key @ pk) b1 = Inr d4" "ldb_Put l d4 ?key b2 = Inr d'"
    using st by (elim StoreCommitments_ok)
  have arr: "arr' = arr" using p(1) old by (simp add: FetchCommitments_def)
  have ne: "?key @ str_bytes ''len'' \<noteq> ?key @ pk" "?key @ str_bytes ''len'' \<noteq> ?key"
    using pk by (auto simp: len_key_bytes)
  have "ldb_Get l d' (?key @ str_bytes ''len'') = Inr (newIndexBytes 7103854)"
    using leveldb_contract.put_get [OF c p(2)] leveldb_contract.put_frame [OF c p(3) ne(1)]
      leveldb_contract.put_frame [OF c p(4) ne(2)] arr n by simp
  moreover have "be_write 7103854 = str_bytes ''len''"
    using newIndexBytes_len [of 7103854] by (simp add: newIndexBytes_def)
  ultimately show ?thesis by (simp add: GetCommitmentByIndex_def db_Get_found)
qed


theorem commitment_len_collision_witness:
  "let ju = (\<lambda>_. Some (replicate 7103854 []));
       d = [tableKey commitmentsPrefix sample_hash 1 \<mapsto> [1]];
       d' = fst (StoreCommitments mem_leveldb (\<lambda>_. Some [1]) ju sample_hash sample_pk sample_cm 1 d)
   in GetCommitmentByIndex mem_leveldb sample_hash 7103854 1 d' = (d', Inr [108, 101, 110])"
proof -
  let ?ju = "\<lambda>_::bytes. Some (replicate 7103854 ([]::bytes))"
  let ?d = "[tableKey commitmentsPrefix sample_hash 1 \<mapsto> [1]]"
  have f: "FetchCommitments mem_leveldb ?ju sample_hash 1 ?d = (?d, Inr (replicate 7103854 []))"
    by (simp add: FetchCommitments_def fetch_array_def mem_leveldb_def)
  have "\<exists>d'. StoreCommitments mem_leveldb (\<lambda>_. Some [1]) ?ju sample_hash sample_pk sample_cm 1 ?d = (d', Inr ())"
    by (simp add: StoreCommitments_def put_array_def db_bind_def db_then_def lvdb_Put_def fetch_array_def
        mem_leveldb_def Let_def split: option.split)
  then obtain d' where s: "StoreCommitments mem_leveldb (\<lambda>_. Some [1]) ?ju sample_hash sample_pk sample_cm 1 ?d = (d', Inr ())"
    by blast
  have "length sample_pk = 33" by (simp add: sample_pk_def)
  from commitment_len_collision [OF mem.leveldb_contract_axioms this f _ s]
  show ?thesis using newIndexBytes_len [of 7103854] s unfolding Let_def len_key_bytes by simp
qed

end
