(* ===== verification/Base58.thy ===== *)
theory Base58
  imports Byte_Codec
begin

text \<open>
  The base58 and base58check codecs (\<open>src/common/base58\<close>): the alphabet and its inverse
  table, \<open>Encode\<close> and \<open>Decode\<close> over arbitrary precision integers, and the check encoding
  with a version byte and a checksum. The round trips are proved for every input and any
  function in place of SHA-256.
\<close>

section \<open>The alphabet (alphabet.go)\<close>

definition alphabet :: string where
  "alphabet = ''123456789ABCDEFGHJKLMNPQRSTUVWXYZabcdefghijkmnopqrstuvwxyz''"

definition alphabetIdx0 :: char where
  "alphabetIdx0 = CHR ''1''"

definition b58 :: "nat list" where
  "b58 = [
     255, 255, 255, 255, 255, 255, 255, 255, 255, 255, 255, 255, 255, 255, 255, 255,
     255, 255, 255, 255, 255, 255, 255, 255, 255, 255, 255, 255, 255, 255, 255, 255,
     255, 255, 255, 255, 255, 255, 255, 255, 255, 255, 255, 255, 255, 255, 255, 255,
     255, 0, 1, 2, 3, 4, 5, 6, 7, 8, 255, 255, 255, 255, 255, 255,
     255, 9, 10, 11, 12, 13, 14, 15, 16, 255, 17, 18, 19, 20, 21, 255,
     22, 23, 24, 25, 26, 27, 28, 29, 30, 31, 32, 255, 255, 255, 255, 255,
     255, 33, 34, 35, 36, 37, 38, 39, 40, 41, 42, 43, 255, 44, 45, 46,
     47, 48, 49, 50, 51, 52, 53, 54, 55, 56, 57, 255, 255, 255, 255, 255,
     255, 255, 255, 255, 255, 255, 255, 255, 255, 255, 255, 255, 255, 255, 255, 255,
     255, 255, 255, 255, 255, 255, 255, 255, 255, 255, 255, 255, 255, 255, 255, 255,
     255, 255, 255, 255, 255, 255, 255, 255, 255, 255, 255, 255, 255, 255, 255, 255,
     255, 255, 255, 255, 255, 255, 255, 255, 255, 255, 255, 255, 255, 255, 255, 255,
     255, 255, 255, 255, 255, 255, 255, 255, 255, 255, 255, 255, 255, 255, 255, 255,
     255, 255, 255, 255, 255, 255, 255, 255, 255, 255, 255, 255, 255, 255, 255, 255,
     255, 255, 255, 255, 255, 255, 255, 255, 255, 255, 255, 255, 255, 255, 255, 255,
     255, 255, 255, 255, 255, 255, 255, 255, 255, 255, 255, 255, 255, 255, 255, 255]"

section \<open>Encode and Decode (base58.go)\<close>

text \<open>The first loop of \<open>Decode\<close>, from the last character; \<open>None\<close> is its early return.\<close>

fun b58_value :: "string \<Rightarrow> nat \<Rightarrow> nat \<Rightarrow> nat option" where
  "b58_value [] answer j = Some answer"
| "b58_value (c # cs) answer j =
    (let tmp = b58 ! of_char c in
     if tmp = 255 then None else b58_value cs (answer + j * tmp) (j * 58))"

definition Base58_Decode :: "string \<Rightarrow> bytes" where
  "Base58_Decode b =
    (case b58_value (rev b) 0 1 of
       None \<Rightarrow> []
     | Some answer \<Rightarrow>
         (let tmpval = be_write answer;
              numZeros = length (takeWhile (\<lambda>c. c = alphabetIdx0) b)
          in replicate numZeros 0 @ tmpval))"

fun b58_digits :: "nat \<Rightarrow> string" where
  "b58_digits x = (if x > 0 then alphabet ! (x mod 58) # b58_digits (x div 58) else [])"

declare b58_digits.simps [simp del]

definition Base58_Encode :: "bytes \<Rightarrow> string" where
  "Base58_Encode b =
     rev (b58_digits (be_read 0 b) @ map (\<lambda>_. alphabetIdx0) (takeWhile (\<lambda>i. i = 0) b))"

section \<open>Base58Check (base58check.go)\<close>

datatype base58_error = ErrChecksum | ErrInvalidFormat

definition DoubleHashB :: "(bytes \<Rightarrow> bytes) \<Rightarrow> bytes \<Rightarrow> bytes" where
  "DoubleHashB sha256 b = sha256 (sha256 b)"

definition ChecksumFirst4Bytes :: "(bytes \<Rightarrow> bytes) \<Rightarrow> bytes \<Rightarrow> bytes" where
  "ChecksumFirst4Bytes sha256 input = take 4 (DoubleHashB sha256 input)"

definition Base58Check_Encode :: "(bytes \<Rightarrow> bytes) \<Rightarrow> bytes \<Rightarrow> u8 \<Rightarrow> string" where
  "Base58Check_Encode sha256 input version =
    (let b = version # input;
         cksum = ChecksumFirst4Bytes sha256 b
     in Base58_Encode (b @ cksum))"

definition Base58Check_Decode :: "(bytes \<Rightarrow> bytes) \<Rightarrow> string \<Rightarrow> base58_error + bytes \<times> u8" where
  "Base58Check_Decode sha256 input =
    (let decoded = Base58_Decode input in
     if length decoded < 5 then Inl ErrInvalidFormat
     else
       (let version = decoded ! 0;
            cksum = drop (length decoded - 4) decoded
        in if ChecksumFirst4Bytes sha256 (take (length decoded - 4) decoded) \<noteq> cksum then Inl ErrChecksum
           else Inr (drop 1 (take (length decoded - 4) decoded), version)))"

section \<open>Round trips\<close>

lemma alphabet_inverse: "n < 58 \<Longrightarrow> b58 ! of_char (alphabet ! n) = n"
proof -
  have "list_all (\<lambda>n. b58 ! of_char (alphabet ! n) = n) [0..<58]"
    by code_simp
  then show "n < 58 \<Longrightarrow> b58 ! of_char (alphabet ! n) = n" by (simp add: list_all_iff)
qed

lemma alphabet_zero: "alphabet ! 0 = alphabetIdx0" "b58 ! of_char alphabetIdx0 = 0"
  by (simp add: alphabet_def alphabetIdx0_def) code_simp

lemma b58_value_digits: "b58_value (b58_digits x @ cs) answer j =
   b58_value cs (answer + j * x) (j * 58 ^ length (b58_digits x))"
proof (induction x arbitrary: answer j rule: b58_digits.induct)
  case (1 x)
  show ?case
  proof (cases "x > 0")
    case True
    have x: "x mod 58 + 58 * (x div 58) = x" by simp
    have "answer + j * (x mod 58) + j * 58 * (x div 58) = answer + j * x"
      by (metis x add.assoc distrib_left mult.assoc)
    moreover have "b58_digits x = alphabet ! (x mod 58) # b58_digits (x div 58)"
      using True by (subst b58_digits.simps) simp
    moreover have "b58 ! of_char (alphabet ! (x mod 58)) = x mod 58" by (simp add: alphabet_inverse)
    moreover have "x mod 58 \<noteq> 255" using mod_less_divisor [of 58 x] by linarith
    ultimately show ?thesis using "1.IH" [OF True] by (simp add: add.assoc mult.assoc)
  qed (simp add: b58_digits.simps [of 0])
qed

lemma b58_value_zeros: "b58_value (replicate n alphabetIdx0 @ cs) answer j = b58_value cs answer (j * 58 ^ n)"
  by (induction n arbitrary: j) (simp_all add: alphabet_zero mult.assoc)

lemma b58_digits_last: "b58_digits x \<noteq> [] \<Longrightarrow> last (b58_digits x) \<noteq> alphabetIdx0"
proof (induction x rule: b58_digits.induct)
  case (1 x)
  show ?case
  proof (cases "b58_digits (x div 58) = []")
    case True
    then have "x div 58 = 0" by (metis b58_digits.simps list.distinct(1) not_gr_zero)
    then have x: "x mod 58 = x" "x < 58" by (simp_all add: div_eq_0_iff)
    with "1.prems" have x0: "x > 0" by (metis b58_digits.simps)
    have "b58 ! of_char (alphabet ! x) \<noteq> b58 ! of_char alphabetIdx0"
      using alphabet_inverse [OF x(2)] x0 by (simp add: alphabet_zero)
    then have "alphabet ! x \<noteq> alphabetIdx0" by metis
    then show ?thesis using True x x0 by (subst b58_digits.simps) simp
  next
    case False
    then have "x > 0" by (metis b58_digits.simps div_0 not_gr_zero)
    then show ?thesis using 1 False by (subst b58_digits.simps) simp
  qed
qed

lemma be_write_read_strip: "(bs \<noteq> [] \<Longrightarrow> hd bs \<noteq> 0) \<Longrightarrow> be_write (be_read 0 bs) = bs"
proof (induction bs rule: rev_induct)
  case (snoc x bs)
  let ?n = "be_read 0 (bs @ [x])"
  have n: "?n = be_read 0 bs * 256 + unat x" using be_read_append [of bs "[x]"] by simp
  have x: "unat x < 256" using unsigned_less [of x, where ?'a = nat] by simp
  have IH: "be_write (be_read 0 bs) = bs" using snoc.IH snoc.prems by (cases bs) auto
  have "?n \<noteq> 0"
  proof (cases "bs = []")
    case True
    with snoc.prems have "x \<noteq> 0" by simp
    then show ?thesis using n True by (simp add: unsigned_eq_0_iff)
  next
    case False
    then have "be_read 0 bs \<noteq> 0" using IH by (metis be_write.simps)
    then show ?thesis using n by simp
  qed
  then have "be_write ?n = be_write (?n div 256) @ [word_of_nat (?n mod 256)]"
    by (subst be_write.simps) simp
  moreover have "?n div 256 = be_read 0 bs" "?n mod 256 = unat x" using n x by simp_all
  ultimately show ?case using IH by simp
qed (simp add: be_write.simps)

lemma leading_zeros:
  "b = replicate (length (takeWhile (\<lambda>i. i = 0) b)) 0 @ be_write (be_read 0 b)"
proof -
  let ?z = "takeWhile (\<lambda>i. i = 0) b" and ?r = "dropWhile (\<lambda>i. i = 0) b"
  have z: "?z = replicate (length ?z) 0"
    by (induction b) auto
  have b: "b = replicate (length ?z) 0 @ ?r"
    using arg_cong [OF z, of "\<lambda>z. z @ ?r"] by simp
  have v: "be_read 0 b = be_read 0 ?r"
    using arg_cong [OF b, of "be_read 0"] by simp
  have "hd ?r \<noteq> 0" if "?r \<noteq> []" using hd_dropWhile [OF that] .
  then have "be_write (be_read 0 ?r) = ?r" by (rule be_write_read_strip)
  with b v show ?thesis by simp
qed


lemma decode_of_encode: "Base58_Decode (Base58_Encode b) = b"
proof -
  let ?x = "be_read 0 b" and ?n = "length (takeWhile (\<lambda>i. i = 0) b)"
  have m: "map (\<lambda>_. alphabetIdx0) (takeWhile (\<lambda>i. i = 0) b) = replicate ?n alphabetIdx0"
    by (simp add: map_replicate_const)
  have "b58_value (rev (Base58_Encode b)) 0 1 = Some ?x"
    using b58_value_digits [of ?x "replicate ?n alphabetIdx0" 0 1]
      b58_value_zeros [of ?n "[]"]
    by (simp add: Base58_Encode_def m)
  moreover have "length (takeWhile (\<lambda>c. c = alphabetIdx0) (Base58_Encode b)) = ?n"
  proof -
    have e: "Base58_Encode b = replicate ?n alphabetIdx0 @ rev (b58_digits ?x)"
      by (simp add: Base58_Encode_def m)
    have "takeWhile (\<lambda>c. c = alphabetIdx0) (rev (b58_digits ?x)) = []"
      using b58_digits_last [of ?x] by (cases "b58_digits ?x" rule: rev_cases) auto
    then show ?thesis unfolding e by (simp add: takeWhile_append)
  qed
  ultimately show ?thesis
    using leading_zeros [of b] by (simp add: Base58_Decode_def)
qed

text \<open>
  C32. Base58 decoding inverts encoding for every byte string, leading zero bytes included:
  no address or key is altered by the text form, and no two byte strings share one.
\<close>

theorem Base58_roundtrip: "Base58_Decode (Base58_Encode b) = b \<and> inj Base58_Encode"
  by (metis decode_of_encode injI)

text \<open>
  A key or address with a version byte survives base58check, for any 32 byte hash
  function; and decoding accepts nothing else than a payload with its own checksum: what
  \<open>Decode\<close> returns, checked again, carries exactly the checksum of the version and payload.
\<close>

theorem Base58Check_roundtrip:
  assumes "\<And>b. length (sha256 b) = 32"
  shows "Base58Check_Decode sha256 (Base58Check_Encode sha256 input version) = Inr (input, version) \<and>
    (Base58Check_Decode sha256 s = Inr (payload, v) \<longrightarrow>
       Base58_Decode s = v # payload @ ChecksumFirst4Bytes sha256 (v # payload))"
proof
  have len: "length (ChecksumFirst4Bytes sha256 b) = 4" for b
    using assms by (simp add: ChecksumFirst4Bytes_def DoubleHashB_def)
  show "Base58Check_Decode sha256 (Base58Check_Encode sha256 input version) = Inr (input, version)"
    using len [of "version # input"]
      decode_of_encode [of "(version # input) @ ChecksumFirst4Bytes sha256 (version # input)"]
    by (simp add: Base58Check_Decode_def Base58Check_Encode_def Let_def)
  show "Base58Check_Decode sha256 s = Inr (payload, v) \<longrightarrow>
       Base58_Decode s = v # payload @ ChecksumFirst4Bytes sha256 (v # payload)"
  proof
    let ?d = "Base58_Decode s"
    assume a: "Base58Check_Decode sha256 s = Inr (payload, v)"
    then have l: "\<not> length ?d < 5" and c: "ChecksumFirst4Bytes sha256 (take (length ?d - 4) ?d) = drop (length ?d - 4) ?d"
      and p: "payload = drop 1 (take (length ?d - 4) ?d)" "v = ?d ! 0"
      by (auto simp: Base58Check_Decode_def Let_def split: if_splits)
    have "take (length ?d - 4) ?d = v # payload"
      using l p by (cases ?d) (auto simp: take_Cons' Suc_diff_le)
    then show "?d = v # payload @ ChecksumFirst4Bytes sha256 (v # payload)"
      using c by (metis append_Cons append_take_drop_id)
  qed
qed

theorem Base58Check_roundtrip_witness:
  "Base58Check_Decode (\<lambda>b. replicate 32 (word_of_nat (length b)))
     (Base58Check_Encode (\<lambda>b. replicate 32 (word_of_nat (length b))) [0, 1, 2] 5) = Inr ([0, 1, 2], 5)"
  using Base58Check_roundtrip [of "\<lambda>b. replicate 32 (word_of_nat (length b))" "[0, 1, 2]" 5] by simp

end
