(* ===== verification/Transaction.thy ===== *)
theory Transaction
  imports Lvdb_Tx Base58
begin

text \<open>
  Transactions as the mempool sees them (\<open>src/transaction\<close>, \<open>src/metadata/staking.go\<close>,
  \<open>src/metadata/metadata.go\<close>): the fields the checks read, the text a transaction is hashed
  from, and the checks. The points of a coin are what \<open>Compress\<close> gives for them: no bytes
  for a point off the curve, such as the zero point of \<open>Init\<close>. The points are there: a coin decoded
  with a field of length 0 has a nil pointer in its place, on which \<open>Compress\<close> panics, and is no value of
  the type \<open>Coin\<close>. SHA-256, the signature and proof verifications, the methods of the \<open>Metadata\<close>
  interface and the chain look-ups are fields of the record \<open>ChainEnv\<close>; the metadata of the
  staking transactions is modelled in full. A panic of the code is the value \<open>None\<close>.
\<close>

section \<open>Data\<close>

record Coin =
  coPublicKey :: bytes
  coSerialNumber :: bytes
  coSNDerivator :: nat
  coCoinCommitment :: bytes
  coValue :: u64

record PaymentProof =
  ppInputCoins :: "Coin list"
  ppOutputCoins :: "Coin list"
  ppHasOneOfMany :: bool
  ppBytes :: bytes

text \<open>A metadata object by its type, its size and its hash.\<close>

record Metadata =
  meType :: nat
  meSize :: u64
  meHash :: hash

record Tx =
  txVersion :: int
  txType :: string
  txLockTime :: int
  txFee :: u64
  txInfo :: bytes
  txSigPubKey :: bytes
  txSig :: bytes
  txProof :: "PaymentProof option"
  txPubKeyLastByteSender :: u8
  txMetadata :: "Metadata option"

record PaymentAddress =
  paPk :: bytes
  paTk :: bytes

record TxTokenVin =
  viTxCustomTokenID :: hash
  viVoutIndex :: int
  viSignature :: string
  viPaymentAddress :: PaymentAddress

record TxTokenVout =
  voValue :: u64
  voPaymentAddress :: PaymentAddress

text \<open>\<open>tdVouts = None\<close> is the nil slice, which \<open>Hash\<close> tells from an empty one.\<close>

record TxTokenData =
  tdPropertyID :: hash
  tdPropertyName :: string
  tdPropertySymbol :: string
  tdType :: int
  tdMintable :: bool
  tdAmount :: u64
  tdVins :: "TxTokenVin list"
  tdVouts :: "TxTokenVout list option"

record TxTokenPrivacyData =
  pdTxNormal :: Tx
  pdPropertyID :: hash
  pdPropertyName :: string
  pdPropertySymbol :: string
  pdType :: int
  pdAmount :: u64

datatype Transaction =
    NormalTx Tx
  | TxCustomToken Tx TxTokenData
  | TxCustomTokenPrivacy Tx TxTokenPrivacyData

fun baseTx :: "Transaction \<Rightarrow> Tx" where
  "baseTx (NormalTx tx) = tx"
| "baseTx (TxCustomToken tx d) = tx"
| "baseTx (TxCustomTokenPrivacy tx d) = tx"

definition Vouts :: "TxTokenData \<Rightarrow> TxTokenVout list" where
  "Vouts d = (case tdVouts d of None \<Rightarrow> [] | Some vs \<Rightarrow> vs)"

definition TxNormalType :: string where "TxNormalType = ''n''"
definition TxSalaryType :: string where "TxSalaryType = ''s''"
definition TxCustomTokenType :: string where "TxCustomTokenType = ''t''"
definition TxCustomTokenPrivacyType :: string where "TxCustomTokenPrivacyType = ''tp''"
definition TxVersion :: int where "TxVersion = 1"

text \<open>\<open>CustomTokenInit\<close>, \<open>CustomTokenTransfer\<close> and \<open>CustomTokenCrossShard\<close> count from 0.\<close>

definition CustomTokenInit :: int where "CustomTokenInit = 0"
definition CustomTokenCrossShard :: int where "CustomTokenCrossShard = 2"

text \<open>The metadata types by their position in the \<open>iota\<close> block of \<open>src/metadata/constants.go\<close>.\<close>

definition MultiSigsSpendingMeta :: nat where "MultiSigsSpendingMeta = 31"
definition ShardStakingMeta :: nat where "ShardStakingMeta = 65"
definition BeaconStakingMeta :: nat where "BeaconStakingMeta = 66"

definition ConstantID :: hash where
  "ConstantID = 4 # replicate 31 0"

text \<open>
  What the checks ask of code outside this theory: SHA-256, the interface methods of a
  metadata object (\<open>ValidateSanityData\<close> answers continue, ok, no error;
  \<open>ValidateTxWithBlockChain\<close> continue, no error), the signature and proof verifications,
  \<open>GetMultiSigsRegistration\<close>, the look-ups of the block chain, the clock and the database.
\<close>

record 'db ChainEnv =
  ceSha256 :: "bytes \<Rightarrow> bytes"
  ceMetaCheckTransactionFee :: "Metadata \<Rightarrow> Transaction \<Rightarrow> u64 \<Rightarrow> bool"
  ceMetaValidateSanityData :: "Metadata \<Rightarrow> Transaction \<Rightarrow> bool \<times> bool \<times> bool"
  ceMetaValidateByItself :: "Metadata \<Rightarrow> bool"
  ceMetaValidateTxWithBlockChain :: "Metadata \<Rightarrow> Transaction \<Rightarrow> u8 \<Rightarrow> bool \<times> bool"
  ceMetaVerifyMultiSigs :: "Metadata \<Rightarrow> Tx \<Rightarrow> bool"
  ceVerifySig :: "Tx \<Rightarrow> bool"
  ceMultiSigsRegistration :: "bytes \<Rightarrow> bytes option"
  ceVerifyProof :: "bool \<Rightarrow> Tx \<Rightarrow> u8 \<Rightarrow> hash \<Rightarrow> bool"
  ceValidateTxSalary :: "Tx \<Rightarrow> bool"
  ceKeySetVerify :: "PaymentAddress \<Rightarrow> bytes \<Rightarrow> bytes \<Rightarrow> bool"
  ceGetTransactionByHash :: "hash \<Rightarrow> Transaction option"
  ceGetCustomTokenTxs :: "hash \<Rightarrow> Transaction list option"
  ceNow :: int
  ceLdb :: "'db leveldb"
  ceDb :: 'db

section \<open>The hashed text\<close>

fun nat_digits :: "nat \<Rightarrow> string" where
  "nat_digits n = (if n < 10 then [char_of (48 + n)] else nat_digits (n div 10) @ [char_of (48 + n mod 10)])"

declare nat_digits.simps [simp del]

definition Itoa :: "int \<Rightarrow> string" where
  "Itoa i = (if i < 0 then CHR ''-'' # nat_digits (nat (- i)) else nat_digits (nat i))"

definition FormatUint :: "u64 \<Rightarrow> string" where
  "FormatUint v = nat_digits (unat v)"

definition HashH :: "'db ChainEnv \<Rightarrow> bytes \<Rightarrow> hash" where
  "HashH e b = ceSha256 e b"

definition DoubleHashH :: "'db ChainEnv \<Rightarrow> bytes \<Rightarrow> hash" where
  "DoubleHashH e b = ceSha256 e (ceSha256 e b)"

definition Tx_String :: "'db ChainEnv \<Rightarrow> Tx \<Rightarrow> string" where
  "Tx_String e tx =
     Itoa (txVersion tx) @ Itoa (txLockTime tx) @ FormatUint (txFee tx) @
     (case txProof tx of None \<Rightarrow> [] | Some p \<Rightarrow> Base58Check_Encode (ceSha256 e) (ppBytes p) 0) @
     (case txMetadata tx of None \<Rightarrow> [] | Some m \<Rightarrow> Hash_String (meHash m))"

definition Tx_Hash :: "'db ChainEnv \<Rightarrow> Tx \<Rightarrow> hash" where
  "Tx_Hash e tx = HashH e (str_bytes (Tx_String e tx))"

definition TxTokenVin_String :: "'db ChainEnv \<Rightarrow> TxTokenVin \<Rightarrow> string" where
  "TxTokenVin_String e vin =
     Hash_String (viTxCustomTokenID vin) @ Itoa (viVoutIndex vin) @ viSignature vin @
     Base58Check_Encode (ceSha256 e) (paPk (viPaymentAddress vin)) 0"

definition TxTokenVout_String :: "'db ChainEnv \<Rightarrow> TxTokenVout \<Rightarrow> string" where
  "TxTokenVout_String e vout =
     FormatUint (voValue vout) @ Base58Check_Encode (ceSha256 e) (paPk (voPaymentAddress vout)) 0"

definition TxTokenVout_Hash :: "'db ChainEnv \<Rightarrow> TxTokenVout \<Rightarrow> hash" where
  "TxTokenVout_Hash e vout = HashH e (str_bytes (TxTokenVout_String e vout))"

definition TxTokenData_String :: "'db ChainEnv \<Rightarrow> TxTokenData \<Rightarrow> string" where
  "TxTokenData_String e d =
     tdPropertyName d @ tdPropertySymbol d @ FormatUint (tdAmount d) @
     concat (map (TxTokenVin_String e) (tdVins d)) @ concat (map (TxTokenVout_String e) (Vouts d))"

definition TxTokenData_Hash :: "'db ChainEnv \<Rightarrow> TxTokenData \<Rightarrow> hash option" where
  "TxTokenData_Hash e d =
    (if tdVouts d = None then None else Some (HashH e (str_bytes (TxTokenData_String e d))))"

definition bytes_string :: "bytes \<Rightarrow> string" where
  "bytes_string b = map (\<lambda>x. char_of (unat x)) b"

definition TxTokenPrivacyData_String :: "TxTokenPrivacyData \<Rightarrow> string" where
  "TxTokenPrivacyData_String d =
     pdPropertyName d @ pdPropertySymbol d @ FormatUint (pdAmount d) @
     (case txProof (pdTxNormal d) of
        None \<Rightarrow> []
      | Some p \<Rightarrow>
          concat (map (\<lambda>out. bytes_string (coPublicKey out) @ FormatUint (coValue out)) (ppOutputCoins p)) @
          concat (map (\<lambda>inc. bytes_string (coPublicKey inc) @ (if coValue inc > 0 then FormatUint (coValue inc) else []))
            (ppInputCoins p)))"

definition TxTokenPrivacyData_Hash :: "'db ChainEnv \<Rightarrow> TxTokenPrivacyData \<Rightarrow> hash" where
  "TxTokenPrivacyData_Hash e d = DoubleHashH e (str_bytes (TxTokenPrivacyData_String d))"

text \<open>
  \<open>Hash\<close> of each kind. A token transaction with nil \<open>Vouts\<close> has no token data hash, and
  \<open>String\<close> on the nil pointer panics.
\<close>

fun Transaction_Hash :: "'db ChainEnv \<Rightarrow> Transaction \<Rightarrow> hash option" where
  "Transaction_Hash e (NormalTx tx) = Some (Tx_Hash e tx)"
| "Transaction_Hash e (TxCustomToken tx d) =
    (case TxTokenData_Hash e d of
       None \<Rightarrow> None
     | Some h \<Rightarrow>
         Some (DoubleHashH e (str_bytes (Hash_String (Tx_Hash e tx) @ Hash_String h @
           (case txMetadata tx of None \<Rightarrow> [] | Some m \<Rightarrow> Hash_String (meHash m))))))"
| "Transaction_Hash e (TxCustomTokenPrivacy tx d) =
    Some (DoubleHashH e (str_bytes (Hash_String (Tx_Hash e tx) @ Hash_String (TxTokenPrivacyData_Hash e d) @
      (case txMetadata tx of None \<Rightarrow> [] | Some m \<Rightarrow> bytes_string (meHash m)))))"

section \<open>Size, fee and type\<close>

definition ListNullifiers :: "Tx \<Rightarrow> bytes list" where
  "ListNullifiers tx =
    (case txProof tx of None \<Rightarrow> [] | Some p \<Rightarrow> map coSerialNumber (ppInputCoins p))"

definition CheckTxVersion :: "Tx \<Rightarrow> int \<Rightarrow> bool" where
  "CheckTxVersion tx maxTxVersion = (\<not> txVersion tx > maxTxVersion)"

text \<open>
  \<open>GetTxActualSize\<close>: the byte count rounded up to kilobytes. The division goes through
  \<open>float64\<close>, which is exact for every size below \<open>2^53\<close> bytes.
\<close>

definition GetTxActualSize :: "Tx \<Rightarrow> u64" where
  "GetTxActualSize tx =
    (let sizeTx = 1 + (of_nat (length (txType tx)) + 1) + 8 + 8 + of_nat (length (txSigPubKey tx)) +
           of_nat (length (txSig tx)) +
           (case txProof tx of None \<Rightarrow> 0 | Some p \<Rightarrow> of_nat (length (ppBytes p))) + 1 +
           of_nat (length (txInfo tx)) +
           (case txMetadata tx of None \<Rightarrow> 0 | Some m \<Rightarrow> meSize m) :: u64
     in word_of_nat ((unat sizeTx + 1023) div 1024))"

definition PaymentAddress_Size :: "PaymentAddress \<Rightarrow> nat" where
  "PaymentAddress_Size a = length (paPk a) + length (paTk a)"

text \<open>The token kinds add the length of their data, in bytes, to the kilobytes of the coin part.\<close>

fun Transaction_GetTxActualSize :: "Transaction \<Rightarrow> u64" where
  "Transaction_GetTxActualSize (NormalTx tx) = GetTxActualSize tx"
| "Transaction_GetTxActualSize (TxCustomToken tx d) =
    GetTxActualSize tx +
    (of_nat (length (tdPropertyName d) + length (tdPropertyName d) + HashSize + 4 +
      sum_list (map (\<lambda>vin. length (viSignature vin) + HashSize + 4 + PaymentAddress_Size (viPaymentAddress vin)) (tdVins d)) +
      sum_list (map (\<lambda>vout. 8 + PaymentAddress_Size (voPaymentAddress vout)) (Vouts d))) +
    (case txMetadata tx of None \<Rightarrow> 0 | Some m \<Rightarrow> meSize m))"
| "Transaction_GetTxActualSize (TxCustomTokenPrivacy tx d) =
    GetTxActualSize tx +
    (GetTxActualSize (pdTxNormal d) +
     of_nat (length (pdPropertyName d) + length (pdPropertySymbol d) + HashSize + 4 + 8) +
    (case txMetadata tx of None \<Rightarrow> 0 | Some m \<Rightarrow> meSize m))"

definition IsSalaryTx :: "Tx \<Rightarrow> bool option" where
  "IsSalaryTx tx =
    (if txType tx \<noteq> TxSalaryType then Some False
     else map_option (\<lambda>p. length (ppInputCoins p) = 0) (txProof tx))"

definition CheckTransactionFee :: "'db ChainEnv \<Rightarrow> Tx \<Rightarrow> u64 \<Rightarrow> bool option" where
  "CheckTransactionFee e tx minFeePerKbTx =
    (case IsSalaryTx tx of
       None \<Rightarrow> None
     | Some True \<Rightarrow> Some True
     | Some False \<Rightarrow>
         (case txMetadata tx of
            Some m \<Rightarrow> Some (ceMetaCheckTransactionFee e m (NormalTx tx) minFeePerKbTx)
          | None \<Rightarrow> (let fullFee = minFeePerKbTx * GetTxActualSize tx in Some (\<not> txFee tx < fullFee))))"

text \<open>The fee check that \<open>MetadataBase\<close> gives every kind of metadata that has none of its own.\<close>

definition MetadataBase_CheckTransactionFee :: "Metadata \<Rightarrow> Transaction \<Rightarrow> u64 \<Rightarrow> bool" where
  "MetadataBase_CheckTransactionFee m t minFeePerKbTx =
    (let fullFee = minFeePerKbTx * Transaction_GetTxActualSize t in \<not> txFee (baseTx t) < fullFee)"

fun ValidateType :: "Transaction \<Rightarrow> bool" where
  "ValidateType (NormalTx tx) = (txType tx = TxNormalType \<or> txType tx = TxSalaryType)"
| "ValidateType (TxCustomToken tx d) = (txType tx = TxCustomTokenType)"
| "ValidateType (TxCustomTokenPrivacy tx d) = (txType tx = TxCustomTokenPrivacyType)"

fun IsPrivacy :: "Transaction \<Rightarrow> bool" where
  "IsPrivacy (TxCustomToken tx d) = False"
| "IsPrivacy t = (case txProof (baseTx t) of None \<Rightarrow> False | Some p \<Rightarrow> ppHasOneOfMany p)"

section \<open>Receivers\<close>

text \<open>Receivers with their summed amounts, in order of first appearance.\<close>

fun add_receiver :: "bytes \<Rightarrow> u64 \<Rightarrow> (bytes \<times> u64) list \<Rightarrow> (bytes \<times> u64) list" where
  "add_receiver pk v [] = [(pk, v)]"
| "add_receiver pk v ((k, a) # rs) = (if pk = k then (k, a + v) # rs else (k, a) # add_receiver pk v rs)"

definition GetReceivers :: "Tx \<Rightarrow> (bytes \<times> u64) list" where
  "GetReceivers tx =
    (case txProof tx of None \<Rightarrow> []
     | Some p \<Rightarrow> fold (\<lambda>coin rs. add_receiver (coPublicKey coin) (coValue coin) rs) (ppOutputCoins p) [])"

definition unique_receiver :: "bytes \<Rightarrow> (bytes \<times> u64) list \<Rightarrow> bool \<times> bytes \<times> u64" where
  "unique_receiver sender rs =
    (case fold (\<lambda>(pk, a) (cnt, pubkey, amount). if pk \<noteq> sender then (cnt + 1, pk, a) else (cnt, pubkey, amount))
       rs (0::nat, [], 0) of
     (cnt, pubkey, amount) \<Rightarrow> (cnt = 1, pubkey, amount))"

definition GetUniqueReceiver :: "Tx \<Rightarrow> bool \<times> bytes \<times> u64" where
  "GetUniqueReceiver tx =
     unique_receiver
       (case txProof tx of None \<Rightarrow> [] | Some p \<Rightarrow> (case ppInputCoins p of [] \<Rightarrow> [] | c # _ \<Rightarrow> coPublicKey c))
       (GetReceivers tx)"

definition GetTokenReceivers :: "TxTokenData \<Rightarrow> (bytes \<times> u64) list" where
  "GetTokenReceivers d =
     fold (\<lambda>vout rs. add_receiver (paPk (voPaymentAddress vout)) (voValue vout) rs) (Vouts d) []"

definition GetTokenUniqueReceiver :: "Tx \<Rightarrow> TxTokenData \<Rightarrow> bool \<times> bytes \<times> u64" where
  "GetTokenUniqueReceiver tx d = unique_receiver (txSigPubKey tx) (GetTokenReceivers d)"

definition CalculateTxValue :: "Tx \<Rightarrow> u64" where
  "CalculateTxValue tx =
    (case txProof tx of
       None \<Rightarrow> 0
     | Some p \<Rightarrow>
         (case (ppInputCoins p, ppOutputCoins p) of
            (c # _, _ # _) \<Rightarrow>
              fold (\<lambda>out acc. if coPublicKey c = coPublicKey out then acc else acc + coValue out)
                (ppOutputCoins p) 0
          | _ \<Rightarrow> 0))"

text \<open>The burning account's public key is decoded from \<open>common.BurningAddress\<close> by the wallet.\<close>

definition IsCoinsBurning :: "bytes \<Rightarrow> Tx \<Rightarrow> bool" where
  "IsCoinsBurning burningPk tx =
    (case txProof tx of
       None \<Rightarrow> False
     | Some p \<Rightarrow>
         (case (ppInputCoins p, ppOutputCoins p) of
            (c # _, _ # _) \<Rightarrow>
              \<not> list_ex (\<lambda>out. coPublicKey c \<noteq> coPublicKey out \<and> coPublicKey out \<noteq> burningPk) (ppOutputCoins p)
          | _ \<Rightarrow> False))"

section \<open>Sanity\<close>

text \<open>The two results of the sanity checks: the verdict, and whether the error is nil.\<close>

definition validateNormalTxSanityData :: "'db ChainEnv \<Rightarrow> Tx \<Rightarrow> bool \<times> bool" where
  "validateNormalTxSanityData e tx =
    (if txVersion tx > TxVersion then (False, False)
     else if txLockTime tx > ceNow e then (False, False)
     else (True, True))"

definition meta_sanity_first :: "'db ChainEnv \<Rightarrow> Tx \<Rightarrow> Transaction \<Rightarrow> bool \<times> bool \<Rightarrow> bool \<times> bool" where
  "meta_sanity_first e tx t rest =
    (case txMetadata tx of
       None \<Rightarrow> rest
     | Some m \<Rightarrow>
         (case ceMetaValidateSanityData e m t of (isContinued, ok, noErr) \<Rightarrow>
            if \<not> noErr \<or> \<not> ok \<or> \<not> isContinued then (ok, noErr) else rest))"

definition Tx_ValidateSanityData :: "'db ChainEnv \<Rightarrow> Tx \<Rightarrow> bool \<times> bool" where
  "Tx_ValidateSanityData e tx = meta_sanity_first e tx (NormalTx tx) (validateNormalTxSanityData e tx)"

definition validateCustomTokenTxSanityData :: "'db ChainEnv \<Rightarrow> Tx \<Rightarrow> TxTokenData \<Rightarrow> bool \<times> bool" where
  "validateCustomTokenTxSanityData e tx d =
    (case Tx_ValidateSanityData e tx of (ok, noErr) \<Rightarrow>
       if \<not> noErr \<or> \<not> ok then (ok, False)
       else if list_ex (\<lambda>vin. length (paPk (viPaymentAddress vin)) = 0 \<or> viSignature vin = [] \<or>
                 Hash_String (viTxCustomTokenID vin) = Hash_String (replicate HashSize 0)) (tdVins d) then (False, False)
       else if list_ex (\<lambda>vout. length (paPk (voPaymentAddress vout)) = 0 \<or> voValue vout = 0) (Vouts d) then (False, False)
       else (True, True))"

fun ValidateSanityData :: "'db ChainEnv \<Rightarrow> Transaction \<Rightarrow> bool \<times> bool" where
  "ValidateSanityData e (NormalTx tx) = Tx_ValidateSanityData e tx"
| "ValidateSanityData e (TxCustomToken tx d) =
     meta_sanity_first e tx (TxCustomToken tx d) (validateCustomTokenTxSanityData e tx d)"
| "ValidateSanityData e (TxCustomTokenPrivacy tx d) = validateNormalTxSanityData e tx"

section \<open>Double spending\<close>

text \<open>The serial numbers of the pool, as the association list \<open>poolNullifiers\<close>; True is an error.\<close>

definition validateDoubleSpendTxWithCurrentMempool :: "Tx \<Rightarrow> (hash \<times> bytes list) list \<Rightarrow> bool" where
  "validateDoubleSpendTxWithCurrentMempool tx poolNullifiers =
    (case txProof tx of
       None \<Rightarrow> False
     | Some p \<Rightarrow>
         list_ex (\<lambda>(h, temp1).
           list_ex (\<lambda>desc. SliceBytesExists temp1 (coSerialNumber desc) > -1) (ppInputCoins p)) poolNullifiers)"

definition vins_conflict :: "TxTokenVin list \<Rightarrow> TxTokenVin list \<Rightarrow> bool" where
  "vins_conflict vins items =
     list_ex (\<lambda>vin. list_ex (\<lambda>item.
       Hash_String (viTxCustomTokenID vin) = Hash_String (viTxCustomTokenID item) \<and>
       viVoutIndex vin = viVoutIndex item) items) vins"

text \<open>
  The loop over other transactions: \<open>Some True\<close> is a double spend, and a transaction of
  another kind makes the type assertion panic.
\<close>

fun validateDoubleSpendCustomTokenOnTx :: "TxTokenData \<Rightarrow> Transaction \<Rightarrow> bool option" where
  "validateDoubleSpendCustomTokenOnTx d (TxCustomToken tx' d') = Some (vins_conflict (tdVins d') (tdVins d))"
| "validateDoubleSpendCustomTokenOnTx d _ = None"

fun double_spend_loop :: "TxTokenData \<Rightarrow> Transaction list \<Rightarrow> bool option" where
  "double_spend_loop d [] = Some False"
| "double_spend_loop d (t # ts) =
    (case validateDoubleSpendCustomTokenOnTx d t of
       None \<Rightarrow> None
     | Some True \<Rightarrow> Some True
     | Some False \<Rightarrow> double_spend_loop d ts)"

text \<open>\<open>ValidateTxWithCurrentMempool\<close> of the three kinds; \<open>Some True\<close> is accepted.\<close>

definition Tx_ValidateTxWithCurrentMempool :: "Tx \<Rightarrow> (hash \<times> bytes list) list \<Rightarrow> bool" where
  "Tx_ValidateTxWithCurrentMempool tx poolNullifiers =
    (if txType tx = TxSalaryType then False
     else \<not> validateDoubleSpendTxWithCurrentMempool tx poolNullifiers)"

fun ValidateTxWithCurrentMempool :: "Transaction \<Rightarrow> (hash \<times> bytes list) list \<Rightarrow> Transaction list \<Rightarrow> bool option" where
  "ValidateTxWithCurrentMempool (NormalTx tx) poolNullifiers txsInMem =
     Some (Tx_ValidateTxWithCurrentMempool tx poolNullifiers)"
| "ValidateTxWithCurrentMempool (TxCustomToken tx d) poolNullifiers txsInMem =
    (if txType tx = TxSalaryType then Some False
     else if \<not> Tx_ValidateTxWithCurrentMempool tx poolNullifiers then Some False
     else
       map_option Not
         (double_spend_loop d (filter (\<lambda>m. txType (baseTx m) = TxCustomTokenType) txsInMem)))"
| "ValidateTxWithCurrentMempool (TxCustomTokenPrivacy tx d) poolNullifiers txsInMem =
     Some (\<not> validateDoubleSpendTxWithCurrentMempool tx poolNullifiers)"

text \<open>\<open>ValidateConstDoubleSpendWithBlockchain\<close> asks the database for every serial number.\<close>

definition ValidateConstDoubleSpendWithBlockchain :: "'db ChainEnv \<Rightarrow> u8 \<Rightarrow> Tx \<Rightarrow> bool" where
  "ValidateConstDoubleSpendWithBlockchain e shardID tx =
     list_all (\<lambda>sn. snd (HasSerialNumber (ceLdb e) ConstantID sn shardID (ceDb e)) = Inr False) (ListNullifiers tx)"

definition Tx_ValidateTxWithBlockChain :: "'db ChainEnv \<Rightarrow> u8 \<Rightarrow> Tx \<Rightarrow> bool" where
  "Tx_ValidateTxWithBlockChain e shardID tx =
    (if txType tx = TxSalaryType then True
     else
       (case txMetadata tx of
          None \<Rightarrow> ValidateConstDoubleSpendWithBlockchain e shardID tx
        | Some m \<Rightarrow>
            (case ceMetaValidateTxWithBlockChain e m (NormalTx tx) shardID of (isContinued, noErr) \<Rightarrow>
               if \<not> noErr then False
               else if \<not> isContinued then True
               else ValidateConstDoubleSpendWithBlockchain e shardID tx)))"

definition validateDoubleSpendCustomTokenWithBlockchain :: "'db ChainEnv \<Rightarrow> TxTokenData \<Rightarrow> bool option" where
  "validateDoubleSpendCustomTokenWithBlockchain e d =
    (case ceGetCustomTokenTxs e (tdPropertyID d) of
       None \<Rightarrow> Some False
     | Some listTxs \<Rightarrow>
         if length listTxs = 0 \<and> tdType d \<noteq> CustomTokenInit \<and> tdType d \<noteq> CustomTokenCrossShard then Some False
         else map_option Not (double_spend_loop d listTxs))"

fun ValidateTxWithBlockChain :: "'db ChainEnv \<Rightarrow> u8 \<Rightarrow> Transaction \<Rightarrow> bool option" where
  "ValidateTxWithBlockChain e shardID (NormalTx tx) = Some (Tx_ValidateTxWithBlockChain e shardID tx)"
| "ValidateTxWithBlockChain e shardID (TxCustomToken tx d) =
    (if txType tx = TxSalaryType then Some False
     else if (case txMetadata tx of None \<Rightarrow> False
              | Some m \<Rightarrow> (case ceMetaValidateTxWithBlockChain e m (TxCustomToken tx d) shardID of
                  (isContinued, noErr) \<Rightarrow> \<not> noErr \<or> \<not> isContinued)) then Some False
     else if \<not> ValidateConstDoubleSpendWithBlockchain e shardID tx then Some False
     else validateDoubleSpendCustomTokenWithBlockchain e d)"
| "ValidateTxWithBlockChain e shardID (TxCustomTokenPrivacy tx d) =
     Some (ValidateConstDoubleSpendWithBlockchain e shardID tx)"

section \<open>ValidateTransaction\<close>

definition verifyMultiSigsTx :: "'db ChainEnv \<Rightarrow> Tx \<Rightarrow> bool" where
  "verifyMultiSigsTx e tx =
    (case txMetadata tx of
       None \<Rightarrow> False
     | Some m \<Rightarrow> if meType m \<noteq> MultiSigsSpendingMeta then False else ceMetaVerifyMultiSigs e m tx)"

definition Tx_ValidateTransaction :: "'db ChainEnv \<Rightarrow> bool \<Rightarrow> u8 \<Rightarrow> hash \<Rightarrow> Tx \<Rightarrow> bool" where
  "Tx_ValidateTransaction e hasPrivacy shardID tokenID tx =
    (if txType tx = TxSalaryType then ceValidateTxSalary e tx
     else if \<not> ceVerifySig e tx then False
     else
       (case ceMultiSigsRegistration e (txSigPubKey tx) of
          None \<Rightarrow> False
        | Some multisigsRegBytes \<Rightarrow>
            if length multisigsRegBytes > 0 \<and> \<not> verifyMultiSigsTx e tx then False
            else
              (case txProof tx of
                 None \<Rightarrow> True
               | Some p \<Rightarrow>
                   if CheckDuplicateBigIntArray (map (\<lambda>c. int (coSNDerivator c)) (ppOutputCoins p)) then False
                   else if list_ex (\<lambda>c. snd (HasSNDerivator (ceLdb e) tokenID (coSNDerivator c) shardID (ceDb e)) \<noteq> Inr False)
                        (ppOutputCoins p) then False
                   else if \<not> hasPrivacy \<and>
                        list_ex (\<lambda>c. snd (HasCommitment (ceLdb e) tokenID (coCoinCommitment c) shardID (ceDb e)) \<noteq> Inr True)
                          (ppInputCoins p) then False
                   else ceVerifyProof e hasPrivacy tx shardID tokenID)))"

definition Tx_ValidateTxByItself :: "'db ChainEnv \<Rightarrow> bool \<Rightarrow> u8 \<Rightarrow> Tx \<Rightarrow> bool" where
  "Tx_ValidateTxByItself e hasPrivacy shardID tx =
    (if \<not> Tx_ValidateTransaction e hasPrivacy shardID ConstantID tx then False
     else
       (case txMetadata tx of
          None \<Rightarrow> True
        | Some m \<Rightarrow> if hasPrivacy then False else ceMetaValidateByItself e m))"

text \<open>
  \<open>getListUTXOFromTxCustomToken\<close>: \<open>Some None\<close> when a transaction is not found or there is no
  input; the type assertion panics on another kind.
\<close>

fun utxo_loop :: "'db ChainEnv \<Rightarrow> TxTokenVin list \<Rightarrow> (hash \<times> TxTokenData) list option option" where
  "utxo_loop e [] = Some (Some [])"
| "utxo_loop e (vin # vins) =
    (case ceGetTransactionByHash e (viTxCustomTokenID vin) of
       None \<Rightarrow> Some None
     | Some (TxCustomToken tx d) \<Rightarrow>
         map_option (map_option (\<lambda>utxos. (viTxCustomTokenID vin, d) # utxos)) (utxo_loop e vins)
     | Some _ \<Rightarrow> None)"

definition getListUTXOFromTxCustomToken :: "'db ChainEnv \<Rightarrow> TxTokenData \<Rightarrow> (hash \<times> TxTokenData) list option option" where
  "getListUTXOFromTxCustomToken e d =
    (case utxo_loop e (tdVins d) of
       Some (Some []) \<Rightarrow> Some None
     | r \<Rightarrow> r)"

text \<open>
  The signature of every input, in order. \<open>Vouts[vin.VoutIndex]\<close> panics out of range; a signature
  that does not decode is the nil slice.
\<close>

fun vin_sig_loop :: "'db ChainEnv \<Rightarrow> (hash \<times> TxTokenData) list \<Rightarrow> TxTokenVin list \<Rightarrow> bool option" where
  "vin_sig_loop e utxos [] = Some True"
| "vin_sig_loop e utxos (vin # vins) =
    (let vouts = (case map_of utxos (viTxCustomTokenID vin) of None \<Rightarrow> [] | Some d \<Rightarrow> Vouts d) in
     if viVoutIndex vin < 0 \<or> viVoutIndex vin \<ge> int (length vouts) then None
     else
       (let dat = TxTokenVout_Hash e (vouts ! nat (viVoutIndex vin));
            signature = (case Base58Check_Decode (ceSha256 e) (viSignature vin) of Inl _ \<Rightarrow> [] | Inr (s, _) \<Rightarrow> s)
        in if \<not> ceKeySetVerify e (viPaymentAddress vin) dat signature then Some False
           else vin_sig_loop e utxos vins))"

definition TxCustomToken_ValidateTransaction ::
  "'db ChainEnv \<Rightarrow> (hash \<times> TxTokenData) list \<Rightarrow> bool \<Rightarrow> u8 \<Rightarrow> hash \<Rightarrow> Tx \<Rightarrow> TxTokenData \<Rightarrow> bool option" where
  "TxCustomToken_ValidateTransaction e listUtxo hasPrivacy shardID tokenID tx d =
    (if Tx_ValidateTransaction e hasPrivacy shardID tokenID tx then
       if length listUtxo = 0 then Some False
       else if length (tdVins d) = 0 then Some False
       else vin_sig_loop e listUtxo (tdVins d)
     else Some False)"

text \<open>
  \<open>listUtxo\<close> is a private field that only \<open>getListUTXOFromTxCustomToken\<close> sets, on the transfer
  branch; a transaction that reaches the cross shard branch has it empty.
\<close>

definition TxCustomToken_ValidateTxByItself ::
  "'db ChainEnv \<Rightarrow> bool \<Rightarrow> u8 \<Rightarrow> Tx \<Rightarrow> TxTokenData \<Rightarrow> bool option" where
  "TxCustomToken_ValidateTxByItself e hasPrivacy shardID tx d =
    (if tdType d = CustomTokenInit then
       Some (if \<not> Tx_ValidateTransaction e hasPrivacy shardID ConstantID tx then False
             else if length (Vouts d) \<noteq> 1 then False
             else if length (tdVins d) \<noteq> 0 then False
             else True)
     else if tdType d = CustomTokenCrossShard then
       Some (if \<not> Tx_ValidateTransaction e hasPrivacy shardID ConstantID tx then False
             else if length (tdVins d) \<noteq> 0 then False
             else True)
     else
       (case getListUTXOFromTxCustomToken e d of
          None \<Rightarrow> None
        | Some None \<Rightarrow> Some False
        | Some (Some utxos) \<Rightarrow>
            (case TxCustomToken_ValidateTransaction e utxos hasPrivacy shardID ConstantID tx d of
               None \<Rightarrow> None
             | Some False \<Rightarrow> Some False
             | Some True \<Rightarrow>
                 (case txMetadata tx of None \<Rightarrow> Some True | Some m \<Rightarrow> Some (ceMetaValidateByItself e m)))))"

definition TxCustomTokenPrivacy_ValidateTransaction ::
  "'db ChainEnv \<Rightarrow> bool \<Rightarrow> u8 \<Rightarrow> hash \<Rightarrow> Tx \<Rightarrow> TxTokenPrivacyData \<Rightarrow> bool" where
  "TxCustomTokenPrivacy_ValidateTransaction e hasPrivacy shardID tokenID tx d =
    (if Tx_ValidateTransaction e hasPrivacy shardID tokenID tx then
       if pdType d = CustomTokenInit then Tx_ValidateTransaction e False shardID (pdPropertyID d) (pdTxNormal d)
       else Tx_ValidateTransaction e True shardID (pdPropertyID d) (pdTxNormal d)
     else False)"

definition TxCustomTokenPrivacy_ValidateTxByItself ::
  "'db ChainEnv \<Rightarrow> bool \<Rightarrow> u8 \<Rightarrow> Tx \<Rightarrow> TxTokenPrivacyData \<Rightarrow> bool" where
  "TxCustomTokenPrivacy_ValidateTxByItself e hasPrivacy shardID tx d =
    (if pdType d = CustomTokenInit then True
     else if \<not> TxCustomTokenPrivacy_ValidateTransaction e hasPrivacy shardID ConstantID tx d then False
     else (case txMetadata tx of None \<Rightarrow> True | Some m \<Rightarrow> ceMetaValidateByItself e m))"

fun ValidateTxByItself :: "'db ChainEnv \<Rightarrow> bool \<Rightarrow> u8 \<Rightarrow> Transaction \<Rightarrow> bool option" where
  "ValidateTxByItself e hasPrivacy shardID (NormalTx tx) = Some (Tx_ValidateTxByItself e hasPrivacy shardID tx)"
| "ValidateTxByItself e hasPrivacy shardID (TxCustomToken tx d) =
     TxCustomToken_ValidateTxByItself e hasPrivacy shardID tx d"
| "ValidateTxByItself e hasPrivacy shardID (TxCustomTokenPrivacy tx d) =
     Some (TxCustomTokenPrivacy_ValidateTxByItself e hasPrivacy shardID tx d)"

section \<open>Staking metadata (metadata/staking.go)\<close>

definition STAKE_SHARD_AMOUNT :: u64 where "STAKE_SHARD_AMOUNT = 1"
definition STAKE_BEACON_AMOUNT :: u64 where "STAKE_BEACON_AMOUNT = 2"

definition GetValidStaker :: "string list \<Rightarrow> string list \<Rightarrow> string list" where
  "GetValidStaker committees stakers =
     filter (\<lambda>staker. \<not> list_ex (\<lambda>committee. staker = committee) committees) stakers"

definition Staking_ValidateMetadataByItself :: "Metadata \<Rightarrow> bool" where
  "Staking_ValidateMetadataByItself sm =
    (if \<not> (meType sm = ShardStakingMeta \<or> meType sm = BeaconStakingMeta) then False else True)"

text \<open>The eight lists of \<open>GetAllCommitteeValidatorCandidate\<close>, the two maps as the lists of their values.\<close>

definition Staking_ValidateTxWithBlockChain ::
  "(bytes \<Rightarrow> bytes) \<Rightarrow> string list list \<times> string list list \<times> string list \<times> string list \<times>
     string list \<times> string list \<times> string list \<times> string list \<Rightarrow> Transaction \<Rightarrow> bool \<times> bool" where
  "Staking_ValidateTxWithBlockChain sha committees txr =
    (case committees of (SC, SPV, BC, BPV, CBWFCR, CBWFNR, CSWFCR, CSWFNR) \<Rightarrow>
     (let senderPubkeyString = Base58Check_Encode sha (txSigPubKey (baseTx txr)) 0;
          tempStaker = fold GetValidStaker SC [senderPubkeyString];
          tempStaker = fold GetValidStaker SPV tempStaker;
          tempStaker = fold GetValidStaker [BC, BPV, CBWFCR, CBWFNR, CSWFCR, CSWFNR] tempStaker
      in if length tempStaker = 0 then (False, False) else (True, True)))"

definition Staking_ValidateSanityData :: "bytes \<Rightarrow> Metadata \<Rightarrow> Transaction \<Rightarrow> bool \<times> bool \<times> bool" where
  "Staking_ValidateSanityData burningPk sm txr =
    (if IsPrivacy txr then (False, False, False)
     else
       (case GetUniqueReceiver (baseTx txr) of (onlyOne, pubkey, amount) \<Rightarrow>
          if \<not> onlyOne then (False, False, False)
          else if pubkey \<noteq> burningPk then (False, False, False)
          else if meType sm = ShardStakingMeta \<and> amount \<noteq> STAKE_SHARD_AMOUNT then (False, False, False)
          else if meType sm = BeaconStakingMeta \<and> amount \<noteq> STAKE_BEACON_AMOUNT then (False, False, False)
          else (True, True, True)))"


section \<open>The text of a transaction does not delimit its numbers\<close>

lemma nat_digits_snoc:
  assumes "0 < n" "d < 10"
  shows "nat_digits (10 * n + d) = nat_digits n @ nat_digits d"
  using assms by (subst nat_digits.simps) (simp add: nat_digits.simps [of d])

lemma nat_digits_prepend:
  assumes "0 < d" "d < 10"
  shows "nat_digits (d * 10 ^ length (nat_digits n) + n) = nat_digits d @ nat_digits n"
proof (induction n rule: nat_digits.induct)
  case (1 n)
  show ?case
  proof (cases "n < 10")
    case True
    then show ?thesis using nat_digits_snoc [OF assms(1) True] by (simp add: nat_digits.simps [of n] mult.commute)
  next
    case False
    let ?q = "d * 10 ^ length (nat_digits (n div 10)) + n div 10"
    have n: "nat_digits n = nat_digits (n div 10) @ nat_digits (n mod 10)"
      using False by (simp add: nat_digits.simps [of n] nat_digits.simps [of "n mod 10"])
    have "10 * ?q + n mod 10 = d * 10 ^ length (nat_digits n) + n"
      using False by (simp add: n nat_digits.simps [of "n mod 10"] algebra_simps)
    moreover have "nat_digits (10 * ?q + n mod 10) = nat_digits ?q @ nat_digits (n mod 10)"
      using assms by (intro nat_digits_snoc) auto
    ultimately show ?thesis using 1 [OF False] n by (metis append.assoc)
  qed
qed

definition sample_coin :: "bytes \<Rightarrow> bytes \<Rightarrow> u64 \<Rightarrow> Coin" where
  "sample_coin pk sn v =
    \<lparr>coPublicKey = pk, coSerialNumber = sn, coSNDerivator = 7, coCoinCommitment = [9], coValue = v\<rparr>"

definition sample_tx :: "Coin list \<Rightarrow> Coin list \<Rightarrow> Tx" where
  "sample_tx ins outs =
    \<lparr>txVersion = 1, txType = TxNormalType, txLockTime = 1234, txFee = 56, txInfo = [], txSigPubKey = [1, 2],
     txSig = [3], txProof = Some \<lparr>ppInputCoins = ins, ppOutputCoins = outs, ppHasOneOfMany = False, ppBytes = [5]\<rparr>,
     txPubKeyLastByteSender = 2, txMetadata = None\<rparr>"

lemmas sample_tx_defs = sample_tx_def sample_coin_def

text \<open>
  The hash of a transaction does not separate the lock time from the fee: moving the last
  digit of the lock time to the front of the fee gives another transaction with the same
  hash, for every hash function, and so with the same message under the signature.
\<close>

theorem tx_hash_digit_shift:
  assumes "0 < l" "0 < c" "c < 10"
    and "unat fee' = c * 10 ^ length (FormatUint fee) + unat fee"
  shows "Tx_Hash e (tx\<lparr>txLockTime := int (10 * l + c), txFee := fee\<rparr>) =
         Tx_Hash e (tx\<lparr>txLockTime := int l, txFee := fee'\<rparr>)"
  using assms
  by (simp add: Tx_Hash_def Tx_String_def Itoa_def FormatUint_def nat_digits_snoc nat_digits_prepend nat_int_add
      flip: of_nat_Suc del: of_nat_add of_nat_mult)

theorem tx_hash_digit_shift_witness:
  "\<forall>e. Tx_Hash e (sample_tx [] [] \<lparr>txLockTime := 1234, txFee := 56\<rparr>) =
   Tx_Hash e (sample_tx [] [] \<lparr>txLockTime := 123, txFee := 456\<rparr>)"
proof
  show "Tx_Hash e (sample_tx [] [] \<lparr>txLockTime := 1234, txFee := 56\<rparr>) =
    Tx_Hash e (sample_tx [] [] \<lparr>txLockTime := 123, txFee := 456\<rparr>)" for e
    using tx_hash_digit_shift [of 123 4 456 56 e "sample_tx [] []"] by (simp add: FormatUint_def nat_digits.simps)
qed

section \<open>Receivers\<close>

definition paid_to :: "bytes \<Rightarrow> Coin list \<Rightarrow> u64" where
  "paid_to pk coins = sum_list (map coValue (filter (\<lambda>c. coPublicKey c = pk) coins))"

lemma add_receiver_keys: "set (map fst (add_receiver pk v rs)) = insert pk (set (map fst rs))"
proof (induction rs)
  case (Cons r rs)
  then show ?case by (cases r) force
qed simp

lemma add_receiver_distinct: "distinct (map fst rs) \<Longrightarrow> distinct (map fst (add_receiver pk v rs))"
proof (induction rs)
  case (Cons r rs)
  then show ?case using add_receiver_keys [of pk v rs] by (cases r) auto
qed simp

lemma map_of_add_receiver:
  "map_of (add_receiver pk v rs) k =
     (if k = pk then Some ((case map_of rs pk of None \<Rightarrow> 0 | Some a \<Rightarrow> a) + v) else map_of rs k)"
  by (induction rs) auto

lemma paid_to_none: "k \<notin> coPublicKey ` set coins \<Longrightarrow> paid_to k coins = 0"
  by (induction coins) (auto simp: paid_to_def)

lemma fold_add_receiver:
  "map_of (fold (\<lambda>coin rs. add_receiver (coPublicKey coin) (coValue coin) rs) coins rs) k =
     (if k \<in> coPublicKey ` set coins then Some ((case map_of rs k of None \<Rightarrow> 0 | Some a \<Rightarrow> a) + paid_to k coins)
      else map_of rs k)"
proof (induction coins arbitrary: rs)
  case (Cons c coins)
  show ?case
  proof (cases "k \<in> coPublicKey ` set coins")
    case True
    then show ?thesis by (auto simp: Cons.IH map_of_add_receiver paid_to_def add.assoc split: option.splits)
  next
    case False
    then show ?thesis using paid_to_none [OF False]
      by (auto simp: Cons.IH map_of_add_receiver paid_to_def split: option.splits)
  qed
qed simp

lemma fold_add_receiver_distinct:
  "distinct (map fst rs) \<Longrightarrow>
   distinct (map fst (fold (\<lambda>coin rs. add_receiver (coPublicKey coin) (coValue coin) rs) coins rs))"
  by (induction coins arbitrary: rs) (simp_all add: add_receiver_distinct)

lemma GetReceivers_distinct: "distinct (map fst (GetReceivers tx))"
  by (simp add: GetReceivers_def fold_add_receiver_distinct split: option.splits)

lemma GetReceivers_iff:
  assumes "txProof tx = Some p"
  shows "(pk, a) \<in> set (GetReceivers tx) \<longleftrightarrow> pk \<in> coPublicKey ` set (ppOutputCoins p) \<and> a = paid_to pk (ppOutputCoins p)"
proof -
  have "(pk, a) \<in> set (GetReceivers tx) \<longleftrightarrow> map_of (GetReceivers tx) pk = Some a"
    using GetReceivers_distinct [of tx] by simp
  then show ?thesis by (auto simp: GetReceivers_def assms fold_add_receiver)
qed

lemma unique_receiver_fold:
  "fold (\<lambda>(pk, a) (cnt, pubkey, amount). if pk \<noteq> sender then (cnt + 1, pk, a) else (cnt, pubkey, amount))
     rs (n, p0, a0) =
   (let others = filter (\<lambda>r. fst r \<noteq> sender) rs
    in (n + length others, if others = [] then (p0, a0) else last others))"
  by (induction rs arbitrary: n p0 a0) (auto simp: Let_def)

lemma unique_receiver_True:
  assumes "unique_receiver sender rs = (True, pk, a)"
  shows "filter (\<lambda>r. fst r \<noteq> sender) rs = [(pk, a)]"
  using assms unfolding unique_receiver_def unique_receiver_fold
  by (auto simp: Let_def length_Suc_conv split: if_splits)

lemma fold_skip_sum:
  "fold (\<lambda>out acc. if P out then acc else acc + coValue out) coins (v::u64) =
   v + sum_list (map coValue (filter (\<lambda>c. \<not> P c) coins))"
  by (induction coins arbitrary: v) (simp_all add: add.assoc)

text \<open>The one receiver beside the sender gets the whole value of the transaction.\<close>

lemma unique_receiver_value:
  assumes p: "txProof tx = Some p" and i: "ppInputCoins p = c # cs"
    and u: "GetUniqueReceiver tx = (True, pk, a)"
  shows "pk \<noteq> coPublicKey c" "coPublicKey ` set (ppOutputCoins p) \<subseteq> {coPublicKey c, pk}"
    "pk \<in> coPublicKey ` set (ppOutputCoins p)" "a = CalculateTxValue tx"
proof -
  have f: "filter (\<lambda>r. fst r \<noteq> coPublicKey c) (GetReceivers tx) = [(pk, a)]"
    using unique_receiver_True u by (simp add: GetUniqueReceiver_def p i)
  have "set (filter (\<lambda>r. fst r \<noteq> coPublicKey c) (GetReceivers tx)) = {(pk, a)}" by (simp add: f)
  then have s: "(k, v) \<in> set (GetReceivers tx) \<and> k \<noteq> coPublicKey c \<longleftrightarrow> k = pk \<and> v = a" for k v
    by (auto simp: set_eq_iff)
  show ne: "pk \<noteq> coPublicKey c" using s by blast
  show inn: "pk \<in> coPublicKey ` set (ppOutputCoins p)" using s [of pk a] GetReceivers_iff [OF p] by blast
  have a: "a = paid_to pk (ppOutputCoins p)" using s [of pk a] GetReceivers_iff [OF p] by blast
  show sub: "coPublicKey ` set (ppOutputCoins p) \<subseteq> {coPublicKey c, pk}"
    using s GetReceivers_iff [OF p] by blast
  have "filter (\<lambda>o'. coPublicKey c \<noteq> coPublicKey o') (ppOutputCoins p) =
        filter (\<lambda>o'. coPublicKey o' = pk) (ppOutputCoins p)"
    using sub ne by (auto intro!: filter_cong)
  moreover obtain o1 os where "ppOutputCoins p = o1 # os" using inn by (cases "ppOutputCoins p") auto
  ultimately show "a = CalculateTxValue tx"
    unfolding CalculateTxValue_def p option.case i a paid_to_def fold_skip_sum by simp
qed

text \<open>
  What a transaction pays: \<open>GetReceivers\<close> lists each receiving key once, with everything
  the outputs pay to it; and when \<open>GetUniqueReceiver\<close> says there is exactly one receiver
  beside the sender, every output goes to that key or back to the sender, and the amount it
  returns is the value of the transaction.
\<close>

theorem receivers_correct:
  assumes p: "txProof tx = Some p"
  shows "distinct (map fst (GetReceivers tx)) \<and>
    set (GetReceivers tx) = (\<lambda>pk. (pk, paid_to pk (ppOutputCoins p))) ` coPublicKey ` set (ppOutputCoins p) \<and>
    (\<forall>c cs pk a. ppInputCoins p = c # cs \<longrightarrow> GetUniqueReceiver tx = (True, pk, a) \<longrightarrow>
       pk \<noteq> coPublicKey c \<and> coPublicKey ` set (ppOutputCoins p) \<subseteq> {coPublicKey c, pk} \<and>
       pk \<in> coPublicKey ` set (ppOutputCoins p) \<and> a = CalculateTxValue tx)"
proof (intro conjI allI impI)
  show "distinct (map fst (GetReceivers tx))" by (rule GetReceivers_distinct)
  show "set (GetReceivers tx) = (\<lambda>pk. (pk, paid_to pk (ppOutputCoins p))) ` coPublicKey ` set (ppOutputCoins p)"
    by (auto simp: GetReceivers_iff [OF p])
next
  fix c cs pk a
  assume "ppInputCoins p = c # cs" "GetUniqueReceiver tx = (True, pk, a)"
  from unique_receiver_value [OF p this]
  show "pk \<noteq> coPublicKey c" "coPublicKey ` set (ppOutputCoins p) \<subseteq> {coPublicKey c, pk}"
    "pk \<in> coPublicKey ` set (ppOutputCoins p)" "a = CalculateTxValue tx" .
qed

theorem receivers_correct_witness:
  "let tx = sample_tx [sample_coin [1] [11] 9] [sample_coin [2] [] 3, sample_coin [1] [] 4, sample_coin [2] [] 2]
   in distinct (map fst (GetReceivers tx)) \<and> CalculateTxValue tx = 5"
proof -
  let ?tx = "sample_tx [sample_coin [1] [11] 9] [sample_coin [2] [] 3, sample_coin [1] [] 4, sample_coin [2] [] 2]"
  obtain p where p: "txProof ?tx = Some p" by (simp add: sample_tx_def)
  have "GetUniqueReceiver ?tx = (True, [2], 5)"
    by (simp add: GetUniqueReceiver_def unique_receiver_def GetReceivers_def sample_tx_defs)
  moreover have "ppInputCoins p = sample_coin [1] [11] 9 # []" using p by (auto simp: sample_tx_def)
  ultimately show ?thesis using receivers_correct [OF p] unfolding Let_def by metis
qed

section \<open>Staking\<close>

text \<open>
  When the metadata of a staking transaction that spends coins finds it sane, the transaction
  is not private, every output goes back to the sender or to the burning account, and what it
  burns is the amount of its kind, 1 for a shard and 2 for the beacon.
\<close>

lemma staking_sanity_burns:
  assumes p: "txProof (baseTx t) = Some p" and i: "ppInputCoins p = c # cs"
    and b: "burningPk \<noteq> []"
    and k: "Staking_ValidateMetadataByItself sm"
    and ok: "Staking_ValidateSanityData burningPk sm t = (True, True, noErr)"
  shows "\<not> IsPrivacy t \<and> IsCoinsBurning burningPk (baseTx t) \<and>
    CalculateTxValue (baseTx t) = (if meType sm = ShardStakingMeta then 1 else 2)"
proof -
  obtain a where u: "GetUniqueReceiver (baseTx t) = (True, burningPk, a)"
    and priv: "\<not> IsPrivacy t"
    and am: "meType sm = ShardStakingMeta \<longrightarrow> a = 1" "meType sm = BeaconStakingMeta \<longrightarrow> a = 2"
    using ok unfolding Staking_ValidateSanityData_def
    by (auto simp: STAKE_SHARD_AMOUNT_def STAKE_BEACON_AMOUNT_def split: prod.splits if_splits)
  note r = unique_receiver_value [OF p i u]
  obtain o1 os where o1: "ppOutputCoins p = o1 # os" using r(3) by (cases "ppOutputCoins p") auto
  have "IsCoinsBurning burningPk (baseTx t)"
    using r(2) by (auto simp: IsCoinsBurning_def p i o1 list_ex_iff)
  moreover have "a = (if meType sm = ShardStakingMeta then 1 else 2)"
    using k am by (auto simp: Staking_ValidateMetadataByItself_def split: if_splits)
  ultimately show ?thesis using priv r(4) by simp
qed

text \<open>
  A key that already stakes is refused: the staking metadata lets a transaction continue
  exactly when the sender's key is in none of the committees, pending lists and candidate
  lists of the beacon best state.
\<close>

theorem staking_new_key_only:
  "Staking_ValidateTxWithBlockChain sha (SC, SPV, BC, BPV, CBC, CBN, CSC, CSN) t = (True, True) \<longleftrightarrow>
   Base58Check_Encode sha (txSigPubKey (baseTx t)) 0 \<notin>
     (\<Union> (set ` set SC)) \<union> (\<Union> (set ` set SPV)) \<union> set BC \<union> set BPV \<union> set CBC \<union> set CBN \<union> set CSC \<union> set CSN"
proof -
  have nil: "fold GetValidStaker cs [] = []" for cs by (induction cs) (simp_all add: GetValidStaker_def)
  have hd: "GetValidStaker c [x] = (if x \<in> set c then [] else [x])" for c x
    by (auto simp: GetValidStaker_def list_ex_iff)
  have one: "fold GetValidStaker cs [x] = (if x \<in> \<Union> (set ` set cs) then [] else [x])" for cs x
    by (induction cs) (simp_all add: hd nil)
  have nil1: "GetValidStaker c [] = []" for c by (simp add: GetValidStaker_def)
  show ?thesis by (auto simp: Staking_ValidateTxWithBlockChain_def Let_def one nil nil1 hd)
qed

end
