(* ===== verification/Chain_Types.thy ===== *)
theory Chain_Types
  imports Const_Prelude
begin

text \<open>
  The block structures of \<open>src/blockchain\<close>: beacon blocks, shard headers, and the
  two blocks a shard sends to other chains (shard-to-beacon and cross-shard).
  A Go struct is a record with the same fields, in the same order; a Go map is a
  partial function. The payload types the chain code only passes on (output coins,
  token data, payment addresses) are type parameters or are carried as their bytes.
\<close>

section \<open>Beacon blocks (beaconblock.go)\<close>

record ShardState =
  ssHeight :: u64
  ssHash :: hash
  ssCrossShard :: "u8 list"

record BeaconBody =
  ShardStates :: "u8 \<rightharpoonup> ShardState list"
  bbInstructions :: "string list list"

record BeaconHeader =
  bhProducer :: string
  bhVersion :: int
  bhHeight :: u64
  bhEpoch :: u64
  bhRound :: int
  bhTimestamp :: int
  bhPrevBlockHash :: hash
  bhValidatorsRoot :: hash
  bhBeaconCandidateRoot :: hash
  bhShardCandidateRoot :: hash
  bhShardValidatorsRoot :: hash
  bhShardStateHash :: hash
  bhInstructionHash :: hash

record BeaconBlock =
  bAggregatedSig :: string
  bR :: string
  bValidatorsIdx :: "int list list"
  bProducerSig :: string
  bBody :: BeaconBody
  bHeader :: BeaconHeader

section \<open>Shard headers and the blocks that carry them (shardheader.go, shardblock.go)\<close>

record ShardHeader =
  shProducerAddress :: string
  shProducer :: string
  shShardID :: u8
  shVersion :: int
  shPrevBlockHash :: hash
  shHeight :: u64
  shRound :: int
  shEpoch :: u64
  shTimestamp :: int
  shTxRoot :: hash
  shShardTxRoot :: hash
  shCrossOutputCoinRoot :: hash
  shInstructionsRoot :: hash
  shCommitteeRoot :: hash
  shPendingValidatorRoot :: hash
  shCrossShards :: "u8 list"
  shBeaconHeight :: u64
  shBeaconHash :: hash

text \<open>\<open>'body\<close> is \<open>ShardBody\<close>, which the pools never open.\<close>

record 'body ShardBlock =
  sAggregatedSig :: string
  sR :: string
  sValidatorsIdx :: "int list list"
  sProducerSig :: string
  sBody :: 'body
  sHeader :: ShardHeader

record ShardToBeaconBlock =
  tbAggregatedSig :: string
  tbR :: string
  tbValidatorsIdx :: "int list list"
  tbProducerSig :: string
  tbInstructions :: "string list list"
  tbHeader :: ShardHeader

text \<open>\<open>'coin\<close> and \<open>'tok\<close> are \<open>privacy.OutputCoin\<close> and \<open>transaction.TxTokenData\<close>.\<close>

record ('coin, 'tok) CrossShardBlock =
  csAggregatedSig :: string
  csR :: string
  csValidatorsIdx :: "int list list"
  csProducerSig :: string
  csHeader :: ShardHeader
  csToShardID :: u8
  csMerklePathShard :: "hash list"
  csCrossOutputCoin :: "'coin list"
  csCrossTxTokenData :: "'tok list"

end
