(* ===== verification/Merkle_Root.thy ===== *)
theory Merkle_Root
  imports Transaction Chain_Types "HOL-Library.AList" "HOL-Library.List_Lexorder" "HOL-Library.Char_ord"
begin

unbundle bit_operations_syntax

text \<open>
  Merkle trees and block hashes (\<open>src/blockchain/merkle.go\<close>, \<open>hash_utils.go\<close>, the hashes
  of \<open>shardbody.go\<close>, \<open>shardheader.go\<close> and \<open>beaconblock.go\<close>, the root of the cross shard coins in
  \<open>shardutils.go\<close>). SHA-256 is the field \<open>ceSha256\<close> of the
  environment; \<open>ob\<close> gives the bytes of an output coin. A panic is \<open>None\<close>.
\<close>

section \<open>merkle.go\<close>

text \<open>\<open>uint(math.Log2(float64(n)))\<close>, exact for every length a slice can have.\<close>

fun floor_log2 :: "nat \<Rightarrow> nat" where
  "floor_log2 n = (if n < 2 then 0 else floor_log2 (n div 2) + 1)"

declare floor_log2.simps [simp del]

definition nextPowerOfTwo :: "nat \<Rightarrow> nat" where
  "nextPowerOfTwo n = (if n AND (n - 1) = 0 then n else 2 ^ (floor_log2 n + 1))"

definition hashMerkleBranches :: "'db ChainEnv \<Rightarrow> hash \<Rightarrow> hash \<Rightarrow> hash" where
  "hashMerkleBranches e left right = DoubleHashH e (left @ right)"

text \<open>The three cases of the loop body; \<open>None\<close> is the nil node.\<close>

fun parent_node :: "'db ChainEnv \<Rightarrow> hash option \<Rightarrow> hash option \<Rightarrow> hash option" where
  "parent_node e None r = None"
| "parent_node e (Some l) None = Some (hashMerkleBranches e l l)"
| "parent_node e (Some l) (Some r) = Some (hashMerkleBranches e l r)"

function merkle_fill :: "'db ChainEnv \<Rightarrow> nat \<Rightarrow> nat \<Rightarrow> hash option list \<Rightarrow> hash option list" where
  "merkle_fill e i offset merkles =
    (if i < length merkles - 1
     then merkle_fill e (i + 2) (offset + 1) (merkles[offset := parent_node e (merkles ! i) (merkles ! (i + 1))])
     else merkles)"
  by auto

termination
  by (relation "measure (\<lambda>(e, i, offset, merkles). length merkles - i)") auto

declare merkle_fill.simps [simp del]

text \<open>The argument is the list of the transactions' hashes.\<close>

definition BuildMerkleTreeStore :: "'db ChainEnv \<Rightarrow> hash list \<Rightarrow> hash option list" where
  "BuildMerkleTreeStore e hs =
    (if length hs = 0 then []
     else
       (let nextPoT = nextPowerOfTwo (length hs);
            arraySize = nextPoT * 2 - 1;
            merkles = map Some hs @ replicate (arraySize - length hs) None
        in merkle_fill e 0 nextPoT merkles))"

text \<open>\<open>copy\<close> fills as much of the array as there is.\<close>

definition BuildMerkleTreeOfHashs :: "'db ChainEnv \<Rightarrow> hash option list \<Rightarrow> hash option list" where
  "BuildMerkleTreeOfHashs e shardsHash =
    (let nextPoT = nextPowerOfTwo MAX_SHARD_NUMBER;
         arraySize = nextPoT * 2 - 1;
         merkles = take arraySize shardsHash @ replicate (arraySize - length shardsHash) None
     in merkle_fill e 0 nextPoT merkles)"

definition VerifyMerkleRootOfHashs :: "'db ChainEnv \<Rightarrow> hash option list \<Rightarrow> hash \<Rightarrow> bool option" where
  "VerifyMerkleRootOfHashs e merkleTree merkleRoot =
     map_option (\<lambda>tempRoot. tempRoot = merkleRoot) (last (BuildMerkleTreeOfHashs e merkleTree))"

definition CalcMerkleRoot :: "'db ChainEnv \<Rightarrow> hash list \<Rightarrow> hash option" where
  "CalcMerkleRoot e hs =
    (if length hs = 0 then Some (replicate HashSize 0) else last (BuildMerkleTreeStore e hs))"

section \<open>hash_utils.go\<close>

definition GenerateZeroValueHash :: hash where
  "GenerateZeroValueHash = replicate HashSize 0"

definition GenerateHashFromStringArray :: "'db ChainEnv \<Rightarrow> string list \<Rightarrow> hash" where
  "GenerateHashFromStringArray e strs =
    (if length strs = 0 then GenerateZeroValueHash else ceSha256 e (str_bytes (concat strs)))"

definition GenerateHashFromHashArray :: "'db ChainEnv \<Rightarrow> hash list \<Rightarrow> hash" where
  "GenerateHashFromHashArray e hashes =
    (if length hashes = 0 then GenerateZeroValueHash else GenerateHashFromStringArray e (map Hash_String hashes))"

text \<open>The lists of a map from shard numbers, joined in the order of the keys.\<close>

definition concat_by_key :: "(u8 \<times> 'a list) list \<Rightarrow> 'a list" where
  "concat_by_key m = concat (map (\<lambda>k. case map_of m k of None \<Rightarrow> [] | Some l \<Rightarrow> l) (sort (map fst m)))"

definition GenerateHashFromMapByteString ::
  "'db ChainEnv \<Rightarrow> (u8 \<times> string list) list \<Rightarrow> (u8 \<times> string list) list \<Rightarrow> hash" where
  "GenerateHashFromMapByteString e maps1 maps2 =
     GenerateHashFromStringArray e (concat_by_key maps1 @ concat_by_key maps2)"

text \<open>\<open>json.Marshal\<close> of a byte slice is its base64 text in quotes, or null; it is the argument \<open>js\<close>.\<close>

definition shard_state_text :: "(u8 list \<Rightarrow> string) \<Rightarrow> ShardState \<Rightarrow> string" where
  "shard_state_text js s = Itoa (sint (ssHeight s)) @ Hash_String (ssHash s) @ js (ssCrossShard s)"

definition GenerateHashFromShardState ::
  "'db ChainEnv \<Rightarrow> (u8 list \<Rightarrow> string) \<Rightarrow> (u8 \<times> ShardState list) list \<Rightarrow> hash" where
  "GenerateHashFromShardState e js allShardState =
     GenerateHashFromStringArray e
       (map (\<lambda>k. case map_of allShardState k of None \<Rightarrow> [] | Some l \<Rightarrow> concat (map (shard_state_text js) l))
         (sort (map fst allShardState)))"

definition VerifyHashFromStringArray :: "'db ChainEnv \<Rightarrow> string list \<Rightarrow> hash \<Rightarrow> bool" where
  "VerifyHashFromStringArray e strs h = (GenerateHashFromStringArray e strs = h)"

definition VerifyHashFromHashArray :: "'db ChainEnv \<Rightarrow> hash list \<Rightarrow> hash \<Rightarrow> bool" where
  "VerifyHashFromHashArray e hashes h = VerifyHashFromStringArray e (map Hash_String hashes) h"

definition VerifyHashFromMapByteString ::
  "'db ChainEnv \<Rightarrow> (u8 \<times> string list) list \<Rightarrow> (u8 \<times> string list) list \<Rightarrow> hash \<Rightarrow> bool" where
  "VerifyHashFromMapByteString e maps1 maps2 h = (GenerateHashFromMapByteString e maps1 maps2 = h)"

definition VerifyHashFromShardState ::
  "'db ChainEnv \<Rightarrow> (u8 list \<Rightarrow> string) \<Rightarrow> (u8 \<times> ShardState list) list \<Rightarrow> hash \<Rightarrow> bool" where
  "VerifyHashFromShardState e js allShardState h = (GenerateHashFromShardState e js allShardState = h)"

text \<open>The error branches of \<open>VerifyRootHashFromStringArray\<close> answer false, \<open>Some False\<close>; a panic is \<open>None\<close>.\<close>

definition VerifyRootHashFromStringArray :: "'db ChainEnv \<Rightarrow> string list \<Rightarrow> string list \<Rightarrow> hash \<Rightarrow> bool option" where
  "VerifyRootHashFromStringArray e strs1 strs2 h =
    (case ConvertArrayStringToArrayHash strs1 of
       Inl _ \<Rightarrow> Some False
     | Inr hashes1 \<Rightarrow>
         (case ConvertArrayStringToArrayHash strs2 of
            Inl _ \<Rightarrow> Some False
          | Inr hashes2 \<Rightarrow>
              (let merkleTree = BuildMerkleTreeOfHashs e (map Some hashes1 @ map Some hashes2)
               in VerifyMerkleRootOfHashs e merkleTree h)))"

section \<open>Block headers\<close>

text \<open>Go turns a byte into the UTF-8 text of that code point.\<close>

definition rune_string :: "u8 \<Rightarrow> string" where
  "rune_string b =
    (if unat b < 128 then [char_of (unat b)]
     else [char_of (192 + unat b div 64), char_of (128 + unat b mod 64)])"

definition ShardHeader_String :: "ShardHeader \<Rightarrow> string" where
  "ShardHeader_String h =
     shProducerAddress h @ shProducer h @ rune_string (shShardID h) @ Itoa (shVersion h) @
     Hash_String (shPrevBlockHash h) @ FormatUint (shHeight h) @ Itoa (shRound h) @ FormatUint (shEpoch h) @
     Itoa (shTimestamp h) @ Hash_String (shTxRoot h) @ Hash_String (shShardTxRoot h) @
     Hash_String (shCrossOutputCoinRoot h) @ Hash_String (shInstructionsRoot h) @ Hash_String (shCommitteeRoot h) @
     Hash_String (shPendingValidatorRoot h) @ Hash_String (shBeaconHash h) @ FormatUint (shBeaconHeight h) @
     concat (map rune_string (shCrossShards h))"

definition ShardHeader_Hash :: "'db ChainEnv \<Rightarrow> ShardHeader \<Rightarrow> hash" where
  "ShardHeader_Hash e h = HashH e (str_bytes (ShardHeader_String h))"

definition BeaconHeader_toString :: "BeaconHeader \<Rightarrow> string" where
  "BeaconHeader_toString h =
     bhProducer h @ Itoa (bhVersion h) @ FormatUint (bhHeight h) @ FormatUint (bhEpoch h) @ Itoa (bhRound h) @
     Itoa (bhTimestamp h) @ Hash_String (bhPrevBlockHash h) @ Hash_String (bhValidatorsRoot h) @
     Hash_String (bhBeaconCandidateRoot h) @ Hash_String (bhShardCandidateRoot h) @
     Hash_String (bhShardValidatorsRoot h) @ Hash_String (bhShardStateHash h) @ Hash_String (bhInstructionHash h)"

definition BeaconHeader_Hash :: "'db ChainEnv \<Rightarrow> BeaconHeader \<Rightarrow> hash" where
  "BeaconHeader_Hash e h = DoubleHashH e (str_bytes (BeaconHeader_toString h))"

section \<open>shardbody.go\<close>

record CrossOutputCoin =
  cocBlockHeight :: u64
  cocBlockHash :: hash
  cocOutputCoin :: "Coin list"

record ShardBody =
  sbInstructions :: "string list list"
  sbCrossOutputCoin :: "(u8 \<times> CrossOutputCoin list) list"
  sbTransactions :: "Transaction list"

definition CrossOutputCoin_Hash :: "'db ChainEnv \<Rightarrow> (Coin \<Rightarrow> bytes) \<Rightarrow> CrossOutputCoin \<Rightarrow> hash" where
  "CrossOutputCoin_Hash e ob c = DoubleHashH e (cocBlockHash c @ concat (map ob (cocOutputCoin c)))"

definition ShardBody_Hash :: "'db ChainEnv \<Rightarrow> (Coin \<Rightarrow> bytes) \<Rightarrow> ShardBody \<Rightarrow> hash option" where
  "ShardBody_Hash e ob b =
    (case those (map (Transaction_Hash e) (sbTransactions b)) of
       None \<Rightarrow> None
     | Some hs \<Rightarrow>
         Some (HashH e (str_bytes (concat (concat (sbInstructions b))) @
           concat (map (\<lambda>c. str_bytes (FormatUint (cocBlockHeight c)) @ cocBlockHash c @ concat (map ob (cocOutputCoin c)))
             (concat_by_key (sbCrossOutputCoin b))) @
           concat hs)))"

definition CalcMerkleRootTx :: "'db ChainEnv \<Rightarrow> ShardBody \<Rightarrow> hash option" where
  "CalcMerkleRootTx e b =
    (case those (map (Transaction_Hash e) (sbTransactions b)) of
       None \<Rightarrow> None
     | Some hs \<Rightarrow> if hs = [] then None else last (BuildMerkleTreeStore e hs))"

definition ExtractIncomingCrossShardMap :: "ShardBody \<Rightarrow> (u8 \<times> hash list) list" where
  "ExtractIncomingCrossShardMap b =
     map (\<lambda>(s, cs). (s, map cocBlockHash cs)) (filter (\<lambda>(s, cs). cs \<noteq> []) (sbCrossOutputCoin b))"

definition CreateMerkleCrossOutputCoin :: "'db ChainEnv \<Rightarrow> (Coin \<Rightarrow> bytes) \<Rightarrow> (u8 \<times> CrossOutputCoin list) list \<Rightarrow> hash option" where
  "CreateMerkleCrossOutputCoin e ob crossOutputCoins =
    (if length crossOutputCoins = 0 then Some GenerateZeroValueHash
     else last (BuildMerkleTreeOfHashs e (map (\<lambda>c. Some (CrossOutputCoin_Hash e ob c)) (concat_by_key crossOutputCoins))))"

text \<open>\<open>IsEqual\<close> with a nil root is false.\<close>

definition VerifyMerkleCrossOutputCoin ::
  "'db ChainEnv \<Rightarrow> (Coin \<Rightarrow> bytes) \<Rightarrow> (u8 \<times> CrossOutputCoin list) list \<Rightarrow> hash \<Rightarrow> bool" where
  "VerifyMerkleCrossOutputCoin e ob crossOutputCoins rootHash =
     Hash_IsEqual (Some rootHash) (CreateMerkleCrossOutputCoin e ob crossOutputCoins)"


section \<open>multisigs.go\<close>

text \<open>The first statement of \<open>ValidateAggSignature\<close> returns nil; what follows it is dead code.\<close>

definition ValidateAggSignature :: "int list list \<Rightarrow> string list \<Rightarrow> string \<Rightarrow> string \<Rightarrow> hash \<Rightarrow> bool" where
  "ValidateAggSignature validatorIdx committees aggSig R blockHash = True"

section \<open>The tree against its recursive reading\<close>

text \<open>A level of the tree from the one below, an odd last node paired with itself.\<close>

fun pair_up :: "('a \<Rightarrow> 'a \<Rightarrow> 'a) \<Rightarrow> 'a list \<Rightarrow> 'a list" where
  "pair_up h [] = []"
| "pair_up h [x] = [h x x]"
| "pair_up h (x # y # zs) = h x y # pair_up h zs"

lemma length_pair_up [simp]: "length (pair_up h xs) = (length xs + 1) div 2"
  by (induction h xs rule: pair_up.induct) auto

function merkle_root :: "('a \<Rightarrow> 'a \<Rightarrow> 'a) \<Rightarrow> 'a list \<Rightarrow> 'a option" where
  "merkle_root h [] = None"
| "merkle_root h [x] = Some x"
| "merkle_root h (x # y # zs) = merkle_root h (pair_up h (x # y # zs))"
  by pat_completeness auto

termination
  by (relation "measure (\<lambda>(h, xs). length xs)") auto

lemma merkle_root_step: "2 \<le> length xs \<Longrightarrow> merkle_root h xs = merkle_root h (pair_up h xs)"
  by (cases "(h, xs)" rule: merkle_root.cases) auto

text \<open>A slot of a level: the nodes, then nil.\<close>

definition slot :: "'a list \<Rightarrow> nat \<Rightarrow> 'a option" where
  "slot xs x = (if x < length xs then Some (xs ! x) else None)"

lemma slot_pair_up:
  "parent_node e (slot hs (2 * t)) (slot hs (2 * t + 1)) = slot (pair_up (hashMerkleBranches e) hs) t"
proof (induction "hashMerkleBranches e" hs arbitrary: t rule: pair_up.induct)
  case (3 x y zs)
  show ?case
  proof (cases t)
    case (Suc n)
    then show ?thesis using 3 [of n] by (auto simp: slot_def split: if_splits)
  qed (simp add: slot_def)
qed (auto simp: slot_def)

lemma merkle_fill_length [simp]: "length (merkle_fill e i off M) = length M"
proof (induction e i off M rule: merkle_fill.induct)
  case (1 e i off M)
  then show ?case by (subst merkle_fill.simps) simp
qed

text \<open>Each pass writes one parent and leaves what it has read as it was.\<close>

lemma merkle_fill_parents:
  assumes "length M = 2 * P - 1" "i = 2 * j" "off = P + j"
  shows "(\<forall>m < P + j. merkle_fill e i off M ! m = M ! m) \<and>
    (\<forall>t. j \<le> t \<longrightarrow> t < P - 1 \<longrightarrow> merkle_fill e i off M ! (P + t) =
       parent_node e (merkle_fill e i off M ! (2 * t)) (merkle_fill e i off M ! (2 * t + 1)))"
  using assms
proof (induction e i off M arbitrary: j rule: merkle_fill.induct)
  case (1 e i off M)
  show ?case
  proof (cases "i < length M - 1")
    case False
    then show ?thesis using 1(2-4) by (subst (1 2 3 4) merkle_fill.simps) auto
  next
    case True
    define M' where "M' = M[off := parent_node e (M ! i) (M ! (i + 1))]"
    define R where "R = merkle_fill e (i + 2) (off + 1) M'"
    have step: "merkle_fill e i off M = R"
      using True by (subst merkle_fill.simps) (simp add: R_def M'_def)
    have IH: "\<forall>m < P + Suc j. R ! m = M' ! m"
      "\<forall>t \<ge> Suc j. t < P - 1 \<longrightarrow> R ! (P + t) = parent_node e (R ! (2 * t)) (R ! (2 * t + 1))"
      using 1(1) [OF True, of "Suc j"] 1(2-4) by (auto simp: R_def M'_def)
    have j: "j < P - 1" using True 1(2-4) by simp
    have keep: "\<forall>m < P + j. R ! m = M ! m"
      using IH(1) 1(4) by (simp add: M'_def)
    have new: "R ! (P + j) = parent_node e (M ! (2 * j)) (M ! (2 * j + 1))"
      using IH(1) 1(2-4) j by (simp add: M'_def)
    show ?thesis unfolding step
    proof (intro conjI allI impI)
      fix t assume "j \<le> t" "t < P - 1"
      then show "R ! (P + t) = parent_node e (R ! (2 * t)) (R ! (2 * t + 1))"
        using IH(2) new keep j by (cases "t = j") auto
    qed (use keep in auto)
  qed
qed

text \<open>The upper levels of a tree are the tree of the paired leaves.\<close>

lemma tree_last:
  assumes "length R = 2 * 2 ^ k - 1"
    and "\<And>t. t < 2 ^ k - 1 \<Longrightarrow> R ! (2 ^ k + t) = parent_node e (R ! (2 * t)) (R ! (2 * t + 1))"
    and "\<And>x. x < 2 ^ k \<Longrightarrow> R ! x = slot hs x"
    and "0 < length hs" "length hs \<le> 2 ^ k" "2 ^ k < 2 * length hs"
  shows "last R = merkle_root (hashMerkleBranches e) hs"
  using assms
proof (induction k arbitrary: R hs)
  case 0
  then obtain x where hs: "hs = [x]" by (cases hs) auto
  have "last R = R ! 0" using 0(1) by (cases R) auto
  then show ?case using 0(3) [of 0] hs by (simp add: slot_def)
next
  case (Suc k)
  define hs' where "hs' = pair_up (hashMerkleBranches e) hs"
  define S where "S = drop (2 * 2 ^ k) R"
  have pos: "(1::nat) \<le> 2 ^ k" by simp
  have len: "length S = 2 * 2 ^ k - 1" using Suc.prems(1) by (simp add: S_def)
  have S: "x < 2 * 2 ^ k - 1 \<Longrightarrow> S ! x = R ! (2 * 2 ^ k + x)" for x
    using len by (simp add: S_def)
  obtain m where m: "(2::nat) ^ k = Suc m" using pos by (metis Suc_le_D One_nat_def)
  have "2 * 2 ^ k < length R" using Suc.prems(1) by (simp add: m)
  then have last: "last R = last S" using last_drop [of "2 * 2 ^ k" R] by (simp add: S_def)
  have "last S = merkle_root (hashMerkleBranches e) hs'"
  proof (rule Suc.IH [OF len])
    fix t :: nat assume t: "t < 2 ^ k - 1"
    have "R ! (2 ^ Suc k + (2 ^ k + t)) =
        parent_node e (R ! (2 * (2 ^ k + t))) (R ! (2 * (2 ^ k + t) + 1))"
      by (rule Suc.prems(2)) (use t in simp)
    then show "S ! (2 ^ k + t) = parent_node e (S ! (2 * t)) (S ! (2 * t + 1))"
      using t by (simp add: S algebra_simps)
  next
    fix x :: nat assume x: "x < 2 ^ k"
    have "R ! (2 ^ Suc k + x) = parent_node e (R ! (2 * x)) (R ! (2 * x + 1))"
      by (rule Suc.prems(2)) (use x pos in simp)
    then show "S ! x = slot hs' x"
      using x pos Suc.prems(3) slot_pair_up [of e hs x] by (simp add: S hs'_def)
  qed (use Suc.prems(4-6) in \<open>auto simp: hs'_def\<close>)
  moreover have "2 \<le> length hs" using Suc.prems(6) by (simp add: m)
  ultimately show ?case using last merkle_root_step [of hs] by (simp add: hs'_def)
qed

lemma floor_log2_bounds: "0 < n \<Longrightarrow> 2 ^ floor_log2 n \<le> n \<and> n < 2 ^ (floor_log2 n + 1)"
proof (induction n rule: floor_log2.induct)
  case (1 n)
  show ?case
  proof (cases "n < 2")
    case True
    then show ?thesis using 1(2) by (subst (1 2) floor_log2.simps) auto
  next
    case False
    then have "2 ^ floor_log2 (n div 2) \<le> n div 2 \<and> n div 2 < 2 ^ (floor_log2 (n div 2) + 1)"
      using 1(1) by simp
    then show ?thesis using False by (subst (1 2) floor_log2.simps) auto
  qed
qed

lemma nextPowerOfTwo_power:
  assumes "0 < n"
  obtains k where "nextPowerOfTwo n = 2 ^ k" "n \<le> 2 ^ k" "2 ^ k < 2 * n"
proof (cases "n AND (n - 1) = 0")
  case True
  let ?f = "floor_log2 n"
  have b: "2 ^ ?f \<le> n" "n < 2 * 2 ^ ?f" using floor_log2_bounds [OF assms] by auto
  have "n = 2 ^ ?f"
  proof (rule ccontr)
    assume "n \<noteq> 2 ^ ?f"
    then have "n div 2 ^ ?f = 1" "(n - 1) div 2 ^ ?f = 1"
      using b by (auto intro!: div_nat_eqI)
    then have "bit (n AND (n - 1)) ?f" by (simp only: bit_and_iff) (simp add: bit_iff_odd)
    then show False using True by simp
  qed
  then show ?thesis using that [of ?f] True assms by (simp add: nextPowerOfTwo_def)
next
  case False
  let ?f = "floor_log2 n"
  have b: "2 ^ ?f \<le> n" "n < 2 * 2 ^ ?f" using floor_log2_bounds [OF assms] by auto
  have "n \<noteq> 2 ^ ?f"
  proof
    assume n: "n = 2 ^ ?f"
    then have "n AND (n - 1) = take_bit ?f (2 ^ ?f)"
      by (metis take_bit_eq_mask mask_eq_exp_minus_1 and.commute)
    then show False using False by simp
  qed
  then show ?thesis using that [of "?f + 1"] b False by (simp add: nextPowerOfTwo_def)
qed

lemma BuildMerkleTreeStore_root:
  assumes "hs \<noteq> []"
  shows "last (BuildMerkleTreeStore e hs) = merkle_root (hashMerkleBranches e) hs"
    and "i < length hs \<Longrightarrow> BuildMerkleTreeStore e hs ! i = Some (hs ! i)"
proof -
  obtain k where k: "nextPowerOfTwo (length hs) = 2 ^ k" "length hs \<le> 2 ^ k" "2 ^ k < 2 * length hs"
    using nextPowerOfTwo_power [of "length hs"] assms by auto
  define M where "M = map Some hs @ replicate (2 ^ k * 2 - 1 - length hs) None"
  have len: "length M = 2 * 2 ^ k - 1" using k(2) by (simp add: M_def)
  have pos: "(1::nat) \<le> 2 ^ k" by simp
  define R where "R = merkle_fill e 0 (2 ^ k) M"
  have R: "BuildMerkleTreeStore e hs = R"
    using assms by (simp add: BuildMerkleTreeStore_def k(1) Let_def R_def M_def)
  have keep: "\<forall>m < 2 ^ k. R ! m = M ! m"
    and par: "\<forall>t < 2 ^ k - 1. R ! (2 ^ k + t) = parent_node e (R ! (2 * t)) (R ! (2 * t + 1))"
    using merkle_fill_parents [OF len, of 0 0 "2 ^ k" e] by (auto simp: R_def)
  have slots: "x < 2 ^ k \<Longrightarrow> R ! x = slot hs x" for x
    using keep k(2) by (auto simp: M_def slot_def nth_append)
  show "last (BuildMerkleTreeStore e hs) = merkle_root (hashMerkleBranches e) hs"
    unfolding R by (rule tree_last [of R k]) (use par slots k assms len in \<open>auto simp: R_def\<close>)
  show "i < length hs \<Longrightarrow> BuildMerkleTreeStore e hs ! i = Some (hs ! i)"
    unfolding R using slots [of i] k(2) by (simp add: slot_def)
qed

lemma merkle_root_Some: "xs \<noteq> [] \<Longrightarrow> \<exists>r. merkle_root h xs = Some r"
proof (induction h xs rule: merkle_root.induct)
  case (3 h x y zs)
  then show ?case by simp
qed auto

text \<open>
  C12. \<open>BuildMerkleTreeStore\<close> fills a flat array level by level, with nil in the unused slots;
  its last entry is the root of the recursive reading of a Merkle tree, in which each level pairs
  the nodes of the one below and an odd last node is paired with itself. The array length is
  right for every number of transactions: the root exists for every non-empty list, and the
  leaves are the given hashes.
\<close>

theorem merkle_tree_correct:
  assumes "hs \<noteq> []"
  shows "CalcMerkleRoot e hs = merkle_root (hashMerkleBranches e) hs \<and> CalcMerkleRoot e hs \<noteq> None \<and>
    last (BuildMerkleTreeStore e hs) = CalcMerkleRoot e hs \<and>
    (\<forall>i < length hs. BuildMerkleTreeStore e hs ! i = Some (hs ! i))"
  using BuildMerkleTreeStore_root [OF assms] merkle_root_Some [OF assms] assms
  by (auto simp: CalcMerkleRoot_def)

definition toy_sha :: "bytes \<Rightarrow> bytes" where
  "toy_sha b = replicate 31 0 @ [sum_list b + 1]"

definition sample_env :: "(bytes \<rightharpoonup> bytes) ChainEnv" where
  "sample_env =
     \<lparr>ceSha256 = toy_sha, ceMetaCheckTransactionFee = (\<lambda>_ _ _. True),
      ceMetaValidateSanityData = (\<lambda>_ _. (True, True, True)), ceMetaValidateByItself = (\<lambda>_. True),
      ceMetaValidateTxWithBlockChain = (\<lambda>_ _ _. (True, True)), ceMetaVerifyMultiSigs = (\<lambda>_ _. True),
      ceVerifySig = (\<lambda>_. True), ceMultiSigsRegistration = (\<lambda>_. None), ceVerifyProof = (\<lambda>_ _ _ _. True),
      ceValidateTxSalary = (\<lambda>_. True), ceKeySetVerify = (\<lambda>_ _ _. True), ceGetTransactionByHash = (\<lambda>_. None),
      ceGetCustomTokenTxs = (\<lambda>_. None), ceNow = 0, ceLdb = mem_leveldb, ceDb = Map.empty\<rparr>"

theorem merkle_tree_correct_witness:
  "CalcMerkleRoot sample_env [[1], [2], [3]] =
     Some (hashMerkleBranches sample_env (hashMerkleBranches sample_env [1] [2])
       (hashMerkleBranches sample_env [3] [3]))"
  using merkle_tree_correct [of "[[1], [2], [3]]" sample_env] by simp

section \<open>What the roots commit to\<close>

lemma nextPowerOfTwo_shards [simp]: "nextPowerOfTwo MAX_SHARD_NUMBER = 4"
  by (simp add: nextPowerOfTwo_def MAX_SHARD_NUMBER_def)

lemma list_four: "4 \<le> length xs \<Longrightarrow> \<exists>a b c d ys. xs = a # b # c # d # ys"
  by (auto simp: eval_nat_numeral Suc_le_length_iff)

lemma list_three: "length xs = 3 \<Longrightarrow> \<exists>a b c. xs = [a, b, c]"
  by (auto simp: eval_nat_numeral length_Suc_conv)

lemma BuildMerkleTreeOfHashs_four:
  assumes "take 4 xs = [Some a, Some b, Some c, Some d]"
  shows "last (BuildMerkleTreeOfHashs e xs) =
    Some (hashMerkleBranches e (hashMerkleBranches e a b) (hashMerkleBranches e c d))"
proof -
  have "length (take 4 xs) = 4" using assms by simp
  then have "4 \<le> length xs" by simp
  then obtain ys where xs: "xs = Some a # Some b # Some c # Some d # ys"
    using assms list_four [of xs] by auto
  obtain x y z where "take 7 xs @ replicate (7 - length xs) None = Some a # Some b # Some c # Some d # [x, y, z]"
  proof -
    have "length (take 3 ys @ replicate (3 - length ys) None) = 3" by simp
    then obtain x y z where "take 3 ys @ replicate (3 - length ys) None = [x, y, z]"
      using list_three by blast
    then show ?thesis using that xs by simp
  qed
  then show ?thesis
    by (simp add: BuildMerkleTreeOfHashs_def Let_def merkle_fill.simps [of _ _ _ "_ # _"])
qed

text \<open>
  The tree of \<open>BuildMerkleTreeOfHashs\<close> has as many leaves as there are shards, so the root of
  \<open>CreateMerkleCrossOutputCoin\<close> says nothing of the cross shard coins after the fourth: two blocks
  whose first four incoming cross shard entries agree have the same \<open>CrossOutputCoinRoot\<close>, and
  \<open>VerifyMerkleCrossOutputCoin\<close> takes either list for the other.
\<close>

theorem cross_coin_root_ignores_rest:
  assumes "take 4 (concat_by_key m) = take 4 (concat_by_key m')" "4 \<le> length (concat_by_key m)"
    "m \<noteq> []" "m' \<noteq> []" "length root = HashSize"
  shows "VerifyMerkleCrossOutputCoin e ob m root \<longleftrightarrow> VerifyMerkleCrossOutputCoin e ob m' root"
proof -
  obtain a b c d ys where l: "concat_by_key m = a # b # c # d # ys" using list_four [OF assms(2)] by auto
  let ?h = "\<lambda>c. Some (CrossOutputCoin_Hash e ob c)"
  have "take 4 (map ?h (concat_by_key m)) = map ?h [a, b, c, d]"
    "take 4 (map ?h (concat_by_key m')) = map ?h [a, b, c, d]"
    using assms(1) l by (simp_all add: take_map flip: assms(1))
  then show ?thesis
    using assms(3,4) BuildMerkleTreeOfHashs_four [of "map ?h (concat_by_key m)" _ _ _ _ e]
      BuildMerkleTreeOfHashs_four [of "map ?h (concat_by_key m')" _ _ _ _ e]
    by (simp add: VerifyMerkleCrossOutputCoin_def CreateMerkleCrossOutputCoin_def)
qed

definition sample_cross_coin :: "u8 \<Rightarrow> CrossOutputCoin" where
  "sample_cross_coin x = \<lparr>cocBlockHeight = 1, cocBlockHash = replicate 32 x, cocOutputCoin = []\<rparr>"

theorem cross_coin_root_ignores_rest_witness:
  "VerifyMerkleCrossOutputCoin sample_env coCoinCommitment [(0, map sample_cross_coin [1, 2, 3, 4, 5])] (replicate 32 9) \<longleftrightarrow>
   VerifyMerkleCrossOutputCoin sample_env coCoinCommitment [(0, map sample_cross_coin [1, 2, 3, 4])] (replicate 32 9)"
  by (rule cross_coin_root_ignores_rest) (simp_all add: concat_by_key_def HashSize_def)

text \<open>
  The roots over committees and candidates hash the concatenation of the keys, without
  separators and without the shard numbers: two committee tables give the same root whenever
  their keys, joined in the order of the shards, are the same. Moving a validator from the end of one
  shard's committee to the front of the next shard's is not seen by the root.
\<close>

lemma committee_root_ignores_shards:
  fixes s t :: u8
  assumes "s < t"
  shows "GenerateHashFromMapByteString e [(s, vs @ ws), (t, us)] [(s, zs)] =
         GenerateHashFromMapByteString e [(s, vs), (t, ws @ us)] [(s, zs)]"
  using assms by (simp add: GenerateHashFromMapByteString_def concat_by_key_def order_less_imp_le less_imp_neq [symmetric])

end
