(* ===== verification/Committee.thy ===== *)
theory Committee
  imports Merkle_Root
begin

text \<open>
  The committee rules of the beacon chain (the utilities of \<open>src/blockchain/beaconprocess.go\<close>,
  \<open>CreateSwapAction\<close> of \<open>shardutils.go\<close>): assigning candidates to shards, shuffling, swapping a
  queue of pending validators into a committee, and taking validators off the front of a list. A
  panic is \<open>None\<close>. Go's order of iteration over a map is an argument.
\<close>

section \<open>Strings\<close>

text \<open>\<open>strings.Split\<close> and \<open>strings.Join\<close> with a comma, and \<open>strconv.Atoi\<close>.\<close>

fun Split :: "string \<Rightarrow> string list" where
  "Split [] = [[]]"
| "Split (c # cs) =
    (if c = CHR '','' then [] # Split cs
     else (case Split cs of [] \<Rightarrow> [[c]] | w # ws \<Rightarrow> (c # w) # ws))"

fun Join :: "string list \<Rightarrow> string" where
  "Join [] = []"
| "Join [x] = x"
| "Join (x # y # zs) = x @ CHR '','' # Join (y # zs)"

definition digit :: "char \<Rightarrow> bool" where
  "digit c = (48 \<le> (of_char c :: nat) \<and> (of_char c :: nat) \<le> 57)"

definition digits_value :: "string \<Rightarrow> nat" where
  "digits_value s = foldl (\<lambda>n c. 10 * n + (of_char c - 48)) 0 s"

definition Atoi :: "string \<Rightarrow> int option" where
  "Atoi s =
    (let (neg, ds) = (case s of [] \<Rightarrow> (False, []) | c # cs \<Rightarrow>
           if c = CHR ''-'' then (True, cs) else if c = CHR ''+'' then (False, cs) else (False, s));
         v = (if neg then - int (digits_value ds) else int (digits_value ds))
     in if ds = [] \<or> \<not> list_all digit ds \<or> v < - (2 ^ 63) \<or> v \<ge> 2 ^ 63 then None else Some v)"

section \<open>Assigning candidates\<close>

definition EPOCH :: u64 where "EPOCH = 10"
definition RANDOM_TIME :: u64 where "RANDOM_TIME = 5"
definition OFFSET :: int where "OFFSET = 1"

text \<open>The last byte of the hash modulo the number of shards; zero shards, a division by zero.\<close>

definition calculateCandidateShardID :: "'db ChainEnv \<Rightarrow> string \<Rightarrow> int \<Rightarrow> int \<Rightarrow> u8 option" where
  "calculateCandidateShardID e candidate rand activeShards =
    (if activeShards = 0 then None
     else
       (let h = ceSha256 e (str_bytes (candidate @ Itoa rand))
        in Some (word_of_int (int (unat (last h)) mod \<bar>activeShards\<bar>))))"

fun AssignValidatorShard ::
  "'db ChainEnv \<Rightarrow> (u8 \<rightharpoonup> string list) \<Rightarrow> string list \<Rightarrow> int \<Rightarrow> int \<Rightarrow> (u8 \<rightharpoonup> string list) option" where
  "AssignValidatorShard e currentCandidates [] rand activeShards = Some currentCandidates"
| "AssignValidatorShard e currentCandidates (c # cs) rand activeShards =
    (case calculateCandidateShardID e c rand activeShards of
       None \<Rightarrow> None
     | Some shardID \<Rightarrow>
         AssignValidatorShard e (currentCandidates(shardID \<mapsto> go_get [] currentCandidates shardID @ [c]))
           cs rand activeShards)"

definition AssignValidator :: "'db ChainEnv \<Rightarrow> string list \<Rightarrow> int \<Rightarrow> int \<Rightarrow> (u8 \<rightharpoonup> string list) option" where
  "AssignValidator e candidates rand activeShards =
     AssignValidatorShard e Map.empty candidates rand activeShards"

definition VerifyValidator :: "'db ChainEnv \<Rightarrow> string \<Rightarrow> int \<Rightarrow> u8 \<Rightarrow> int \<Rightarrow> bool option" where
  "VerifyValidator e candidate rand shardID activeShards =
     map_option (\<lambda>res. shardID = res) (calculateCandidateShardID e candidate rand activeShards)"

text \<open>
  \<open>ShuffleCandidate\<close> sorts the hashes and then does not use them: the result is in the order in
  which the map from hashes to candidates is iterated, \<open>iter\<close>.
\<close>

definition shuffle_map :: "'db ChainEnv \<Rightarrow> string list \<Rightarrow> int \<Rightarrow> (bytes \<times> string) list" where
  "shuffle_map e candidates rand =
     fold (\<lambda>c m. AList.update (ceSha256 e (str_bytes (c @ Itoa rand))) c m) candidates []"

definition ShuffleCandidate ::
  "'db ChainEnv \<Rightarrow> ((bytes \<times> string) list \<Rightarrow> (bytes \<times> string) list) \<Rightarrow> string list \<Rightarrow> int \<Rightarrow> string list" where
  "ShuffleCandidate e iter candidates rand = map snd (iter (shuffle_map e candidates rand))"

section \<open>Swapping and removing\<close>

datatype swap_error = SwapZero | NoPending | SwapTooMany

text \<open>
  The five results: the remaining pending validators, the new committee, the validators
  swapped out, the incoming ones, the error. Where the committee is filled up first, the
  incoming list of that step is a new variable of the inner block and is not returned.
\<close>

definition SwapValidator ::
  "string list \<Rightarrow> string list \<Rightarrow> int \<Rightarrow> int \<Rightarrow>
    (string list \<times> string list \<times> string list \<times> string list \<times> swap_error option) option" where
  "SwapValidator pendingValidators currentValidators maxCommittee offset =
    (if maxCommittee < 0 \<or> offset < 0 then None
     else if offset = 0 then Some ([], pendingValidators, currentValidators, [], Some SwapZero)
     else
       (let offset = (if offset > int (length pendingValidators) then int (length pendingValidators) else offset)
        in if offset = 0 then Some (pendingValidators, currentValidators, [], [], Some NoPending)
           else if offset > maxCommittee then Some (pendingValidators, currentValidators, [], [], Some SwapTooMany)
           else
             (let diff = maxCommittee - int (length currentValidators)
              in if int (length currentValidators) < maxCommittee \<and> diff \<ge> offset then
                   Some (drop (nat offset) pendingValidators, currentValidators @ take (nat offset) pendingValidators,
                     [], take (nat offset) pendingValidators, None)
                 else
                   (let (n, pending, current) =
                          (if int (length currentValidators) < maxCommittee
                           then (nat (offset - diff), drop (nat diff) pendingValidators,
                                 currentValidators @ take (nat diff) pendingValidators)
                           else (nat offset, pendingValidators, currentValidators));
                        swapValidator = take n current;
                        current = drop n current @ take n pending
                    in if int (length current) > maxCommittee then None
                       else Some (drop n pending, current, swapValidator, take n pending, None)))))"

datatype remove_error = RemoveTooMany | WrongFormat

fun remove_validators :: "nat \<Rightarrow> string list \<Rightarrow> string list \<Rightarrow> (string list \<times> remove_error option) option" where
  "remove_validators index validators [] = Some (validators, None)"
| "remove_validators index validators (r # rs) =
    (if index \<ge> length validators then None
     else if validators ! index = r then remove_validators (index + 1) (tl validators) rs
     else Some (validators, Some WrongFormat))"

definition RemoveValidator :: "string list \<Rightarrow> string list \<Rightarrow> (string list \<times> remove_error option) option" where
  "RemoveValidator validators removedValidators =
    (if length removedValidators > length validators then Some (validators, Some RemoveTooMany)
     else remove_validators 0 validators removedValidators)"

text \<open>The swap instruction a shard puts into its block, with its own new lists; \<open>Inl\<close> is the error.\<close>

definition CreateSwapAction ::
  "string list \<Rightarrow> string list \<Rightarrow> int \<Rightarrow> u8 \<Rightarrow> (swap_error + string list \<times> string list \<times> string list) option" where
  "CreateSwapAction pendingValidator commitees committeeSize shardID =
    (case SwapValidator pendingValidator commitees committeeSize OFFSET of
       None \<Rightarrow> None
     | Some (newPendingValidator, newShardCommittees, shardSwapedCommittees, shardNewCommittees, err) \<Rightarrow>
         (case err of
            Some x \<Rightarrow> Some (Inl x)
          | None \<Rightarrow>
              Some (Inr ([''swap'', Join shardNewCommittees, Join shardSwapedCommittees, ''shard'', Itoa (int (unat shardID))],
                newPendingValidator, newShardCommittees))))"


section \<open>Split and Join\<close>

lemma Split_nonempty [simp]: "Split s \<noteq> []"
  by (induction s) (auto split: list.splits)

lemma Split_comma_free: "CHR '','' \<notin> set s \<Longrightarrow> Split s = [s]"
  by (induction s) auto

lemma Split_append: "CHR '','' \<notin> set s \<Longrightarrow> Split (s @ CHR '','' # t) = s # Split t"
  by (induction s) auto

lemma Split_Join: "xs \<noteq> [] \<Longrightarrow> \<forall>x \<in> set xs. CHR '','' \<notin> set x \<Longrightarrow> Split (Join xs) = xs"
  by (induction xs rule: Join.induct) (auto simp: Split_comma_free Split_append)

lemma Join_empty: "\<forall>x \<in> set xs. x \<noteq> [] \<Longrightarrow> Join xs = [] \<longleftrightarrow> xs = []"
  by (cases xs rule: Join.cases) auto

lemma digit_char: "k < 10 \<Longrightarrow> digit (char_of (48 + k)) \<and> (of_char (char_of (48 + k) :: char) :: nat) = 48 + k"
  by (simp add: digit_def)

lemma nat_digits_value:
  "list_all digit (nat_digits n) \<and> nat_digits n \<noteq> [] \<and> digits_value (nat_digits n) = n"
proof (induction n rule: nat_digits.induct)
  case (1 n)
  show ?case
  proof (cases "n < 10")
    case True
    then show ?thesis using digit_char [of n] by (simp add: nat_digits.simps digits_value_def)
  next
    case False
    then have e: "nat_digits n = nat_digits (n div 10) @ [char_of (48 + n mod 10)]"
      by (simp add: nat_digits.simps [of n])
    show ?thesis
      unfolding e using False 1 digit_char [of "n mod 10"] by (simp add: digits_value_def)
  qed
qed

lemma nat_digits_hd: "\<exists>c cs. nat_digits n = c # cs \<and> digit c"
  using nat_digits_value [of n] by (cases "nat_digits n") auto

lemma Atoi_Itoa: "0 \<le> i \<Longrightarrow> i < 2 ^ 63 \<Longrightarrow> Atoi (Itoa i) = Some i"
proof -
  assume i: "0 \<le> i" "i < 2 ^ 63"
  obtain c cs where c: "nat_digits (nat i) = c # cs" "digit c" using nat_digits_hd by blast
  have "c \<noteq> CHR ''-''" "c \<noteq> CHR ''+''" using c(2) by (auto simp: digit_def)
  then show ?thesis
    using i nat_digits_value [of "nat i"] c by (simp add: Atoi_def Itoa_def)
qed

section \<open>Swapping\<close>

text \<open>The five results over natural numbers.\<close>

definition swap_spec ::
  "string list \<Rightarrow> string list \<Rightarrow> nat \<Rightarrow> nat \<Rightarrow>
    string list \<times> string list \<times> string list \<times> string list \<times> swap_error option" where
  "swap_spec pend cur n offset =
    (let j = min offset (length pend); diff = n - length cur; k = j - diff
     in if j = 0 then (pend, cur, [], [], Some NoPending)
        else if n < j then (pend, cur, [], [], Some SwapTooMany)
        else (drop j pend, drop k (cur @ take j pend), take k (cur @ take j pend),
              (if k = 0 then take j pend else take k (drop diff pend)), None))"

lemma take_split: "m \<le> j \<Longrightarrow> take j xs = take m xs @ take (j - m) (drop m xs)"
  by (metis le_add_diff_inverse take_add)

lemma SwapValidator_eq:
  assumes "0 < offset" "length cur \<le> n"
  shows "SwapValidator pend cur (int n) (int offset) = Some (swap_spec pend cur n offset)"
proof -
  define j where "j = min offset (length pend)"
  define diff where "diff = n - length cur"
  have off: "(if int offset > int (length pend) then int (length pend) else int offset) = int j"
    by (simp add: j_def)
  have d: "int n - int (length cur) = int diff" using assms(2) by (simp add: diff_def)
  have jl: "j \<le> length pend" by (simp add: j_def)
  consider "j = 0" | "0 < j" "n < j" | "0 < j" "j \<le> n" "j \<le> diff" | "0 < j" "j \<le> n" "diff < j" by linarith
  then show ?thesis
  proof cases
    case 4
    have len: "length cur + diff = n" using assms(2) by (simp add: diff_def)
    have t: "take j pend = take diff pend @ take (j - diff) (drop diff pend)" by (rule take_split) (use 4 in simp)
    have k: "j - diff \<le> length (cur @ take diff pend)" using 4 jl len by simp
    then have c: "drop (j - diff) (cur @ take j pend) = drop (j - diff) (cur @ take diff pend) @ take (j - diff) (drop diff pend)"
      "take (j - diff) (cur @ take j pend) = take (j - diff) (cur @ take diff pend)"
      unfolding t by simp_all
    have lc: "length (drop (j - diff) (cur @ take diff pend) @ take (j - diff) (drop diff pend)) = n"
      using 4 jl len k by simp
    show ?thesis
    proof (cases "diff = 0")
      case True
      then show ?thesis
        using 4 assms lc c unfolding SwapValidator_def swap_spec_def off d j_def [symmetric] diff_def [symmetric] Let_def
        by (simp add: d len)
    next
      case False
      then show ?thesis
        using 4 assms lc c len unfolding SwapValidator_def swap_spec_def off d j_def [symmetric] diff_def [symmetric] Let_def
        by (simp add: nat_diff_distrib)
    qed
  qed (use assms jl in \<open>unfold SwapValidator_def swap_spec_def off d j_def [symmetric] diff_def [symmetric] Let_def,
      auto simp: diff_def\<close>)
qed

text \<open>
  C6. \<open>SwapValidator\<close> treats the two lists as queues. With \<open>j\<close> the smaller of the offset and the number of
  pending validators, it fails exactly when \<open>j\<close> is 0 or larger than the committee, and then changes nothing;
  otherwise the first \<open>j\<close> pending validators join the end of the committee and just as many leave its front as
  are needed to keep it within its size. Nobody is lost or doubled, and the committee does not exceed its size.
\<close>

theorem swap_validator_queues:
  assumes "0 < offset" "length cur \<le> n" "j = min offset (length pend)" "k = j - (n - length cur)"
  shows "\<exists>pend' cur' out inn err.
    SwapValidator pend cur (int n) (int offset) = Some (pend', cur', out, inn, err) \<and>
    (err = None \<longleftrightarrow> 0 < j \<and> j \<le> n) \<and>
    (if err = None
     then pend' = drop j pend \<and> cur' = drop k (cur @ take j pend) \<and> out = take k (cur @ take j pend) \<and>
       mset pend' + mset cur' + mset out = mset pend + mset cur \<and> length cur' \<le> n
     else pend' = pend \<and> cur' = cur)"
proof -
  have ms: "mset (drop j pend) + mset (drop k (cur @ take j pend)) + mset (take k (cur @ take j pend)) = mset pend + mset cur"
    by (metis (no_types, lifting) add.assoc add.commute append_take_drop_id mset_append)
  have "length (drop k (cur @ take j pend)) \<le> n" if "j \<le> n" using that assms by simp
  then show ?thesis
    using ms assms unfolding SwapValidator_eq [OF assms(1,2)] swap_spec_def Let_def assms(3) [symmetric] assms(4) [symmetric]
    by auto
qed

theorem swap_validator_queues_witness:
  "SwapValidator [''p'', ''q''] [''a'', ''b''] 3 2 = Some ([], [''b'', ''p'', ''q''], [''a''], [''q''], None) \<and>
   (\<exists>pend' cur' out inn err. SwapValidator [''p'', ''q''] [''a'', ''b''] 3 2 = Some (pend', cur', out, inn, err) \<and>
      mset pend' + mset cur' + mset out = mset [''p'', ''q''] + mset [''a'', ''b''])"
proof -
  have "SwapValidator [''p'', ''q''] [''a'', ''b''] 3 2 = Some ([], [''b'', ''p'', ''q''], [''a''], [''q''], None)"
    by (simp add: SwapValidator_def)
  moreover have "\<exists>pend' cur' out inn err. SwapValidator [''p'', ''q''] [''a'', ''b''] 3 2 = Some (pend', cur', out, inn, err) \<and>
      mset pend' + mset cur' + mset out = mset [''p'', ''q''] + mset [''a'', ''b'']"
    using swap_validator_queues [of 2 "[''a'', ''b'']" 3 2 "[''p'', ''q'']" 1] by (auto split: if_splits)
  ultimately show ?thesis by blast
qed

text \<open>
  \<open>RemoveValidator\<close> takes a prefix of a list of different validators off its front only when the prefix has
  at most one validator: the loop advances its index and drops the head in the same step, so
  from the second one on it compares with the wrong entry, and fails or runs off the end.
\<close>

theorem remove_validator_one_only:
  assumes "distinct vs" "n \<le> length vs"
  shows "RemoveValidator vs (take n vs) = Some (drop n vs, None) \<longleftrightarrow> n \<le> 1"
proof (cases "n \<le> 1")
  case True
  then show ?thesis using assms(2) by (cases n; cases vs) (auto simp: RemoveValidator_def)
next
  case False
  then obtain m where n: "n = Suc (Suc m)" by (metis One_nat_def le_SucI not_less_eq_eq old.nat.exhaust le0)
  then obtain a b rest where vs: "vs = a # b # rest" using assms(2) by (metis Suc_le_length_iff)
  have "RemoveValidator vs (take n vs) = remove_validators 1 (b # rest) (b # take m rest)"
    using assms(2) by (simp add: RemoveValidator_def vs n)
  then show ?thesis
    using False assms(1) by (cases rest) (auto simp: vs)
qed

theorem remove_validator_one_only_witness:
  "RemoveValidator [''a'', ''b'', ''c''] [''a'', ''b''] \<noteq> Some ([''c''], None)"
  using remove_validator_one_only [of "[''a'', ''b'', ''c'']" 2] by simp

section \<open>Assignment\<close>

lemma AssignValidatorShard_eq:
  "activeShards \<noteq> 0 \<Longrightarrow> \<exists>m'. AssignValidatorShard e m cs rand activeShards = Some m' \<and>
    (\<forall>s. go_get [] m' s = go_get [] m s @ filter (\<lambda>c. VerifyValidator e c rand s activeShards = Some True) cs)"
proof (induction cs arbitrary: m)
  case (Cons c cs)
  then obtain s where s: "calculateCandidateShardID e c rand activeShards = Some s"
    by (auto simp: calculateCandidateShardID_def Let_def)
  show ?case
    using Cons.IH [OF Cons.prems, of "m(s \<mapsto> go_get [] m s @ [c])"] s by (auto simp: VerifyValidator_def simp del: fun_upd_apply)
qed simp

text \<open>
  C8. Every candidate is assigned to exactly one shard, the one \<open>VerifyValidator\<close> confirms, behind the validators
  already pending there and in the order of the candidate list; the shard is below the
  number of active shards.
\<close>

theorem candidates_assigned_once:
  assumes "0 < activeShards" "activeShards \<le> 256"
  shows "\<exists>m'. AssignValidatorShard e m cs rand activeShards = Some m' \<and>
    (\<forall>s. go_get [] m' s = go_get [] m s @ filter (\<lambda>c. VerifyValidator e c rand s activeShards = Some True) cs) \<and>
    (\<forall>c. \<exists>!s. VerifyValidator e c rand s activeShards = Some True \<and> int (unat s) < activeShards)"
proof -
  have one: "\<exists>!s. VerifyValidator e c rand s activeShards = Some True \<and> int (unat s) < activeShards" for c
  proof -
    define v where "v = int (unat (last (ceSha256 e (str_bytes (c @ Itoa rand))))) mod activeShards"
    have v: "0 \<le> v" "v < activeShards" using assms(1) by (simp_all add: v_def)
    have c: "calculateCandidateShardID e c rand activeShards = Some (word_of_int v)"
      using assms(1) by (simp add: calculateCandidateShardID_def v_def)
    have "int (unat (word_of_int v :: u8)) = v"
      using v assms(2) by (simp add: unsigned_of_int take_bit_int_eq_self)
    then show ?thesis using c v by (auto simp: VerifyValidator_def)
  qed
  show ?thesis using AssignValidatorShard_eq [of activeShards e m cs rand] assms(1) one by auto
qed

theorem candidates_assigned_once_witness:
  "\<exists>m'. AssignValidatorShard sample_env Map.empty [''x'', ''y''] 7 4 = Some m' \<and>
     (\<exists>!s. VerifyValidator sample_env ''x'' 7 s 4 = Some True \<and> int (unat s) < 4)"
  using candidates_assigned_once [of 4 sample_env Map.empty "[''x'', ''y'']" 7] by auto

text \<open>
  The order of the beacon candidates after the shuffle is not determined by the random number: two nodes whose
  runtimes iterate a map of two candidates in different orders get different lists.
\<close>

theorem shuffle_depends_on_iteration:
  assumes "ceSha256 e (str_bytes (a @ Itoa rand)) \<noteq> ceSha256 e (str_bytes (b @ Itoa rand))"
  shows "\<exists>iter iter'. (\<forall>m. mset (iter m) = mset m) \<and> (\<forall>m. mset (iter' m) = mset m) \<and>
    ShuffleCandidate e iter [a, b] rand = [a, b] \<and> ShuffleCandidate e iter' [a, b] rand = [b, a]"
proof (intro exI conjI)
  show "ShuffleCandidate e (\<lambda>m. m) [a, b] rand = [a, b]" "ShuffleCandidate e rev [a, b] rand = [b, a]"
    using assms by (auto simp: ShuffleCandidate_def shuffle_map_def)
qed simp_all

theorem shuffle_depends_on_iteration_witness:
  "\<exists>iter iter'. ShuffleCandidate sample_env iter [''x'', ''y''] 7 = [''x'', ''y''] \<and>
     ShuffleCandidate sample_env iter' [''x'', ''y''] 7 = [''y'', ''x'']"
proof -
  have "ceSha256 sample_env (str_bytes (''x'' @ Itoa 7)) \<noteq> ceSha256 sample_env (str_bytes (''y'' @ Itoa 7))"
    by (simp add: sample_env_def toy_sha_def str_bytes_def)
  then show ?thesis using shuffle_depends_on_iteration [of sample_env "''x''" 7 "''y''"] by blast
qed

end
