(* ===== verification/Block_Pool.thy ===== *)
theory Block_Pool
  imports Chain_Types
begin

text \<open>
  The pools of blocks waiting to be inserted in the beacon chain
  (\<open>src/mempool/beacon_pool.go\<close>) and in a shard chain
  (\<open>src/mempool/shard_pool.go\<close>). Both keep a slice of blocks sorted by height and
  the height up to which the pool is known to be gapless. First the loops the two
  files share, over any block type with a height; then each pool with its methods;
  then the locale that states the contract the chain code relies on, interpreted
  for both pools.
\<close>

section \<open>Loops shared by the pool files\<close>

datatype pool_error =
    ReceiveOldBlock | ReceiveDuplicateBlock | ExceedMaxValidPendingBlock | ExceedInvalidPendingBlock

text \<open>The duplicate check: \<open>for _, blkItem := range self.pool { if ... == blkHeight \<dots> }\<close>.\<close>

fun contains_height :: "('b \<Rightarrow> u64) \<Rightarrow> 'b list \<Rightarrow> u64 \<Rightarrow> bool" where
  "contains_height hgt [] h = False"
| "contains_height hgt (b # bs) h = (if hgt b = h then True else contains_height hgt bs h)"

text \<open>
  The capacity check. \<open>int(latest - pool[0].Height)\<close> is a 64-bit subtraction read as a
  signed integer, so it is negative when the pool starts above \<open>latest\<close>; the length
  minus it wraps at 64 bits too. The result is the pool to which the block is appended.
\<close>

definition capacity_check ::
  "int \<Rightarrow> int \<Rightarrow> ('b \<Rightarrow> u64) \<Rightarrow> u64 \<Rightarrow> 'b list \<Rightarrow> u64 \<Rightarrow> pool_error + 'b list" where
  "capacity_check maxValid maxInvalid hgt latest pool blkHeight =
    (if length pool \<noteq> 0 then
       let numValidPedingBlk = sint (latest - hgt (hd pool));
           numInValidPedingBlk = sint (word_of_nat (length pool) - (latest - hgt (hd pool)));
           lastBlkInPool = last pool
       in if numValidPedingBlk > maxValid then Inl ExceedMaxValidPendingBlock
          else if numInValidPedingBlk > maxInvalid then
            (if hgt lastBlkInPool > blkHeight then Inr (butlast pool)
             else Inl ExceedInvalidPendingBlock)
          else Inr pool
     else Inr pool)"

text \<open>\<open>UpdateLatestBeaconState\<close>: a block at or below the running height moves it down.\<close>

fun advance_loop :: "('b \<Rightarrow> u64) \<Rightarrow> u64 \<Rightarrow> 'b list \<Rightarrow> u64" where
  "advance_loop hgt lastHeight [] = lastHeight"
| "advance_loop hgt lastHeight (blk # blks) =
     (if hgt blk > lastHeight \<and> lastHeight + 1 \<noteq> hgt blk then lastHeight
      else advance_loop hgt (hgt blk) blks)"

text \<open>\<open>UpdateLatestShardState\<close> of the shard pool: only the exact successor moves it.\<close>

fun step_loop :: "('b \<Rightarrow> u64) \<Rightarrow> u64 \<Rightarrow> 'b list \<Rightarrow> u64" where
  "step_loop hgt lastHeight [] = lastHeight"
| "step_loop hgt lastHeight (blk # blks) =
     (if lastHeight + 1 \<noteq> hgt blk then lastHeight else step_loop hgt (hgt blk) blks)"

text \<open>
  \<open>RemoveBlock\<close> ranges over the slice with an index; the pool field is replaced by a
  suffix at the first block above the height, or by the empty suffix when the last
  block is reached.
\<close>

fun remove_loop :: "('b \<Rightarrow> u64) \<Rightarrow> u64 \<Rightarrow> nat \<Rightarrow> 'b list \<Rightarrow> 'b list \<Rightarrow> 'b list" where
  "remove_loop hgt lastBlockHeight index [] pool = pool"
| "remove_loop hgt lastBlockHeight index (block # blocks) pool =
     (if hgt block \<le> lastBlockHeight then
        remove_loop hgt lastBlockHeight (Suc index) blocks
          (if index + 1 = length pool then drop (index + 1) pool else pool)
      else drop index pool)"

text \<open>\<open>GetValidBlock\<close>: the blocks up to the first one above the valid height.\<close>

fun valid_loop :: "('b \<Rightarrow> u64) \<Rightarrow> u64 \<Rightarrow> 'b list \<Rightarrow> 'b list \<Rightarrow> 'b list" where
  "valid_loop hgt latest finalBlocks [] = finalBlocks"
| "valid_loop hgt latest finalBlocks (blk # blks) =
     (if hgt blk > latest then finalBlocks else valid_loop hgt latest (finalBlocks @ [blk]) blks)"

text \<open>The loops that collect hashes or heights, and the one that keeps the last height.\<close>

fun last_height_loop :: "('b \<Rightarrow> u64) \<Rightarrow> u64 \<Rightarrow> 'b list \<Rightarrow> u64" where
  "last_height_loop hgt acc [] = acc"
| "last_height_loop hgt acc (blk # blks) = last_height_loop hgt (hgt blk) blks"

section \<open>The beacon pool (beacon_pool.go)\<close>

definition MAX_VALID_BEACON_BLK_IN_POOL :: int where
  "MAX_VALID_BEACON_BLK_IN_POOL = 1000"

definition MAX_INVALID_BEACON_BLK_IN_POOL :: int where
  "MAX_INVALID_BEACON_BLK_IN_POOL = 200"

record BeaconPool =
  bpPool :: "BeaconBlock list"
  bpLatestValidHeight :: u64

abbreviation beaconHeight :: "BeaconBlock \<Rightarrow> u64" where
  "beaconHeight blk \<equiv> bhHeight (bHeader blk)"

definition GetBeaconPool :: "BeaconPool option \<Rightarrow> BeaconPool" where
  "GetBeaconPool beaconPool =
    (case beaconPool of None \<Rightarrow> \<lparr>bpPool = [], bpLatestValidHeight = 1\<rparr> | Some p \<Rightarrow> p)"

definition UpdateLatestBeaconState :: "BeaconPool \<Rightarrow> BeaconPool" where
  "UpdateLatestBeaconState self =
     self\<lparr>bpLatestValidHeight := advance_loop beaconHeight (bpLatestValidHeight self) (bpPool self)\<rparr>"

definition BeaconPool_RemoveBlock :: "BeaconPool \<Rightarrow> u64 \<Rightarrow> BeaconPool" where
  "BeaconPool_RemoveBlock self lastBlockHeight =
     self\<lparr>bpPool := remove_loop beaconHeight lastBlockHeight 0 (bpPool self) (bpPool self)\<rparr>"

definition SetBeaconState :: "BeaconPool \<Rightarrow> u64 \<Rightarrow> BeaconPool" where
  "SetBeaconState self lastestBeaconHeight =
     UpdateLatestBeaconState
       (BeaconPool_RemoveBlock (self\<lparr>bpLatestValidHeight := lastestBeaconHeight\<rparr>)
          lastestBeaconHeight)"

definition InitBeaconPool :: "BeaconPool option \<Rightarrow> u64 \<Rightarrow> BeaconPool" where
  "InitBeaconPool beaconPool bestBeaconHeight =
     SetBeaconState (GetBeaconPool beaconPool) bestBeaconHeight"

definition GetBeaconState :: "BeaconPool \<Rightarrow> u64" where
  "GetBeaconState self = bpLatestValidHeight self"

definition AddBeaconBlock :: "BeaconPool \<Rightarrow> BeaconBlock \<Rightarrow> BeaconPool \<times> pool_error option" where
  "AddBeaconBlock self blk =
    (let blkHeight = beaconHeight blk in
     if blkHeight \<le> bpLatestValidHeight self then (self, Some ReceiveOldBlock)
     else if contains_height beaconHeight (bpPool self) blkHeight
       then (self, Some ReceiveDuplicateBlock)
     else
       (case capacity_check MAX_VALID_BEACON_BLK_IN_POOL MAX_INVALID_BEACON_BLK_IN_POOL
               beaconHeight (bpLatestValidHeight self) (bpPool self) blkHeight of
          Inl e \<Rightarrow> (self, Some e)
        | Inr pool \<Rightarrow>
            (UpdateLatestBeaconState (self\<lparr>bpPool := sort_key beaconHeight (pool @ [blk])\<rparr>), None)))"

definition BeaconPool_GetValidBlock :: "BeaconPool \<Rightarrow> BeaconBlock list" where
  "BeaconPool_GetValidBlock self =
     valid_loop beaconHeight (bpLatestValidHeight self) [] (bpPool self)"

definition BeaconPool_GetValidBlockHash :: "(BeaconBlock \<Rightarrow> hash) \<Rightarrow> BeaconPool \<Rightarrow> hash list" where
  "BeaconPool_GetValidBlockHash blkHash self = map blkHash (BeaconPool_GetValidBlock self)"

definition BeaconPool_GetValidBlockHeight :: "BeaconPool \<Rightarrow> u64 list" where
  "BeaconPool_GetValidBlockHeight self = map beaconHeight (BeaconPool_GetValidBlock self)"

definition BeaconPool_GetLatestValidBlockHeight :: "BeaconPool \<Rightarrow> u64" where
  "BeaconPool_GetLatestValidBlockHeight self =
     last_height_loop beaconHeight 0 (BeaconPool_GetValidBlock self)"

definition BeaconPool_GetAllBlockHeight :: "BeaconPool \<Rightarrow> u64 list" where
  "BeaconPool_GetAllBlockHeight self = map beaconHeight (bpPool self)"

section \<open>The shard pool (shard_pool.go)\<close>

definition MAX_VALID_SHARD_BLK_IN_POOL :: int where
  "MAX_VALID_SHARD_BLK_IN_POOL = 1000"

definition MAX_PENDING_SHARD_BLK_IN_POOL :: int where
  "MAX_PENDING_SHARD_BLK_IN_POOL = 200"

record 'body ShardPool =
  spPool :: "'body ShardBlock list"
  spShardID :: u8
  spLatestValidHeight :: u64

abbreviation shardHeight :: "'body ShardBlock \<Rightarrow> u64" where
  "shardHeight blk \<equiv> shHeight (sHeader blk)"

text \<open>\<open>GetShardPool\<close> returns the pool of a shard, and the map with it entered.\<close>

definition GetShardPool ::
  "(u8 \<rightharpoonup> 'body ShardPool) \<Rightarrow> u8 \<Rightarrow> 'body ShardPool \<times> (u8 \<rightharpoonup> 'body ShardPool)" where
  "GetShardPool shardPoolMap shardID =
    (case shardPoolMap shardID of
       None \<Rightarrow> (let shardPool = \<lparr>spPool = [], spShardID = shardID, spLatestValidHeight = 1\<rparr>
               in (shardPool, shardPoolMap(shardID \<mapsto> shardPool)))
     | Some p \<Rightarrow> (p, shardPoolMap))"

definition ShardPool_UpdateLatestShardState :: "'body ShardPool \<Rightarrow> 'body ShardPool" where
  "ShardPool_UpdateLatestShardState self =
     self\<lparr>spLatestValidHeight := step_loop shardHeight (spLatestValidHeight self) (spPool self)\<rparr>"

definition ShardPool_RemoveBlock :: "'body ShardPool \<Rightarrow> u64 \<Rightarrow> 'body ShardPool" where
  "ShardPool_RemoveBlock self lastBlockHeight =
     self\<lparr>spPool := remove_loop shardHeight lastBlockHeight 0 (spPool self) (spPool self)\<rparr>"

definition ShardPool_SetShardState :: "'body ShardPool \<Rightarrow> u64 \<Rightarrow> 'body ShardPool" where
  "ShardPool_SetShardState self lastestShardHeight =
     ShardPool_UpdateLatestShardState
       (ShardPool_RemoveBlock (self\<lparr>spLatestValidHeight := lastestShardHeight\<rparr>)
          lastestShardHeight)"

definition ShardPool_GetShardState :: "'body ShardPool \<Rightarrow> u64" where
  "ShardPool_GetShardState self = spLatestValidHeight self"

definition AddShardBlock ::
  "'body ShardPool \<Rightarrow> 'body ShardBlock \<Rightarrow> 'body ShardPool \<times> pool_error option" where
  "AddShardBlock self blk =
    (let blkHeight = shardHeight blk in
     if blkHeight \<le> spLatestValidHeight self then (self, Some ReceiveOldBlock)
     else if contains_height shardHeight (spPool self) blkHeight
       then (self, Some ReceiveDuplicateBlock)
     else
       (case capacity_check MAX_VALID_SHARD_BLK_IN_POOL MAX_PENDING_SHARD_BLK_IN_POOL
               shardHeight (spLatestValidHeight self) (spPool self) blkHeight of
          Inl e \<Rightarrow> (self, Some e)
        | Inr pool \<Rightarrow>
            (ShardPool_UpdateLatestShardState
               (self\<lparr>spPool := sort_key shardHeight (pool @ [blk])\<rparr>), None)))"

definition ShardPool_GetValidBlock :: "'body ShardPool \<Rightarrow> 'body ShardBlock list" where
  "ShardPool_GetValidBlock self =
     valid_loop shardHeight (spLatestValidHeight self) [] (spPool self)"

definition ShardPool_GetValidBlockHash ::
  "('body ShardBlock \<Rightarrow> hash) \<Rightarrow> 'body ShardPool \<Rightarrow> hash list" where
  "ShardPool_GetValidBlockHash blkHash self = map blkHash (ShardPool_GetValidBlock self)"

definition ShardPool_GetValidBlockHeight :: "'body ShardPool \<Rightarrow> u64 list" where
  "ShardPool_GetValidBlockHeight self = map shardHeight (ShardPool_GetValidBlock self)"

definition ShardPool_GetLatestValidBlockHeight :: "'body ShardPool \<Rightarrow> u64" where
  "ShardPool_GetLatestValidBlockHeight self =
     last_height_loop shardHeight 0 (ShardPool_GetValidBlock self)"

definition ShardPool_GetAllBlockHeight :: "'body ShardPool \<Rightarrow> u64 list" where
  "ShardPool_GetAllBlockHeight self = map shardHeight (spPool self)"

definition InitShardPool ::
  "(u8 \<rightharpoonup> 'body ShardPool) \<Rightarrow> (u8 \<Rightarrow> u64) \<Rightarrow> (u8 \<rightharpoonup> 'body ShardPool)" where
  "InitShardPool shardPoolMap bestShardHeight =
     fold (\<lambda>i m. let (p, m') = GetShardPool m (word_of_nat i)
                 in m'(word_of_nat i \<mapsto>
                        ShardPool_SetShardState p (bestShardHeight (word_of_nat i))))
       [0..<255] shardPoolMap"

section \<open>What the loops compute\<close>

lemma contains_height_iff [go_simps]: "contains_height hgt bs h \<longleftrightarrow> h \<in> hgt ` set bs"
  by (induction bs) auto

lemma valid_loop_eq [go_simps]:
  "valid_loop hgt latest acc bs = acc @ takeWhile (\<lambda>b. hgt b \<le> latest) bs"
  by (induction bs arbitrary: acc) (auto simp: not_le)

lemma last_height_loop_eq [go_simps]:
  "last_height_loop hgt acc bs = (if bs = [] then acc else hgt (last bs))"
  by (induction bs arbitrary: acc) auto

lemma remove_loop_gen:
  assumes "index + length bs = length pool" "drop index pool = bs"
  shows "remove_loop hgt h index bs pool =
    (if bs = [] then pool else dropWhile (\<lambda>b. hgt b \<le> h) bs)"
  using assms
proof (induction bs arbitrary: index)
  case (Cons b bs)
  from Cons.prems have d: "drop (Suc index) pool = bs"
    by (metis drop_Suc drop_tl list.sel(3))
  show ?case
  proof (cases bs)
    case Nil
    with Cons.prems d show ?thesis by simp
  next
    case (Cons c cs)
    with Cons.prems Cons.IH [of "Suc index"] d show ?thesis by simp
  qed
qed simp

lemma remove_loop_eq [go_simps]:
  "remove_loop hgt h 0 pool pool = dropWhile (\<lambda>b. hgt b \<le> h) pool"
  using remove_loop_gen [of 0 pool pool hgt h] by (cases pool) simp_all

lemma map_dropWhile_hgt: "map f (dropWhile (\<lambda>b. f b \<le> h) bs) = dropWhile (\<lambda>x. x \<le> h) (map f bs)"
  by (induction bs) auto

lemma map_takeWhile_hgt: "map f (takeWhile (\<lambda>b. f b \<le> h) bs) = takeWhile (\<lambda>x. x \<le> h) (map f bs)"
  by (induction bs) auto

lemma advance_loop_map: "advance_loop hgt l bs = advance_loop (\<lambda>x. x) l (map hgt bs)"
  by (induction bs arbitrary: l) auto

lemma step_loop_map: "step_loop hgt l bs = step_loop (\<lambda>x. x) l (map hgt bs)"
  by (induction bs arbitrary: l) auto

section \<open>The pool invariant\<close>

text \<open>
  \<open>pool_inv L hs\<close> for the valid height \<open>L\<close> and the heights \<open>hs\<close> of the pool: the heights
  increase strictly, none is 0, and the valid ones (at most \<open>L\<close>) form a gapless run that
  ends at \<open>L\<close>.
\<close>

definition pool_inv :: "u64 \<Rightarrow> u64 list \<Rightarrow> bool" where
  "pool_inv L hs \<longleftrightarrow>
     sincr hs \<and> 0 \<notin> set hs \<and> consec (filter (\<lambda>h. h \<le> L) hs) \<and>
     (filter (\<lambda>h. h \<le> L) hs \<noteq> [] \<longrightarrow> last (filter (\<lambda>h. h \<le> L) hs) = L)"

lemma pool_invD:
  assumes "pool_inv L hs"
  shows "sincr hs" "0 \<notin> set hs" "consec (filter (\<lambda>h. h \<le> L) hs)"
    "filter (\<lambda>h. h \<le> L) hs \<noteq> [] \<Longrightarrow> last (filter (\<lambda>h. h \<le> L) hs) = L"
  using assms by (simp_all add: pool_inv_def)

lemma pool_inv_empty [simp]: "pool_inv L []"
  by (simp add: pool_inv_def)

lemma sincr_split_le:
  "sincr hs \<Longrightarrow> hs = filter (\<lambda>h. h \<le> (L::u64)) hs @ filter (\<lambda>h. L < h) hs"
  by (metis sincr_takeWhile_le sincr_dropWhile_le takeWhile_dropWhile_id)

text \<open>The advance loop on heights above the start: it follows the longest gapless run.\<close>

lemma advance_loop_above:
  assumes "sincr hs" "\<forall>h \<in> set hs. L < h"
  defines "L' \<equiv> advance_loop (\<lambda>x. x) L hs"
  shows "L \<le> L' \<and> consec (L # filter (\<lambda>h. h \<le> L') hs) \<and>
         last (L # filter (\<lambda>h. h \<le> L') hs) = L' \<and> (L' + 1 \<in> set hs \<longrightarrow> L' + 1 \<le> L')"
  using assms(1,2) unfolding L'_def
proof (induction hs arbitrary: L)
  case (Cons h t)
  show ?case
  proof (cases "L + 1 = h")
    case True
    let ?M = "advance_loop (\<lambda>x. x) h t"
    from Cons.prems have "sincr t" "\<forall>x \<in> set t. h < x" by auto
    from Cons.IH [OF this] have IH: "h \<le> ?M" "consec (h # filter (\<lambda>x. x \<le> ?M) t)"
      "last (h # filter (\<lambda>x. x \<le> ?M) t) = ?M" "?M + 1 \<in> set t \<longrightarrow> ?M + 1 \<le> ?M" by auto
    have Lh: "L < h" using Cons.prems by simp
    have "?M + 1 = h \<longrightarrow> ?M + 1 \<le> ?M" using IH(1) by simp
    then show ?thesis using True IH Lh by auto
  next
    case False
    have Lh: "L < h" using Cons.prems by simp
    have f: "filter (\<lambda>x. x \<le> L) (h # t) = []"
      using Cons.prems by (auto simp: filter_empty_conv not_le)
    have "L + 1 \<notin> set (h # t)"
    proof
      assume "L + 1 \<in> set (h # t)"
      then have "h \<le> L + 1" using Cons.prems by auto
      with Lh False show False using word_between_succ by blast
    qed
    then show ?thesis using False Lh f by simp
  qed
qed simp

lemma advance_loop_run:
  "consec (x # xs) \<Longrightarrow> sincr (x # xs) \<Longrightarrow>
     advance_loop (\<lambda>x. x) x (xs @ ys) = advance_loop (\<lambda>x. x) (last (x # xs)) ys"
  by (induction xs arbitrary: x) auto

text \<open>Under the invariant the valid blocks do not change where the loop ends.\<close>

lemma advance_loop_inv:
  assumes "pool_inv L hs"
  shows "advance_loop (\<lambda>x. x) L hs = advance_loop (\<lambda>x. x) L (filter (\<lambda>h. L < h) hs)"
proof (cases "filter (\<lambda>h. h \<le> L) hs")
  case Nil
  then show ?thesis using sincr_split_le [OF pool_invD(1) [OF assms], of L] by simp
next
  case (Cons v vs)
  let ?r = "filter (\<lambda>h. L < h) hs"
  have hs: "hs = v # vs @ ?r"
    using sincr_split_le [OF pool_invD(1) [OF assms], of L] Cons by simp
  have "v \<in> set (filter (\<lambda>h. h \<le> L) hs)" unfolding Cons by simp
  then have vL: "v \<le> L" by simp
  have "consec (v # vs)" "last (v # vs) = L"
    using pool_invD [OF assms] Cons by simp_all
  moreover have "sincr (v # vs)"
    using pool_invD(1) [OF assms] Cons by (metis sincr_filter)
  ultimately have "advance_loop (\<lambda>x. x) v (vs @ ?r) = advance_loop (\<lambda>x. x) L ?r"
    using advance_loop_run by metis
  moreover have "advance_loop (\<lambda>x. x) L (v # vs @ ?r) = advance_loop (\<lambda>x. x) v (vs @ ?r)"
    using vL by (simp add: not_less [symmetric])
  ultimately show ?thesis using hs by metis
qed

lemma filter_le_split:
  assumes "sincr hs" "(L::u64) \<le> L'"
  shows "filter (\<lambda>h. h \<le> L') hs =
         filter (\<lambda>h. h \<le> L) hs @ filter (\<lambda>h. h \<le> L') (filter (\<lambda>h. L < h) hs)"
proof -
  have "filter (\<lambda>h. h \<le> L') (filter (\<lambda>h. h \<le> L) hs) = filter (\<lambda>h. h \<le> L) hs"
    using assms(2) by (auto intro!: filter_cong)
  then show ?thesis
    using arg_cong [OF sincr_split_le [OF assms(1), of L], of "filter (\<lambda>h. h \<le> L')"]
    by (simp only: filter_append)
qed

text \<open>Advancing keeps the invariant, never moves down, and stops exactly at the first gap.\<close>

lemma pool_inv_advance:
  assumes inv: "pool_inv L hs"
  defines "L' \<equiv> advance_loop (\<lambda>x. x) L hs"
  shows "pool_inv L' hs" "L \<le> L'" "{L<..L'} \<subseteq> set hs" "L' + 1 \<in> set hs \<Longrightarrow> L' + 1 \<le> L'"
proof -
  note D = pool_invD [OF inv]
  let ?vs = "filter (\<lambda>h. h \<le> L) hs" and ?r = "filter (\<lambda>h. L < h) hs"
  have L'_eq: "L' = advance_loop (\<lambda>x. x) L ?r"
    unfolding L'_def by (rule advance_loop_inv [OF inv])
  have "L \<le> L' \<and> consec (L # filter (\<lambda>h. h \<le> L') ?r) \<and>
         last (L # filter (\<lambda>h. h \<le> L') ?r) = L' \<and> (L' + 1 \<in> set ?r \<longrightarrow> L' + 1 \<le> L')"
    unfolding L'_eq by (rule advance_loop_above) (auto intro: sincr_filter D(1))
  then have le: "L \<le> L'" and con: "consec (L # filter (\<lambda>h. h \<le> L') ?r)"
    and la: "last (L # filter (\<lambda>h. h \<le> L') ?r) = L'"
    and stop: "L' + 1 \<in> set ?r \<longrightarrow> L' + 1 \<le> L'" by auto
  show "L \<le> L'" by fact
  have sp: "filter (\<lambda>h. h \<le> L') hs = ?vs @ filter (\<lambda>h. h \<le> L') ?r"
    by (rule filter_le_split [OF D(1) le])
  show "pool_inv L' hs"
    unfolding pool_inv_def sp
    using D con la by (auto simp: consec_append consec_Cons split: if_splits)
  show "L' + 1 \<le> L'" if "L' + 1 \<in> set hs"
  proof (cases "L < L' + 1")
    case True
    with that stop show ?thesis by simp
  next
    case False
    with le show ?thesis by simp
  qed
  have "sincr (L # filter (\<lambda>h. h \<le> L') ?r)"
    using D(1) by (auto intro: sincr_filter)
  from consec_interval [OF con this] la
  have "insert L (set (filter (\<lambda>h. h \<le> L') ?r)) = {L..L'}" by simp
  then have "{L..L'} \<subseteq> insert L (set hs)" by auto
  then show "{L<..L'} \<subseteq> set hs"
  proof (intro subsetI)
    fix x assume sub: "{L..L'} \<subseteq> insert L (set hs)" and "x \<in> {L<..L'}"
    then have "x \<in> {L..L'}" "x \<noteq> L" by auto
    with sub show "x \<in> set hs" by blast
  qed
qed

lemma step_loop_above:
  "sincr hs \<Longrightarrow> \<forall>h \<in> set hs. L < h \<Longrightarrow>
     step_loop (\<lambda>x. x) L hs = advance_loop (\<lambda>x. x) L hs"
  by (induction hs arbitrary: L) auto

text \<open>The shard pool's loop does not move at all once a valid block is in the pool.\<close>

lemma step_loop_stuck:
  assumes "pool_inv L hs" "filter (\<lambda>h. h \<le> L) hs \<noteq> []"
  shows "step_loop (\<lambda>x. x) L hs = L"
proof -
  obtain v vs where v: "filter (\<lambda>h. h \<le> L) hs = v # vs" using assms(2) by (cases "filter (\<lambda>h. h \<le> L) hs") auto
  have "v \<in> set (filter (\<lambda>h. h \<le> L) hs)" unfolding v by simp
  then have "v \<le> L" "v \<noteq> 0" using pool_invD(2) [OF assms(1)] by auto
  then have "L + 1 \<noteq> v" by (metis inc_less_eq_self_iff_eq add.commute add.right_inverse)
  moreover have "\<exists>t. hs = v # t"
    using sincr_split_le [OF pool_invD(1) [OF assms(1)], of L] v by auto
  ultimately show ?thesis by auto
qed

lemma pool_inv_step:
  assumes inv: "pool_inv L hs"
  defines "L' \<equiv> step_loop (\<lambda>x. x) L hs"
  shows "pool_inv L' hs" "L \<le> L'" "{L<..L'} \<subseteq> set hs"
proof -
  consider "filter (\<lambda>h. h \<le> L) hs \<noteq> []" | "\<forall>h \<in> set hs. L < h"
    by (auto simp: filter_empty_conv not_le)
  then have "L' = L \<or> L' = advance_loop (\<lambda>x. x) L hs"
    unfolding L'_def
    by cases (simp_all add: step_loop_stuck [OF inv] step_loop_above [OF pool_invD(1) [OF inv]])
  then show "pool_inv L' hs" "L \<le> L'" "{L<..L'} \<subseteq> set hs"
    using inv pool_inv_advance [OF inv] by auto
qed

text \<open>The edits of the pool list.\<close>

lemma pool_inv_same_valid:
  assumes "pool_inv L hs" "sincr hs'" "0 \<notin> set hs'"
    "set (filter (\<lambda>h. h \<le> L) hs') = set (filter (\<lambda>h. h \<le> L) hs)"
  shows "pool_inv L hs'"
proof -
  have "filter (\<lambda>h. h \<le> L) hs' = filter (\<lambda>h. h \<le> L) hs"
    using assms pool_invD(1) [OF assms(1)] by (intro sincr_unique sincr_filter) auto
  then show ?thesis using assms by (simp add: pool_inv_def)
qed

lemma pool_inv_insert:
  assumes "pool_inv L hs" "L < h" "sincr hs'" "set hs' = insert h (set hs)"
  shows "pool_inv L hs'"
  using assms pool_invD(2) [OF assms(1)]
  by (intro pool_inv_same_valid [OF assms(1)]) auto

lemma pool_inv_butlast:
  assumes "pool_inv L hs" "hs \<noteq> []" "L < last hs"
  shows "pool_inv L (butlast hs)"
  using pool_invD [OF assms(1)] butlast_sincr_filter_le [OF pool_invD(1) [OF assms(1)] assms(2,3)]
  by (auto simp: pool_inv_def sincr_butlast dest: in_set_butlastD)

lemma pool_inv_remove:
  assumes "pool_inv L hs"
  shows "pool_inv L (dropWhile (\<lambda>x. x \<le> h) hs)"
proof -
  note D = pool_invD [OF assms]
  let ?vs = "filter (\<lambda>x. x \<le> L) hs"
  have d: "dropWhile (\<lambda>x. x \<le> h) hs = filter (\<lambda>x. h < x) hs"
    by (rule sincr_dropWhile_le [OF D(1)])
  have "filter (\<lambda>x. x \<le> L) (filter (\<lambda>x. h < x) hs) = dropWhile (\<lambda>x. x \<le> h) ?vs"
    using sincr_dropWhile_le [OF sincr_filter [OF D(1)]] by (simp add: conj_commute)
  moreover have "consec (dropWhile (\<lambda>x. x \<le> h) ?vs)"
    using D(3) consec_suffix [of "takeWhile (\<lambda>x. x \<le> h) ?vs"] by simp
  moreover have "last (dropWhile (\<lambda>x. x \<le> h) ?vs) = L" if "dropWhile (\<lambda>x. x \<le> h) ?vs \<noteq> []"
  proof -
    from that have "?vs \<noteq> []" by force
    then show ?thesis using last_dropWhile_suffix [OF that] D(4) by simp
  qed
  ultimately show ?thesis
    using D unfolding pool_inv_def d by (simp add: sincr_filter)
qed

lemma pool_inv_fresh:
  assumes "sincr hs" "0 \<notin> set hs"
  shows "pool_inv L (dropWhile (\<lambda>x. x \<le> L) hs)"
proof -
  have "filter (\<lambda>x. x \<le> L) (filter (\<lambda>x. L < x) hs) = []"
    by (auto simp: filter_empty_conv not_le)
  then show ?thesis
    using assms unfolding pool_inv_def sincr_dropWhile_le [OF assms(1)] by (simp add: sincr_filter)
qed

section \<open>One accepted block\<close>

lemma capacity_check_Inr:
  "capacity_check mv mi hgt L pool h = Inr pool' \<Longrightarrow>
     pool' = pool \<or> pool \<noteq> [] \<and> h < hgt (last pool) \<and> pool' = butlast pool"
  unfolding capacity_check_def Let_def
  by (simp split: if_split_asm)

lemma capacity_check_cases:
  assumes "capacity_check mv mi hgt L pool h = Inr pool'"
  obtains (keep) "pool' = pool"
    | (evict) "pool \<noteq> []" "h < hgt (last pool)" "pool' = butlast pool"
  using capacity_check_Inr [OF assms] by blast

text \<open>
  The pool after an accepted block: the heights are those kept by the capacity check and
  the new one, sorted again, and the valid blocks are untouched.
\<close>

lemma accept_pool:
  assumes inv: "pool_inv L (map hgt pool)" and new: "L < hgt b" "hgt b \<notin> hgt ` set pool"
    and cap: "capacity_check mv mi hgt L pool (hgt b) = Inr pool'"
  shows "pool_inv L (map hgt (sort_key hgt (pool' @ [b])))"
    and "set (map hgt (sort_key hgt (pool' @ [b]))) = insert (hgt b) (set (map hgt pool'))"
proof -
  show S: "set (map hgt (sort_key hgt (pool' @ [b]))) = insert (hgt b) (set (map hgt pool'))"
    by auto
  have inv': "pool_inv L (map hgt pool')" using cap
  proof (cases rule: capacity_check_cases)
    case evict
    then have "L < last (map hgt pool)" using new(1) by (simp add: last_map)
    with evict(1) have "pool_inv L (butlast (map hgt pool))"
      by (intro pool_inv_butlast [OF inv]) auto
    then show ?thesis using evict by (simp add: map_butlast)
  qed (use inv in simp)
  have "set pool' \<subseteq> set pool" using cap
    by (cases rule: capacity_check_cases) (auto dest: in_set_butlastD)
  then have "distinct (map hgt (pool' @ [b]))"
    using new(2) sincr_distinct [OF pool_invD(1) [OF inv']] by auto
  from sincr_map_sort_key [OF this]
  show "pool_inv L (map hgt (sort_key hgt (pool' @ [b])))"
    by (intro pool_inv_insert [OF inv' new(1) _ S])
qed

text \<open>
  The capacity arithmetic does not wrap around as long as heights stay below \<open>2^62\<close>:
  a pool that takes a block without evicting one holds at most \<open>maxValid + maxInvalid\<close>
  blocks before.
\<close>

definition height_bound :: u64 where
  "height_bound = 2 ^ 62"

lemma height_bound_uint: "x < height_bound \<longleftrightarrow> uint x < 2 ^ 62"
  by (simp add: height_bound_def word_less_def)

lemma sint_of_int64:
  assumes "- (2 ^ 63) \<le> k" "k < 2 ^ 63"
  shows "sint (word_of_int k :: u64) = k"
  using assms by (simp add: sint_sbintrunc' signed_take_bit_int_eq_self)

lemma sint_of_diff:
  fixes x y :: u64
  assumes "uint x < 2 ^ 62" "uint y < 2 ^ 62"
  shows "sint (x - y) = uint x - uint y"
proof -
  have eq: "x - y = word_of_int (uint x - uint y)" by simp
  have "0 \<le> uint x" "0 \<le> uint y" by simp_all
  moreover have "(2::int) ^ 62 = 4611686018427387904" "(2::int) ^ 63 = 9223372036854775808"
    by simp_all
  ultimately have "- (2 ^ 63) \<le> uint x - uint y" "uint x - uint y < 2 ^ 63" using assms by linarith+
  then show ?thesis unfolding eq by (rule sint_of_int64)
qed

lemma sint_of_len_diff:
  fixes x y :: u64
  assumes "uint x < 2 ^ 62" "uint y < 2 ^ 62" "n \<le> 2 ^ 62"
  shows "sint (word_of_nat n - (x - y)) = int n - (uint x - uint y)"
proof -
  have eq: "word_of_nat n - (x - y) = word_of_int (int n - (uint x - uint y))" by simp
  have "0 \<le> uint x" "0 \<le> uint y" by simp_all
  moreover have "(2::int) ^ 62 = 4611686018427387904" "(2::int) ^ 63 = 9223372036854775808"
    and "int n \<le> 2 ^ 62"
    using assms(3) by simp_all
  ultimately have "- (2 ^ 63) \<le> int n - (uint x - uint y)" "int n - (uint x - uint y) < 2 ^ 63" using assms by linarith+
  then show ?thesis unfolding eq by (rule sint_of_int64)
qed

lemma sincr_length_bound:
  assumes "sincr hs" "\<forall>h \<in> set hs. h < height_bound"
  shows "length hs \<le> 2 ^ 62"
proof -
  have "length hs = card (unat ` set hs)"
    using distinct_card [OF sincr_distinct [OF assms(1)]]
    by (metis card_image inj_onI word_eq_iff_unsigned)
  also have "\<dots> \<le> card {..<2 ^ 62 :: nat}"
    using assms(2)
    by (intro card_mono) (auto simp: height_bound_def word_less_nat_alt)
  finally show ?thesis by simp
qed

lemma capacity_check_length:
  assumes cap: "capacity_check mv mi hgt L pool h = Inr pool'"
    and "sincr (map hgt pool)" "\<forall>b \<in> set pool. hgt b < height_bound" "L < height_bound"
    and "0 \<le> mv" "0 \<le> mi" "int (length pool) \<le> mv + mi + 1"
  shows "int (length pool') \<le> mv + mi"
  using cap
proof (cases rule: capacity_check_cases)
  case keep
  show ?thesis
  proof (cases "pool = []")
    case False
    have n: "length pool \<le> 2 ^ 62"
      using sincr_length_bound [OF assms(2)] assms(3) by simp
    have u: "uint L < 2 ^ 62" "uint (hgt (hd pool)) < 2 ^ 62"
      using assms(3,4) False by (simp_all add: height_bound_uint)
    have "butlast pool \<noteq> pool" using False by (metis append_butlast_last_id not_Cons_self2 append_self_conv)
    then show ?thesis
      using cap keep False sint_of_diff [OF u] sint_of_len_diff [OF u n]
      by (auto simp: capacity_check_def Let_def split: if_split_asm)
  qed (use keep assms in simp)
next
  case evict
  then show ?thesis using assms(7) by (cases pool) simp_all
qed

section \<open>The contract of a height pool\<close>

text \<open>
  What the chain code does with a pool: it adds blocks that arrive from the network, it
  sets the height after a block is inserted, and it removes blocks up to a height.
\<close>

datatype ('b, 's) pool_event = EvAdd 'b | EvSet 's | EvRemove 's

fun pool_step ::
  "('p \<Rightarrow> 'b \<Rightarrow> 'p \<times> pool_error option) \<Rightarrow> ('p \<Rightarrow> 's \<Rightarrow> 'p) \<Rightarrow> ('p \<Rightarrow> 's \<Rightarrow> 'p) \<Rightarrow>
   ('b, 's) pool_event \<Rightarrow> 'p \<Rightarrow> 'p" where
  "pool_step add set_state remove (EvAdd b) p = fst (add p b)"
| "pool_step add set_state remove (EvSet h) p = set_state p h"
| "pool_step add set_state remove (EvRemove h) p = remove p h"

definition pool_run ::
  "('p \<Rightarrow> 'b \<Rightarrow> 'p \<times> pool_error option) \<Rightarrow> ('p \<Rightarrow> 's \<Rightarrow> 'p) \<Rightarrow> ('p \<Rightarrow> 's \<Rightarrow> 'p) \<Rightarrow>
   ('b, 's) pool_event list \<Rightarrow> 'p \<Rightarrow> 'p" where
  "pool_run add set_state remove es p = fold (pool_step add set_state remove) es p"

fun event_bounded :: "('b \<Rightarrow> u64) \<Rightarrow> ('s \<Rightarrow> bool) \<Rightarrow> ('b, 's) pool_event \<Rightarrow> bool" where
  "event_bounded hgt sb (EvAdd b) = (hgt b < height_bound)"
| "event_bounded hgt sb (EvSet s) = sb s"
| "event_bounded hgt sb (EvRemove s) = True"

definition pool_bounded :: "nat \<Rightarrow> u64 \<Rightarrow> u64 list \<Rightarrow> bool" where
  "pool_bounded n L hs \<longleftrightarrow>
     L < height_bound \<and> (\<forall>h \<in> set hs. h < height_bound) \<and> length hs \<le> n"

text \<open>
  The laws: each operation keeps the invariant, a rejected block changes nothing, an
  accepted one never lowers the valid height, and the size stays bounded.
\<close>

locale height_pool =
  fixes heights :: "'p \<Rightarrow> u64 list"
    and latest :: "'p \<Rightarrow> u64"
    and hgt :: "'b \<Rightarrow> u64"
    and add :: "'p \<Rightarrow> 'b \<Rightarrow> 'p \<times> pool_error option"
    and set_state :: "'p \<Rightarrow> 's \<Rightarrow> 'p"
    and remove :: "'p \<Rightarrow> 's \<Rightarrow> 'p"
    and sb :: "'s \<Rightarrow> bool"
    and maxlen :: nat
  assumes add_inv:
      "pool_inv (latest p) (heights p) \<Longrightarrow>
       pool_inv (latest (fst (add p b))) (heights (fst (add p b)))"
    and set_inv:
      "pool_inv (latest p) (heights p) \<Longrightarrow>
       pool_inv (latest (set_state p h)) (heights (set_state p h))"
    and remove_inv:
      "pool_inv (latest p) (heights p) \<Longrightarrow>
       pool_inv (latest (remove p h)) (heights (remove p h))"
    and add_mono: "pool_inv (latest p) (heights p) \<Longrightarrow> latest p \<le> latest (fst (add p b))"
    and add_reject:
      "snd (add p b) \<noteq> None \<Longrightarrow>
       heights (fst (add p b)) = heights p \<and> latest (fst (add p b)) = latest p"
    and add_bounded:
      "pool_inv (latest p) (heights p) \<Longrightarrow> pool_bounded maxlen (latest p) (heights p) \<Longrightarrow>
       hgt b < height_bound \<Longrightarrow>
       pool_bounded maxlen (latest (fst (add p b))) (heights (fst (add p b)))"
    and set_bounded:
      "pool_inv (latest p) (heights p) \<Longrightarrow> pool_bounded maxlen (latest p) (heights p) \<Longrightarrow>
       sb s \<Longrightarrow>
       pool_bounded maxlen (latest (set_state p s)) (heights (set_state p s))"
    and remove_bounded:
      "pool_inv (latest p) (heights p) \<Longrightarrow> pool_bounded maxlen (latest p) (heights p) \<Longrightarrow>
       pool_bounded maxlen (latest (remove p h)) (heights (remove p h))"
begin

lemma step_inv:
  "pool_inv (latest p) (heights p) \<Longrightarrow>
   pool_inv (latest (pool_step add set_state remove e p))
     (heights (pool_step add set_state remove e p))"
  by (cases e) (simp_all add: add_inv set_inv remove_inv)

lemma run_inv:
  "pool_inv (latest p) (heights p) \<Longrightarrow>
   pool_inv (latest (pool_run add set_state remove es p))
     (heights (pool_run add set_state remove es p))"
  unfolding pool_run_def by (induction es arbitrary: p) (simp_all add: step_inv)

lemma step_bounded:
  "pool_inv (latest p) (heights p) \<Longrightarrow> pool_bounded maxlen (latest p) (heights p) \<Longrightarrow>
   event_bounded hgt sb e \<Longrightarrow>
   pool_bounded maxlen (latest (pool_step add set_state remove e p))
     (heights (pool_step add set_state remove e p))"
  by (cases e) (simp_all add: add_bounded set_bounded remove_bounded)

lemma run_bounded:
  "pool_inv (latest p) (heights p) \<Longrightarrow> pool_bounded maxlen (latest p) (heights p) \<Longrightarrow>
   list_all (event_bounded hgt sb) es \<Longrightarrow>
   pool_bounded maxlen (latest (pool_run add set_state remove es p))
     (heights (pool_run add set_state remove es p))"
  unfolding pool_run_def
  by (induction es arbitrary: p) (simp_all add: step_inv step_bounded)

lemma run_adds_mono:
  "pool_inv (latest p) (heights p) \<Longrightarrow>
   latest p \<le> latest (pool_run add set_state remove (map EvAdd bs) p)"
proof (induction bs arbitrary: p)
  case (Cons b bs)
  from order_trans [OF add_mono [OF Cons.prems] Cons.IH [OF add_inv [OF Cons.prems]]]
  show ?case by (simp add: pool_run_def)
qed (simp add: pool_run_def)

end

section \<open>The valid part of the pool\<close>

text \<open>What \<open>GetValidBlock\<close> returns: the gapless run that ends at the valid height.\<close>

lemma pool_inv_valid_run:
  assumes "pool_inv L hs"
  defines "vs \<equiv> takeWhile (\<lambda>h. h \<le> L) hs"
  shows "vs = filter (\<lambda>h. h \<le> L) hs" "consec vs" "vs \<noteq> [] \<Longrightarrow> last vs = L"
    "vs \<noteq> [] \<Longrightarrow> set vs = {hd vs .. L}"
proof -
  note D = pool_invD [OF assms(1)]
  show eq: "vs = filter (\<lambda>h. h \<le> L) hs"
    unfolding vs_def by (rule sincr_takeWhile_le [OF D(1)])
  show "consec vs" using D(3) eq by simp
  show l: "last vs = L" if "vs \<noteq> []" using D(4) eq that by simp
  show "set vs = {hd vs .. L}" if "vs \<noteq> []"
  proof -
    obtain x xs where x: "vs = x # xs" using \<open>vs \<noteq> []\<close> by (cases vs) auto
    have "sincr (x # xs)" "consec (x # xs)"
      using D(3) sincr_filter [OF D(1), of "\<lambda>h. h \<le> L"] unfolding x [symmetric] eq by simp_all
    from consec_interval [OF this(2,1)] show ?thesis using l [OF that] x by simp
  qed
qed

section \<open>Both pools implement the contract\<close>

lemmas [pool_defs] =
  UpdateLatestBeaconState_def BeaconPool_RemoveBlock_def SetBeaconState_def
  ShardPool_UpdateLatestShardState_def ShardPool_RemoveBlock_def ShardPool_SetShardState_def

lemmas add_block_defs =
  AddBeaconBlock_def MAX_VALID_BEACON_BLK_IN_POOL_def MAX_INVALID_BEACON_BLK_IN_POOL_def
  AddShardBlock_def MAX_VALID_SHARD_BLK_IN_POOL_def MAX_PENDING_SHARD_BLK_IN_POOL_def

abbreviation beaconHeights :: "BeaconPool \<Rightarrow> u64 list" where
  "beaconHeights p \<equiv> map beaconHeight (bpPool p)"

abbreviation shardHeights :: "'body ShardPool \<Rightarrow> u64 list" where
  "shardHeights p \<equiv> map shardHeight (spPool p)"

abbreviation beacon_inv :: "BeaconPool \<Rightarrow> bool" where
  "beacon_inv p \<equiv> pool_inv (bpLatestValidHeight p) (beaconHeights p)"

abbreviation shard_inv :: "'body ShardPool \<Rightarrow> bool" where
  "shard_inv p \<equiv> pool_inv (spLatestValidHeight p) (shardHeights p)"

text \<open>The outcomes of \<open>AddBeaconBlock\<close> and \<open>AddShardBlock\<close>, as case rules.\<close>

lemma AddBeaconBlock_cases:
  obtains (reject) e where "AddBeaconBlock p b = (p, Some e)"
  | (accept) pool' where
      "bpLatestValidHeight p < beaconHeight b" "beaconHeight b \<notin> beaconHeight ` set (bpPool p)"
      "capacity_check 1000 200 beaconHeight (bpLatestValidHeight p) (bpPool p) (beaconHeight b)
         = Inr pool'"
      "AddBeaconBlock p b =
         (UpdateLatestBeaconState (p\<lparr>bpPool := sort_key beaconHeight (pool' @ [b])\<rparr>), None)"
proof (cases "bpLatestValidHeight p < beaconHeight b \<and> beaconHeight b \<notin> beaconHeight ` set (bpPool p)")
  case True
  show ?thesis
  proof (cases "capacity_check 1000 200 beaconHeight (bpLatestValidHeight p) (bpPool p) (beaconHeight b)")
    case (Inl e)
    with True show ?thesis by (intro reject [of e]) (auto simp: add_block_defs go_simps Let_def)
  next
    case (Inr pool')
    with True show ?thesis by (intro accept [of pool']) (simp_all add: add_block_defs go_simps Let_def not_le)
  qed
next
  case False
  then have "\<exists>e. AddBeaconBlock p b = (p, Some e)"
    by (simp add: AddBeaconBlock_def contains_height_iff not_less Let_def) blast
  then show ?thesis using reject by blast
qed

lemma AddShardBlock_cases:
  obtains (reject) e where "AddShardBlock p b = (p, Some e)"
  | (accept) pool' where
      "spLatestValidHeight p < shardHeight b" "shardHeight b \<notin> shardHeight ` set (spPool p)"
      "capacity_check 1000 200 shardHeight (spLatestValidHeight p) (spPool p) (shardHeight b)
         = Inr pool'"
      "AddShardBlock p b =
         (ShardPool_UpdateLatestShardState (p\<lparr>spPool := sort_key shardHeight (pool' @ [b])\<rparr>), None)"
proof (cases "spLatestValidHeight p < shardHeight b \<and> shardHeight b \<notin> shardHeight ` set (spPool p)")
  case True
  show ?thesis
  proof (cases "capacity_check 1000 200 shardHeight (spLatestValidHeight p) (spPool p) (shardHeight b)")
    case (Inl e)
    with True show ?thesis by (intro reject [of e]) (auto simp: add_block_defs go_simps Let_def)
  next
    case (Inr pool')
    with True show ?thesis by (intro accept [of pool']) (simp_all add: add_block_defs go_simps Let_def not_le)
  qed
next
  case False
  then have "\<exists>e. AddShardBlock p b = (p, Some e)"
    by (simp add: AddShardBlock_def contains_height_iff not_less Let_def) blast
  then show ?thesis using reject by blast
qed

text \<open>Bounds: where the advance loops can end, and what an accepted block does to the size.\<close>

lemma advance_loop_in: "advance_loop (\<lambda>x. x) L hs \<in> insert L (set hs)"
  by (induction hs arbitrary: L) fastforce+

lemma step_loop_in: "step_loop (\<lambda>x. x) L hs \<in> insert L (set hs)"
  by (induction hs arbitrary: L) fastforce+

lemma pool_bounded_loop:
  assumes "pool_bounded n L hs" "L' \<in> insert L (set hs)"
  shows "pool_bounded n L' hs"
  using assms by (auto simp: pool_bounded_def)

lemma pool_bounded_remove:
  assumes "pool_bounded n L hs"
  shows "pool_bounded n L (dropWhile P hs)"
  using assms order_trans [OF length_dropWhile_le [of P hs]]
  by (auto simp: pool_bounded_def dest: set_dropWhileD)

lemma pool_bounded_accept:
  assumes inv: "pool_inv L (map hgt pool)" and bd: "pool_bounded 1201 L (map hgt pool)"
    and cap: "capacity_check 1000 200 hgt L pool (hgt b) = Inr pool'" and h: "hgt b < height_bound"
  shows "pool_bounded 1201 L (map hgt (sort_key hgt (pool' @ [b])))"
proof -
  have "int (length pool') \<le> 1000 + 200"
    using inv bd by (intro capacity_check_length [OF cap]) (auto simp: pool_bounded_def pool_inv_def)
  moreover have "set pool' \<subseteq> set pool" using cap
    by (cases rule: capacity_check_cases) (auto dest: in_set_butlastD)
  ultimately show ?thesis using bd h by (auto simp: pool_bounded_def)
qed

interpretation bp: height_pool beaconHeights bpLatestValidHeight beaconHeight
  AddBeaconBlock SetBeaconState BeaconPool_RemoveBlock "\<lambda>h. h < height_bound" 1201
proof unfold_locales
  fix p b h
  show "snd (AddBeaconBlock p b) \<noteq> None \<Longrightarrow>
    beaconHeights (fst (AddBeaconBlock p b)) = beaconHeights p \<and>
    bpLatestValidHeight (fst (AddBeaconBlock p b)) = bpLatestValidHeight p"
    by (cases rule: AddBeaconBlock_cases [where p = p and b = b]) simp_all
  assume inv: "beacon_inv p"
  show "beacon_inv (fst (AddBeaconBlock p b))"
    by (cases rule: AddBeaconBlock_cases [where p = p and b = b])
      (simp_all add: inv UpdateLatestBeaconState_def advance_loop_map [of beaconHeight]
         pool_inv_advance accept_pool(1) [OF inv])
  show "bpLatestValidHeight p \<le> bpLatestValidHeight (fst (AddBeaconBlock p b))"
    by (cases rule: AddBeaconBlock_cases [where p = p and b = b])
      (simp_all add: UpdateLatestBeaconState_def advance_loop_map [of beaconHeight]
         pool_inv_advance accept_pool(1) [OF inv])
  show "beacon_inv (BeaconPool_RemoveBlock p h)"
    using pool_inv_remove [OF inv] by (simp add: pool_defs go_simps map_dropWhile_hgt)
  show "beacon_inv (SetBeaconState p h)"
    using pool_inv_advance(1) [OF pool_inv_fresh [OF pool_invD(1,2) [OF inv]]]
    by (simp add: pool_defs go_simps map_dropWhile_hgt advance_loop_map [of beaconHeight])
  assume bd: "pool_bounded 1201 (bpLatestValidHeight p) (beaconHeights p)"
  show "pool_bounded 1201 (bpLatestValidHeight (BeaconPool_RemoveBlock p h))
     (beaconHeights (BeaconPool_RemoveBlock p h))"
    using pool_bounded_remove [OF bd] by (simp add: pool_defs go_simps map_dropWhile_hgt)
  show "pool_bounded 1201 (bpLatestValidHeight (fst (AddBeaconBlock p b)))
     (beaconHeights (fst (AddBeaconBlock p b)))" if "beaconHeight b < height_bound"
    by (cases rule: AddBeaconBlock_cases [where p = p and b = b])
      (simp_all add: bd UpdateLatestBeaconState_def advance_loop_map [of beaconHeight]
         pool_bounded_loop [OF pool_bounded_accept [OF inv bd _ that] advance_loop_in])
  show "pool_bounded 1201 (bpLatestValidHeight (SetBeaconState p h))
     (beaconHeights (SetBeaconState p h))" if "h < height_bound"
  proof -
    have "pool_bounded 1201 h (beaconHeights p)" using bd that by (simp add: pool_bounded_def)
    from pool_bounded_loop [OF pool_bounded_remove [OF this] advance_loop_in]
    show ?thesis by (simp add: pool_defs go_simps map_dropWhile_hgt advance_loop_map [of beaconHeight])
  qed
qed

interpretation sp: height_pool shardHeights spLatestValidHeight shardHeight
  AddShardBlock ShardPool_SetShardState ShardPool_RemoveBlock "\<lambda>h. h < height_bound" 1201
proof unfold_locales
  fix p b h
  show "snd (AddShardBlock p b) \<noteq> None \<Longrightarrow>
    shardHeights (fst (AddShardBlock p b)) = shardHeights p \<and>
    spLatestValidHeight (fst (AddShardBlock p b)) = spLatestValidHeight p"
    by (cases rule: AddShardBlock_cases [where p = p and b = b]) simp_all
  assume inv: "shard_inv p"
  show "shard_inv (fst (AddShardBlock p b))"
    by (cases rule: AddShardBlock_cases [where p = p and b = b])
      (simp_all add: inv ShardPool_UpdateLatestShardState_def step_loop_map [of shardHeight]
         pool_inv_step accept_pool(1) [OF inv])
  show "spLatestValidHeight p \<le> spLatestValidHeight (fst (AddShardBlock p b))"
    by (cases rule: AddShardBlock_cases [where p = p and b = b])
      (simp_all add: ShardPool_UpdateLatestShardState_def step_loop_map [of shardHeight]
         pool_inv_step accept_pool(1) [OF inv])
  show "shard_inv (ShardPool_RemoveBlock p h)"
    using pool_inv_remove [OF inv] by (simp add: pool_defs go_simps map_dropWhile_hgt)
  show "shard_inv (ShardPool_SetShardState p h)"
    using pool_inv_step(1) [OF pool_inv_fresh [OF pool_invD(1,2) [OF inv]]]
    by (simp add: pool_defs go_simps map_dropWhile_hgt step_loop_map [of shardHeight])
  assume bd: "pool_bounded 1201 (spLatestValidHeight p) (shardHeights p)"
  show "pool_bounded 1201 (spLatestValidHeight (ShardPool_RemoveBlock p h))
     (shardHeights (ShardPool_RemoveBlock p h))"
    using pool_bounded_remove [OF bd] by (simp add: pool_defs go_simps map_dropWhile_hgt)
  show "pool_bounded 1201 (spLatestValidHeight (fst (AddShardBlock p b)))
     (shardHeights (fst (AddShardBlock p b)))" if "shardHeight b < height_bound"
    by (cases rule: AddShardBlock_cases [where p = p and b = b])
      (simp_all add: bd ShardPool_UpdateLatestShardState_def step_loop_map [of shardHeight]
         pool_bounded_loop [OF pool_bounded_accept [OF inv bd _ that] step_loop_in])
  show "pool_bounded 1201 (spLatestValidHeight (ShardPool_SetShardState p h))
     (shardHeights (ShardPool_SetShardState p h))" if "h < height_bound"
  proof -
    have "pool_bounded 1201 h (shardHeights p)" using bd that by (simp add: pool_bounded_def)
    from pool_bounded_loop [OF pool_bounded_remove [OF this] step_loop_in]
    show ?thesis by (simp add: pool_defs go_simps map_dropWhile_hgt step_loop_map [of shardHeight])
  qed
qed

lemma pool_inv_advance_gap:
  assumes "pool_inv L hs"
  shows "advance_loop (\<lambda>x. x) L hs + 1 \<notin> set hs"
proof
  assume *: "advance_loop (\<lambda>x. x) L hs + 1 \<in> set hs"
  from pool_inv_advance(4) [OF assms this] have "advance_loop (\<lambda>x. x) L hs + 1 = 0"
    by (simp add: inc_less_eq_self_iff_eq)
  with * pool_invD(2) [OF assms] show False by simp
qed

section \<open>Delivery in any order\<close>

text \<open>
  The beacon pool while the blocks of heights \<open>L + 1 .. L + n\<close> arrive: it holds exactly the
  delivered heights \<open>D\<close>, and its valid height is where the first one is missing.
\<close>

definition delivering :: "u64 \<Rightarrow> nat \<Rightarrow> u64 set \<Rightarrow> BeaconPool \<Rightarrow> bool" where
  "delivering L n D p \<longleftrightarrow>
     beacon_inv p \<and> set (beaconHeights p) = D \<and> D \<subseteq> {L<..L + word_of_nat n} \<and>
     L \<le> bpLatestValidHeight p \<and> {L<..bpLatestValidHeight p} \<subseteq> D \<and>
     bpLatestValidHeight p + 1 \<notin> D"

lemma uint_add_nat:
  fixes L :: u64
  assumes "uint L + int n < 2 ^ 62"
  shows "uint (L + word_of_nat n) = uint L + int n"
proof -
  have "0 \<le> uint L" by simp
  moreover have "(2::int) ^ 62 = 4611686018427387904" "(2::int) ^ 64 = 18446744073709551616"
    by simp_all
  ultimately have "int n < 2 ^ 64" using assms by linarith
  then have "uint (word_of_nat n :: u64) = int n" by (simp add: unsigned_of_nat take_bit_nat_eq_self)
  then show ?thesis using assms by (subst uint_add_lem [THEN iffD1]) simp_all
qed

lemma sincr_card_interval:
  assumes "sincr hs" "hs \<noteq> []" "\<forall>h \<in> set hs. h \<le> (M::u64)"
  shows "int (length hs) \<le> uint M - uint (hd hs) + 1"
proof -
  have "length hs = card (uint ` set hs)"
    using distinct_card [OF sincr_distinct [OF assms(1)]]
    by (metis card_image inj_onI word_eq_iff_unsigned)
  also have "\<dots> \<le> card {uint (hd hs)..uint M}"
  proof (intro card_mono subsetI)
    fix x assume "x \<in> uint ` set hs"
    then obtain h where h: "h \<in> set hs" "x = uint h" by auto
    have "hd hs \<le> h" using assms(1,2) h(1) by (cases hs) auto
    then show "x \<in> {uint (hd hs)..uint M}" using h assms(3) by (simp add: word_le_def)
  qed simp
  finally have "length hs \<le> nat (uint M + 1 - uint (hd hs))" by (simp add: algebra_simps)
  moreover have "uint (hd hs) \<le> uint M" using assms(2,3) by (simp add: word_le_def)
  ultimately show ?thesis by linarith
qed

lemma delivering_capacity:
  assumes d: "delivering L n D p" and n: "n \<le> 199" and nb: "uint L + int n < 2 ^ 62"
  shows "capacity_check 1000 200 beaconHeight (bpLatestValidHeight p) (bpPool p) h = Inr (bpPool p)"
proof (cases "bpPool p = []")
  case False
  let ?M = "L + word_of_nat n" and ?V = "bpLatestValidHeight p" and ?hs = "beaconHeights p"
  have M: "uint ?M = uint L + int n" by (rule uint_add_nat [OF nb])
  have D: "sincr ?hs" "\<forall>h \<in> set ?hs. L < h \<and> h \<le> ?M" "L \<le> ?V"
    using d by (auto simp: delivering_def pool_inv_def)
  have hd: "hd ?hs = beaconHeight (hd (bpPool p))" "hd ?hs \<in> set ?hs"
    using False by (simp_all add: hd_map)
  then have hdb: "uint L < uint (hd ?hs)" "uint (hd ?hs) \<le> uint ?M"
    using D(2) by (auto simp: word_le_def word_less_def)
  have "?V \<in> insert L D"
    using d unfolding delivering_def by (auto simp: order_le_less)
  then have V: "uint L \<le> uint ?V" "uint ?V \<le> uint ?M"
    using d M by (auto simp: delivering_def word_le_def word_less_def)
  have u: "uint ?V < 2 ^ 62" "uint (hd ?hs) < 2 ^ 62" using V hdb M nb by linarith+
  have "int (length (bpPool p)) \<le> uint ?M - uint (hd ?hs) + 1"
    using sincr_card_interval [OF D(1)] D(2) False by simp
  then have len: "int (length (bpPool p)) \<le> 199" "int (length (bpPool p)) + uint (hd ?hs) \<le> uint ?V + 200"
    using hdb M n V by linarith+
  then have n62: "length (bpPool p) \<le> 2 ^ 62" by simp
  have "sint (?V - hd ?hs) \<le> 1000"
    using sint_of_diff [OF u] V hdb M n by linarith
  moreover have "sint (word_of_nat (length (bpPool p)) - (?V - hd ?hs)) \<le> 200"
    using sint_of_len_diff [OF u n62] len by linarith
  ultimately show ?thesis
    using False hd(1) by (simp add: capacity_check_def)
qed (simp add: capacity_check_def)

lemma delivering_add:
  assumes d: "delivering L n D p" and n: "n \<le> 199" and nb: "uint L + int n < 2 ^ 62"
    and b: "beaconHeight b \<in> {L<..L + word_of_nat n}" "beaconHeight b \<notin> D"
  shows "delivering L n (insert (beaconHeight b) D) (fst (AddBeaconBlock p b))"
    "snd (AddBeaconBlock p b) = None"
proof -
  let ?V = "bpLatestValidHeight p" and ?q = "p\<lparr>bpPool := sort_key beaconHeight (bpPool p @ [b])\<rparr>"
  have inv: "beacon_inv p" and D: "set (beaconHeights p) = D" "D \<subseteq> {L<..L + word_of_nat n}"
    "L \<le> ?V" "{L<..?V} \<subseteq> D"
    using d by (simp_all add: delivering_def)
  have new: "?V < beaconHeight b" "beaconHeight b \<notin> beaconHeight ` set (bpPool p)"
    using b D by (auto simp: not_le [symmetric])
  note cap = delivering_capacity [OF d n nb]
  have add: "AddBeaconBlock p b = (UpdateLatestBeaconState ?q, None)"
    using new cap by (simp add: add_block_defs go_simps Let_def not_le)
  then show "snd (AddBeaconBlock p b) = None" by simp
  let ?hs = "map beaconHeight (sort_key beaconHeight (bpPool p @ [b]))"
  let ?V' = "advance_loop (\<lambda>x. x) ?V ?hs"
  have hs: "set ?hs = insert (beaconHeight b) D" using D(1) by auto
  note A = pool_inv_advance [OF accept_pool(1) [OF inv new cap]]
  have sub: "{L<..?V'} \<subseteq> insert (beaconHeight b) D"
  proof
    fix x assume "x \<in> {L<..?V'}"
    then have "x \<in> {L<..?V} \<or> x \<in> {?V<..?V'}" by (auto simp: not_le)
    then show "x \<in> insert (beaconHeight b) D"
      using A(3) D(4) unfolding hs by blast
  qed
  have "?V' + 1 \<notin> insert (beaconHeight b) D"
    using pool_inv_advance_gap [OF accept_pool(1) [OF inv new cap]] unfolding hs .
  then show "delivering L n (insert (beaconHeight b) D) (fst (AddBeaconBlock p b))"
    using A(1,2) D(2,3) b(1) hs sub
    unfolding add delivering_def
    by (simp add: UpdateLatestBeaconState_def advance_loop_map [of beaconHeight])
qed

lemma delivering_run:
  assumes "delivering L n D p" "n \<le> 199" "uint L + int n < 2 ^ 62"
    and "distinct (map beaconHeight bs)" "\<forall>b \<in> set bs. beaconHeight b \<in> {L<..L + word_of_nat n}"
    and "\<forall>b \<in> set bs. beaconHeight b \<notin> D"
  shows "delivering L n (D \<union> beaconHeight ` set bs) (fold (\<lambda>b p. fst (AddBeaconBlock p b)) bs p)"
  using assms
proof (induction bs arbitrary: D p)
  case (Cons b bs)
  have "delivering L n (insert (beaconHeight b) D) (fst (AddBeaconBlock p b))"
    using Cons.prems by (intro delivering_add) auto
  then have "delivering L n (insert (beaconHeight b) D \<union> beaconHeight ` set bs)
      (fold (\<lambda>b p. fst (AddBeaconBlock p b)) bs (fst (AddBeaconBlock p b)))"
    using Cons.prems by (intro Cons.IH) (auto simp: rev_image_eqI)
  then show ?case by simp
qed simp

lemma delivering_all:
  assumes d: "delivering L n {L<..L + word_of_nat n} p" and nb: "uint L + int n < 2 ^ 62"
  shows "bpLatestValidHeight p = L + word_of_nat n"
proof (rule ccontr)
  let ?V = "bpLatestValidHeight p" and ?M = "L + word_of_nat n"
  assume ne: "?V \<noteq> ?M"
  have LM: "L \<le> ?M" using uint_add_nat [OF nb] by (simp add: word_le_def)
  have V: "L \<le> ?V" "{L<..?V} \<subseteq> {L<..?M}" "?V + 1 \<notin> {L<..?M}"
    using d by (simp_all add: delivering_def)
  have "?V \<le> ?M"
  proof (cases "?V = L")
    case False
    with V(1) have "?V \<in> {L<..?V}" by simp
    with V(2) show ?thesis by auto
  qed (use LM in simp)
  with ne have "?V < ?M" by simp
  then have "?V < ?V + 1" "?V + 1 \<le> ?M" by (rule word_less_succ, rule word_succ_le)
  with V(1) have "?V + 1 \<in> {L<..?M}" by auto
  with V(3) show False by contradiction
qed

section \<open>Properties of the pools\<close>

lemma GetBeaconPool_inv: "beacon_inv (GetBeaconPool None)"
  by (simp add: GetBeaconPool_def)

lemma BeaconPool_valid_heights:
  "BeaconPool_GetValidBlockHeight p = takeWhile (\<lambda>h. h \<le> bpLatestValidHeight p) (beaconHeights p)"
  by (simp add: BeaconPool_GetValidBlockHeight_def BeaconPool_GetValidBlock_def go_simps
      map_takeWhile_hgt)

lemma ShardPool_valid_heights:
  "ShardPool_GetValidBlockHeight p = takeWhile (\<lambda>h. h \<le> spLatestValidHeight p) (shardHeights p)"
  by (simp add: ShardPool_GetValidBlockHeight_def ShardPool_GetValidBlock_def go_simps
      map_takeWhile_hgt)

text \<open>A block of a given height, for the examples.\<close>

definition sample_header :: "u64 \<Rightarrow> BeaconHeader" where
  "sample_header h = \<lparr>bhProducer = [], bhVersion = 1, bhHeight = h, bhEpoch = 1, bhRound = 1,
     bhTimestamp = 0, bhPrevBlockHash = [], bhValidatorsRoot = [], bhBeaconCandidateRoot = [],
     bhShardCandidateRoot = [], bhShardValidatorsRoot = [], bhShardStateHash = [],
     bhInstructionHash = []\<rparr>"

definition sample_block :: "u64 \<Rightarrow> BeaconBlock" where
  "sample_block h = \<lparr>bAggregatedSig = [], bR = [], bValidatorsIdx = [], bProducerSig = [],
     bBody = \<lparr>ShardStates = Map.empty, bbInstructions = []\<rparr>, bHeader = sample_header h\<rparr>"

definition sample_shard_header :: "u8 \<Rightarrow> u64 \<Rightarrow> ShardHeader" where
  "sample_shard_header i h = \<lparr>shProducerAddress = [], shProducer = [], shShardID = i, shVersion = 1,
     shPrevBlockHash = [], shHeight = h, shRound = 1, shEpoch = 1, shTimestamp = 0, shTxRoot = [],
     shShardTxRoot = [], shCrossOutputCoinRoot = [], shInstructionsRoot = [], shCommitteeRoot = [],
     shPendingValidatorRoot = [], shCrossShards = [], shBeaconHeight = 1, shBeaconHash = []\<rparr>"

definition sample_shard_block :: "u64 \<Rightarrow> unit ShardBlock" where
  "sample_shard_block h = \<lparr>sAggregatedSig = [], sR = [], sValidatorsIdx = [], sProducerSig = [],
     sBody = (), sHeader = sample_shard_header 0 h\<rparr>"

lemma sample_block_height [simp]: "beaconHeight (sample_block h) = h"
  by (simp add: sample_block_def sample_header_def)

lemma sample_shard_block_height [simp]: "shardHeight (sample_shard_block h) = h"
  by (simp add: sample_shard_block_def sample_shard_header_def)

text \<open>
  C1. In every state the beacon pool can reach from its creation, by any sequence of
  \<open>AddBeaconBlock\<close>, \<open>SetBeaconState\<close> and \<open>RemoveBlock\<close>, the pool is strictly increasing in
  height, and \<open>GetValidBlock\<close> returns either nothing or a gapless run of blocks whose last
  one is the height \<open>GetBeaconState\<close> and \<open>GetLatestValidBlockHeight\<close> report: the consumer,
  which inserts these blocks one after the other, never meets a hole or a duplicate.
\<close>

theorem beacon_pool_valid_run:
  "let p = pool_run AddBeaconBlock SetBeaconState BeaconPool_RemoveBlock es (GetBeaconPool None);
       vs = BeaconPool_GetValidBlockHeight p
   in sincr (BeaconPool_GetAllBlockHeight p) \<and>
      (vs = [] \<or>
       (set vs = {hd vs .. GetBeaconState p} \<and> consec vs \<and>
        BeaconPool_GetLatestValidBlockHeight p = GetBeaconState p))"
proof -
  define p where
    "p = pool_run AddBeaconBlock SetBeaconState BeaconPool_RemoveBlock es (GetBeaconPool None)"
  have inv: "beacon_inv p" unfolding p_def by (rule bp.run_inv [OF GetBeaconPool_inv])
  have "BeaconPool_GetLatestValidBlockHeight p = (if BeaconPool_GetValidBlockHeight p = [] then 0
      else last (BeaconPool_GetValidBlockHeight p))"
    by (simp add: BeaconPool_GetLatestValidBlockHeight_def BeaconPool_GetValidBlockHeight_def
        go_simps last_map)
  then show ?thesis
    using pool_inv_valid_run(2-) [OF inv] pool_invD(1) [OF inv]
    unfolding p_def [symmetric] Let_def GetBeaconState_def BeaconPool_GetAllBlockHeight_def
      BeaconPool_valid_heights by presburger
qed

text \<open>
  C31. Order does not matter: when up to 199 blocks with the heights \<open>L + 1 .. L + n\<close> are
  delivered to an empty beacon pool at height \<open>L\<close>, in any order, the pool ends at height
  \<open>L + n\<close> and \<open>GetValidBlock\<close> returns exactly these heights, in increasing order.
\<close>

theorem beacon_pool_any_order:
  fixes L :: u64 and bs :: "BeaconBlock list"
  assumes "n \<le> 199" "uint L + int n < 2 ^ 62"
    and "distinct (map beaconHeight bs)" "beaconHeight ` set bs = {L<..L + word_of_nat n}"
  shows "let p = fold (\<lambda>b p. fst (AddBeaconBlock p b)) bs \<lparr>bpPool = [], bpLatestValidHeight = L\<rparr>
    in GetBeaconState p = L + word_of_nat n \<and>
       set (BeaconPool_GetValidBlockHeight p) = {L<..L + word_of_nat n} \<and>
       sincr (BeaconPool_GetValidBlockHeight p)"
proof -
  define p where
    "p = fold (\<lambda>b p. fst (AddBeaconBlock p b)) bs \<lparr>bpPool = [], bpLatestValidHeight = L\<rparr>"
  have "delivering L n {} \<lparr>bpPool = [], bpLatestValidHeight = L\<rparr>"
    by (simp add: delivering_def)
  then have "delivering L n ({} \<union> beaconHeight ` set bs) p"
    unfolding p_def using assms by (intro delivering_run) auto
  then have d: "delivering L n {L<..L + word_of_nat n} p" by (simp add: assms(4))
  note state = delivering_all [OF d assms(2)]
  have inv: "beacon_inv p" and hs: "set (beaconHeights p) = {L<..L + word_of_nat n}"
    using d unfolding delivering_def by blast+
  have "filter (\<lambda>h. h \<le> L + word_of_nat n) (beaconHeights p) = beaconHeights p"
    using hs by (simp only: filter_id_conv) auto
  then have eq: "BeaconPool_GetValidBlockHeight p = beaconHeights p"
    using pool_inv_valid_run(1) [OF inv] state by (simp add: BeaconPool_valid_heights)
  show ?thesis
    using hs eq state pool_invD(1) [OF inv]
    unfolding p_def [symmetric] Let_def GetBeaconState_def by metis
qed

theorem beacon_pool_any_order_witness:
  "let p = fold (\<lambda>b p. fst (AddBeaconBlock p b)) [sample_block 4, sample_block 2, sample_block 3]
         \<lparr>bpPool = [], bpLatestValidHeight = 1\<rparr>
   in GetBeaconState p = 4 \<and> set (BeaconPool_GetValidBlockHeight p) = {2, 3, 4} \<and>
      sincr (BeaconPool_GetValidBlockHeight p)"
proof -
  have i: "{1::u64<..4} = {2, 3, 4}"
    by (simp add: word_interval_Suc [of 1] word_interval_Suc [of 2] word_interval_Suc [of 3])
  have h: "beaconHeight ` set [sample_block 4, sample_block 2, sample_block 3] =
      {1<..1 + word_of_nat 3}"
    using i by (auto simp: insert_commute)
  show ?thesis
    using beacon_pool_any_order [OF _ _ _ h] i by simp
qed

text \<open>
  What an accepted block does. The block is above the valid height and new; the pool
  then holds the same heights and the new one, except that a full pool gives up its
  highest block, which is neither a valid one nor as low as the new one. The valid height
  never goes down and stops exactly at the first gap: every height up to it is in the
  pool and its successor is not.
\<close>

theorem AddBeaconBlock_accepted:
  assumes "beacon_inv p" "AddBeaconBlock p b = (p', None)"
  shows "let L = bpLatestValidHeight p; L' = bpLatestValidHeight p'; h = beaconHeight b;
             hs = set (beaconHeights p); hs' = set (beaconHeights p') in
    L < h \<and> h \<notin> hs \<and>
    (hs' = insert h hs \<or>
     (\<exists>m \<in> hs. m = last (beaconHeights p) \<and> L < m \<and> h < m \<and> hs' = insert h (hs - {m}))) \<and>
    L \<le> L' \<and> {L<..L'} \<subseteq> hs' \<and> L' + 1 \<notin> hs'"
  using assms(2)
proof (cases rule: AddBeaconBlock_cases [where p = p and b = b])
  case (accept pool')
  let ?hs' = "map beaconHeight (sort_key beaconHeight (pool' @ [b]))"
  note acc = accept_pool [OF assms(1) accept(1-3)]
  have p': "p' = UpdateLatestBeaconState (p\<lparr>bpPool := sort_key beaconHeight (pool' @ [b])\<rparr>)"
    using accept(4) assms(2) by simp
  have hs': "beaconHeights p' = ?hs'"
    and L': "bpLatestValidHeight p' = advance_loop (\<lambda>x. x) (bpLatestValidHeight p) ?hs'"
    unfolding p' by (simp_all add: UpdateLatestBeaconState_def advance_loop_map [of beaconHeight])
  have kept: "set ?hs' = insert (beaconHeight b) (set (beaconHeights p)) \<or>
     (\<exists>m \<in> set (beaconHeights p). m = last (beaconHeights p) \<and> bpLatestValidHeight p < m \<and>
        beaconHeight b < m \<and>
        set ?hs' = insert (beaconHeight b) (set (beaconHeights p) - {m}))"
    using accept(3)
  proof (cases rule: capacity_check_cases)
    case evict
    let ?m = "last (beaconHeights p)"
    have ne: "beaconHeights p \<noteq> []" using evict(1) by simp
    have m: "beaconHeight b < ?m" using evict by (simp add: last_map)
    have "set (map beaconHeight pool') = set (beaconHeights p) - {?m}"
      using set_butlast_distinct [OF sincr_distinct [OF pool_invD(1) [OF assms(1)]] ne] evict(3)
      by (simp add: map_butlast)
    then have "set ?hs' = insert (beaconHeight b) (set (beaconHeights p) - {?m})"
      unfolding acc(2) by simp
    with m less_trans [OF accept(1) m] last_in_set [OF ne] show ?thesis by blast
  qed (use acc(2) in simp)
  show ?thesis
    using kept accept(1,2) pool_inv_advance(2,3) [OF acc(1)] pool_inv_advance_gap [OF acc(1)]
    unfolding Let_def hs' L' by simp
qed simp

lemma beacon_add_example:
  "AddBeaconBlock \<lparr>bpPool = [sample_block 2, sample_block 4], bpLatestValidHeight = 2\<rparr> (sample_block 3)
   = (\<lparr>bpPool = [sample_block 2, sample_block 3, sample_block 4], bpLatestValidHeight = 4\<rparr>, None)"
  by (simp add: add_block_defs capacity_check_def UpdateLatestBeaconState_def)

theorem AddBeaconBlock_accepted_witness:
  "let p = \<lparr>bpPool = [sample_block 2, sample_block 4], bpLatestValidHeight = 2\<rparr>;
       p' = fst (AddBeaconBlock p (sample_block 3))
   in bpLatestValidHeight p' = 4 \<and> set (beaconHeights p') = {2, 3, 4} \<and>
      {2<..bpLatestValidHeight p'} \<subseteq> set (beaconHeights p')"
  using AddBeaconBlock_accepted [OF _ beacon_add_example]
  by (simp add: beacon_add_example pool_inv_def Let_def)

text \<open>
  C34. The pool is bounded: whatever blocks the network sends, as long as heights stay below
  \<open>2^62\<close>, the beacon pool never holds more than 1201 blocks (1000 valid ones, 200 pending
  ones and the one being added).
\<close>

theorem beacon_pool_bounded:
  assumes "list_all (event_bounded beaconHeight (\<lambda>h. h < height_bound)) es"
  shows "length (bpPool (pool_run AddBeaconBlock SetBeaconState BeaconPool_RemoveBlock es
           (GetBeaconPool None))) \<le> 1201"
proof -
  have "pool_bounded 1201 (bpLatestValidHeight (GetBeaconPool None)) (beaconHeights (GetBeaconPool None))"
    by (simp add: pool_bounded_def GetBeaconPool_def height_bound_def)
  from bp.run_bounded [OF GetBeaconPool_inv this assms] show ?thesis
    by (simp add: pool_bounded_def)
qed

theorem beacon_pool_bounded_witness:
  "length (bpPool (pool_run AddBeaconBlock SetBeaconState BeaconPool_RemoveBlock
     [EvAdd (sample_block 5), EvSet 3, EvAdd (sample_block 4), EvRemove 4] (GetBeaconPool None))) \<le> 1201"
  by (rule beacon_pool_bounded) (simp add: height_bound_def)

text \<open>
  C35. The shard pool keeps the same promise to its consumer in every reachable state:
  increasing heights, a gapless valid run that ends at \<open>GetShardState\<close>, at most 1201
  blocks for heights below \<open>2^62\<close>, and a rejected block changes nothing.
\<close>

theorem shard_pool_valid_run:
  assumes "list_all (event_bounded shardHeight (\<lambda>h. h < height_bound)) es"
  shows "let p = pool_run AddShardBlock ShardPool_SetShardState ShardPool_RemoveBlock es
                   (fst (GetShardPool Map.empty shardID));
             vs = ShardPool_GetValidBlockHeight p
   in sincr (ShardPool_GetAllBlockHeight p) \<and>
      (vs = [] \<or> set vs = {hd vs .. ShardPool_GetShardState p} \<and> consec vs) \<and>
      length (spPool p) \<le> 1201 \<and>
      (snd (AddShardBlock p b) = None \<or> fst (AddShardBlock p b) = p)"
proof -
  let ?p0 = "fst (GetShardPool Map.empty shardID)"
  define p where "p = pool_run AddShardBlock ShardPool_SetShardState ShardPool_RemoveBlock es ?p0"
  have p0: "shard_inv ?p0" "pool_bounded 1201 (spLatestValidHeight ?p0) (shardHeights ?p0)"
    by (simp_all add: GetShardPool_def Let_def pool_bounded_def height_bound_def)
  have inv: "shard_inv p" unfolding p_def by (rule sp.run_inv [OF p0(1)])
  have "pool_bounded 1201 (spLatestValidHeight p) (shardHeights p)"
    unfolding p_def by (rule sp.run_bounded [OF p0 assms])
  then have "length (spPool p) \<le> 1201" by (simp add: pool_bounded_def)
  moreover have "snd (AddShardBlock p b) = None \<or> fst (AddShardBlock p b) = p"
    by (cases rule: AddShardBlock_cases [where p = p and b = b]) simp_all
  ultimately show ?thesis
    using pool_inv_valid_run(2-) [OF inv] pool_invD(1) [OF inv]
    unfolding p_def [symmetric] Let_def ShardPool_GetShardState_def ShardPool_GetAllBlockHeight_def
      ShardPool_valid_heights by blast
qed

theorem shard_pool_valid_run_witness:
  "let p = pool_run AddShardBlock ShardPool_SetShardState ShardPool_RemoveBlock
             [EvAdd (sample_shard_block 2)] (fst (GetShardPool Map.empty 0))
   in length (spPool p) \<le> 1201 \<and> sincr (ShardPool_GetAllBlockHeight p)"
  using shard_pool_valid_run [of "[EvAdd (sample_shard_block 2)]" 0 "sample_shard_block 3"]
  by (simp add: height_bound_def Let_def)

text \<open>
  C36. Unlike the beacon pool, the shard pool does not advance any further once it holds a
  valid block: \<open>UpdateLatestShardState\<close> compares the first block of the pool with the
  successor of the height it has already reached. Until the chain calls \<open>SetShardState\<close>,
  every later block, the successor included, leaves the valid height as it is.
\<close>

theorem shard_pool_stuck:
  assumes "shard_inv p" "ShardPool_GetValidBlock p \<noteq> []"
  shows "spLatestValidHeight (fst (AddShardBlock p b)) = spLatestValidHeight p"
proof (cases rule: AddShardBlock_cases [where p = p and b = b])
  case (accept pool')
  let ?hs' = "map shardHeight (sort_key shardHeight (pool' @ [b]))"
  note acc = accept_pool [OF assms(1) accept(1-3)]
  have "\<exists>h \<in> set (shardHeights p). h \<le> spLatestValidHeight p"
    using assms(2) by (cases "spPool p") (auto simp: ShardPool_GetValidBlock_def go_simps split: if_splits)
  then obtain h where h: "h \<in> set (shardHeights p)" "h \<le> spLatestValidHeight p" by blast
  have "h \<in> set (map shardHeight pool')" using accept(3)
  proof (cases rule: capacity_check_cases)
    case evict
    then have ne: "shardHeights p \<noteq> []" and "h < last (shardHeights p)"
      using h(2) accept(1) by (auto simp: last_map)
    then show ?thesis using evict(3) h(1)
      set_butlast_distinct [OF sincr_distinct [OF pool_invD(1) [OF assms(1)]] ne]
      by (simp add: map_butlast)
  qed (use h in simp)
  then have "h \<in> set ?hs'" unfolding acc(2) by simp
  with h(2) have "filter (\<lambda>x. x \<le> spLatestValidHeight p) ?hs' \<noteq> []"
    by (metis filter_empty_conv)
  from step_loop_stuck [OF acc(1) this] accept(4) show ?thesis
    by (simp add: ShardPool_UpdateLatestShardState_def step_loop_map [of shardHeight])
qed simp

theorem shard_pool_stuck_witness:
  "let p = \<lparr>spPool = [sample_shard_block 2], spShardID = 0, spLatestValidHeight = 2\<rparr>;
       p' = fst (AddShardBlock p (sample_shard_block 3))
   in ShardPool_GetAllBlockHeight p' = [2, 3] \<and> spLatestValidHeight p' = 2"
  using shard_pool_stuck
      [of "\<lparr>spPool = [sample_shard_block 2], spShardID = 0, spLatestValidHeight = 2\<rparr>"
          "sample_shard_block 3"]
  by (simp add: pool_inv_def ShardPool_GetValidBlock_def go_simps add_block_defs capacity_check_def
      ShardPool_UpdateLatestShardState_def ShardPool_GetAllBlockHeight_def)


end
