(* ===== verification/Cross_Shard.thy ===== *)
theory Cross_Shard
  imports Block_Pool Lvdb
begin

text \<open>
  Cross-shard blocks. The beacon chain records, for each pair of shards, the chain of
  heights at which the first shard sent something to the second
  (\<open>src/blockchain/beaconprocess.go\<close>, through \<open>StoreCrossShardNextHeight\<close>); the pool of the
  receiving shard (\<open>src/mempool/cross_shard_pool_v2.go\<close>) makes a pending block valid only when
  it is the next one of that chain. Signature verification, the committee table and the
  best state of the shard are arguments.
\<close>

section \<open>The pool (cross_shard_pool_v2.go)\<close>

definition MAX_PENDING_CROSS_SHARD_IN_POOL :: nat where
  "MAX_PENDING_CROSS_SHARD_IN_POOL = 100"

datatype cross_error =
    WrongDestination | CrossOldBlock | CrossDuplicateBlock | NoCommittee | BadCommittee
  | BadAggSignature | MaxPendingCrossShard

record ('coin, 'tok) CrossShardPool =
  xShardID :: u8
  xValidPool :: "u8 \<rightharpoonup> ('coin, 'tok) CrossShardBlock list"
  xPendingPool :: "u8 \<rightharpoonup> ('coin, 'tok) CrossShardBlock list"
  xCrossShardState :: "u8 \<rightharpoonup> u64"

abbreviation csHeight :: "('coin, 'tok) CrossShardBlock \<Rightarrow> u64" where
  "csHeight blk \<equiv> shHeight (csHeader blk)"

abbreviation csShardID :: "('coin, 'tok) CrossShardBlock \<Rightarrow> u8" where
  "csShardID blk \<equiv> shShardID (csHeader blk)"

text \<open>The map of pools, one per shard; \<open>crossShardState\<close> is nil until the first update.\<close>

definition GetCrossShardPool ::
  "(u8 \<rightharpoonup> ('coin, 'tok) CrossShardPool) \<Rightarrow> u8 \<Rightarrow>
   ('coin, 'tok) CrossShardPool \<times> (u8 \<rightharpoonup> ('coin, 'tok) CrossShardPool)" where
  "GetCrossShardPool crossShardPoolMap shardID =
    (case crossShardPoolMap shardID of
       None \<Rightarrow>
         (let p = \<lparr>xShardID = shardID, xValidPool = Map.empty, xPendingPool = Map.empty,
                   xCrossShardState = Map.empty\<rparr>
          in (p, crossShardPoolMap(shardID \<mapsto> p)))
     | Some p \<Rightarrow> (p, crossShardPoolMap))"

definition InitCrossShardPool ::
  "(u8 \<rightharpoonup> ('coin, 'tok) CrossShardPool) \<Rightarrow> (u8 \<rightharpoonup> ('coin, 'tok) CrossShardPool)" where
  "InitCrossShardPool crossShardPoolMap =
     fold (\<lambda>i m. snd (GetCrossShardPool m (word_of_nat i))) [0..<255] crossShardPoolMap"

text \<open>
  The next height after \<open>startHeight\<close>; 0 when the database has none. A stored value always
  has eight bytes, as only \<open>StoreCrossShardNextHeight\<close> writes one.
\<close>

definition getNextCrossShardHeight :: "'db leveldb \<Rightarrow> 'db \<Rightarrow> u8 \<Rightarrow> u8 \<Rightarrow> u64 \<Rightarrow> u64" where
  "getNextCrossShardHeight l d fromShard toShard startHeight =
    (case snd (FetchCrossShardNextHeight l fromShard toShard startHeight d) of
       Inl _ \<Rightarrow> 0 | Inr nextHeight \<Rightarrow> nextHeight)"

fun remove_index_loop :: "('b \<Rightarrow> u64) \<Rightarrow> u64 \<Rightarrow> 'b list \<Rightarrow> nat \<Rightarrow> nat" where
  "remove_index_loop hgt h [] removeIndex = removeIndex"
| "remove_index_loop hgt h (blk # blks) removeIndex =
    (if hgt blk \<le> h then remove_index_loop hgt h blks (removeIndex + 1) else removeIndex)"

definition removeBlockByHeight ::
  "('coin, 'tok) CrossShardPool \<Rightarrow> (u8 \<rightharpoonup> u64) \<Rightarrow> ('coin, 'tok) CrossShardPool" where
  "removeBlockByHeight self removeSinceBlkHeight =
    (let cut = (\<lambda>pool shardID. map_option
           (\<lambda>blks. drop (remove_index_loop csHeight (go_get 0 removeSinceBlkHeight shardID) blks 0) blks)
           (pool shardID))
     in self\<lparr>xValidPool := cut (xValidPool self), xPendingPool := cut (xPendingPool self)\<rparr>)"

text \<open>
  The loop over the pending blocks of one shard: the number of blocks that become valid,
  and the height it waits for when it stops early. \<open>startHeight\<close> is not advanced.
\<close>

fun pending_loop :: "(u64 \<Rightarrow> u64) \<Rightarrow> u64 \<Rightarrow> nat \<Rightarrow> ('coin, 'tok) CrossShardBlock list \<Rightarrow> nat \<times> u64 option" where
  "pending_loop next startHeight index [] = (index, None)"
| "pending_loop next startHeight index (blk # blks) =
    (let waitHeight = next startHeight in
     if waitHeight = csHeight blk then pending_loop next startHeight (index + 1) blks
     else (index, Some waitHeight))"

text \<open>
  \<open>updatePool\<close>, with the best state's \<open>BestCrossShard\<close> and the next-height function as
  arguments; the second result is the map of expected heights.
\<close>

definition updatePool ::
  "(u8 \<Rightarrow> u8 \<Rightarrow> u64 \<Rightarrow> u64) \<Rightarrow> (u8 \<rightharpoonup> u64) \<Rightarrow> ('coin, 'tok) CrossShardPool \<Rightarrow>
   ('coin, 'tok) CrossShardPool \<times> (u8 \<rightharpoonup> u64)" where
  "updatePool nextHeight bestCrossShard pool0 =
    (let pool = removeBlockByHeight (pool0\<lparr>xCrossShardState := bestCrossShard\<rparr>) bestCrossShard;
         scan = (\<lambda>blkShardID blks.
           pending_loop (nextHeight blkShardID (xShardID pool)) (go_get 0 bestCrossShard blkShardID) 0 blks)
     in (pool\<lparr>xValidPool := (\<lambda>blkShardID.
                case xPendingPool pool blkShardID of
                  None \<Rightarrow> xValidPool pool blkShardID
                | Some blks \<Rightarrow>
                    (let index = fst (scan blkShardID blks) in
                     if index > 0 then Some (go_get [] (xValidPool pool) blkShardID @ take index blks)
                     else xValidPool pool blkShardID)),
              xPendingPool := (\<lambda>blkShardID.
                map_option (\<lambda>blks. drop (fst (scan blkShardID blks)) blks) (xPendingPool pool blkShardID))\<rparr>,
         (\<lambda>blkShardID.
            case xPendingPool pool blkShardID of None \<Rightarrow> None | Some blks \<Rightarrow> snd (scan blkShardID blks))))"

text \<open>
  \<open>AddCrossShardBlock\<close>: \<open>committees\<close> is the stored committee table of an epoch, \<open>unmarshal\<close> its
  JSON decoding, \<open>verify\<close> is \<open>ValidateAggSignature\<close> of the block against a committee.
\<close>

definition AddCrossShardBlock ::
  "(u8 \<Rightarrow> u8 \<Rightarrow> u64 \<Rightarrow> u64) \<Rightarrow> (u8 \<rightharpoonup> u64) \<Rightarrow> (u64 \<Rightarrow> bytes option) \<Rightarrow>
   (bytes \<Rightarrow> (u8 \<rightharpoonup> string list) option) \<Rightarrow> (('coin, 'tok) CrossShardBlock \<Rightarrow> string list \<Rightarrow> bool) \<Rightarrow>
   ('coin, 'tok) CrossShardPool \<Rightarrow> ('coin, 'tok) CrossShardBlock \<Rightarrow>
   ('coin, 'tok) CrossShardPool \<times> (cross_error + (u8 \<rightharpoonup> u64))" where
  "AddCrossShardBlock nextHeight bestCrossShard committees unmarshal verify pool blk =
    (let shardID = csShardID blk;
         blkHeight = csHeight blk;
         pending = go_get [] (xPendingPool pool) shardID
     in if csToShardID blk \<noteq> xShardID pool then (pool, Inl WrongDestination)
        else if blkHeight \<le> go_get 0 (xCrossShardState pool) shardID then (pool, Inl CrossOldBlock)
        else if contains_height csHeight (go_get [] (xValidPool pool) shardID) blkHeight
          then (pool, Inl CrossDuplicateBlock)
        else if contains_height csHeight pending blkHeight then (pool, Inl CrossDuplicateBlock)
        else
          (case committees (shEpoch (csHeader blk)) of
             None \<Rightarrow> (pool, Inl NoCommittee)
           | Some b \<Rightarrow>
               (case unmarshal b of
                  None \<Rightarrow> (pool, Inl BadCommittee)
                | Some shardCommittee \<Rightarrow>
                    if \<not> verify blk (go_get [] shardCommittee shardID) then (pool, Inl BadAggSignature)
                    else if length pending > MAX_PENDING_CROSS_SHARD_IN_POOL
                      then (pool, Inl MaxPendingCrossShard)
                    else
                      (let pool1 = pool\<lparr>xPendingPool := (xPendingPool pool)
                             (shardID \<mapsto> sort_key csHeight (pending @ [blk]))\<rparr>;
                           (pool2, expectedHeight) = updatePool nextHeight bestCrossShard pool1
                       in (pool2, Inr expectedHeight)))))"

definition CrossShard_GetValidBlock ::
  "('coin, 'tok) CrossShardPool \<Rightarrow> (u8 \<rightharpoonup> u64) option \<Rightarrow> (u8 \<rightharpoonup> ('coin, 'tok) CrossShardBlock list)" where
  "CrossShard_GetValidBlock self limit =
    (\<lambda>shardID. case xValidPool self shardID of
       None \<Rightarrow> None
     | Some blks \<Rightarrow>
         (let final = takeWhile (\<lambda>blk. \<not> (case limit of None \<Rightarrow> False
                | Some l \<Rightarrow> go_get 0 l shardID \<noteq> 0 \<and> go_get 0 l shardID < csHeight blk)) blks
          in if final = [] then None else Some final))"

definition nonempty_map :: "('a list \<Rightarrow> 'b list) \<Rightarrow> (u8 \<rightharpoonup> 'a list) \<Rightarrow> (u8 \<rightharpoonup> 'b list)" where
  "nonempty_map f m = (\<lambda>shardID. case m shardID of None \<Rightarrow> None | Some [] \<Rightarrow> None | Some blks \<Rightarrow> Some (f blks))"

definition CrossShard_GetValidBlockHash ::
  "(('coin, 'tok) CrossShardBlock \<Rightarrow> hash) \<Rightarrow> ('coin, 'tok) CrossShardPool \<Rightarrow> (u8 \<rightharpoonup> hash list)" where
  "CrossShard_GetValidBlockHash blkHash self = nonempty_map (map blkHash) (xValidPool self)"

definition CrossShard_GetValidBlockHeight :: "('coin, 'tok) CrossShardPool \<Rightarrow> (u8 \<rightharpoonup> u64 list)" where
  "CrossShard_GetValidBlockHeight self = nonempty_map (map csHeight) (xValidPool self)"

definition CrossShard_GetPendingBlockHeight :: "('coin, 'tok) CrossShardPool \<Rightarrow> (u8 \<rightharpoonup> u64 list)" where
  "CrossShard_GetPendingBlockHeight self = nonempty_map (map csHeight) (xPendingPool self)"

definition CrossShard_GetAllBlockHeight :: "('coin, 'tok) CrossShardPool \<Rightarrow> (u8 \<rightharpoonup> u64 list)" where
  "CrossShard_GetAllBlockHeight self =
    (\<lambda>shardID.
       let hs = map csHeight (go_get [] (xValidPool self) shardID) @ map csHeight (go_get [] (xPendingPool self) shardID)
       in if hs = [] then None else Some hs)"

definition CrossShard_GetLatestValidBlockHeight :: "('coin, 'tok) CrossShardPool \<Rightarrow> (u8 \<rightharpoonup> u64)" where
  "CrossShard_GetLatestValidBlockHeight self =
    (\<lambda>shardID. map_option (\<lambda>blkItems. if length blkItems > 0 then csHeight (last blkItems) else 0)
       (xValidPool self shardID))"

section \<open>The chain of heights the beacon records (beaconprocess.go)\<close>

text \<open>
  One destination of one shard block. \<open>lastCrossShardState\<close> is the best state's map of maps;
  the errors of the two stores are dropped, as in the source.
\<close>

definition store_cross_to ::
  "'db leveldb \<Rightarrow> u8 \<Rightarrow> u64 \<Rightarrow> u8 \<Rightarrow> 'db \<times> (u8 \<rightharpoonup> (u8 \<rightharpoonup> u64)) \<Rightarrow> 'db \<times> (u8 \<rightharpoonup> (u8 \<rightharpoonup> u64))" where
  "store_cross_to l fromShard waitHeight toShard st =
    (let (d, lastCrossShardState) = st in
     if fromShard = toShard then (d, lastCrossShardState)
     else
       (let lasts = go_get Map.empty lastCrossShardState fromShard;
            lastHeight = go_get 0 lasts toShard;
            d1 = fst (StoreCrossShardNextHeight l fromShard toShard lastHeight waitHeight d);
            d2 = fst (StoreCrossShardNextHeight l fromShard toShard waitHeight 0 d1)
        in (d2, lastCrossShardState(fromShard \<mapsto> lasts(toShard \<mapsto> waitHeight)))))"

definition store_cross_block ::
  "'db leveldb \<Rightarrow> u8 \<Rightarrow> ShardState \<Rightarrow> 'db \<times> (u8 \<rightharpoonup> (u8 \<rightharpoonup> u64)) \<Rightarrow> 'db \<times> (u8 \<rightharpoonup> (u8 \<rightharpoonup> u64))" where
  "store_cross_block l fromShard shardBlock st =
     fold (store_cross_to l fromShard (ssHeight shardBlock)) (ssCrossShard shardBlock) st"

definition store_cross_shard ::
  "'db leveldb \<Rightarrow> u8 \<Rightarrow> ShardState list \<Rightarrow> 'db \<times> (u8 \<rightharpoonup> (u8 \<rightharpoonup> u64)) \<Rightarrow> 'db \<times> (u8 \<rightharpoonup> (u8 \<rightharpoonup> u64))" where
  "store_cross_shard l fromShard shardBlocks st = fold (store_cross_block l fromShard) shardBlocks st"

section \<open>The pool keeps its blocks apart\<close>

text \<open>Any history of a pool: new blocks and updates, whatever the database and best state say.\<close>

inductive cross_reach :: "u8 \<Rightarrow> ('coin, 'tok) CrossShardPool \<Rightarrow> bool" for i where
  start: "cross_reach i (fst (GetCrossShardPool Map.empty i))"
| update: "cross_reach i p \<Longrightarrow> cross_reach i (fst (updatePool nextHeight best p))"
| add: "cross_reach i p \<Longrightarrow>
    cross_reach i (fst (AddCrossShardBlock nextHeight best committees unmarshal verify p blk))"
| remove: "cross_reach i p \<Longrightarrow> cross_reach i (removeBlockByHeight p m)"

abbreviation xValid :: "('coin, 'tok) CrossShardPool \<Rightarrow> u8 \<Rightarrow> ('coin, 'tok) CrossShardBlock list" where
  "xValid p j \<equiv> go_get [] (xValidPool p) j"

abbreviation xPending :: "('coin, 'tok) CrossShardPool \<Rightarrow> u8 \<Rightarrow> ('coin, 'tok) CrossShardBlock list" where
  "xPending p j \<equiv> go_get [] (xPendingPool p) j"

definition cross_inv :: "('coin, 'tok) CrossShardPool \<Rightarrow> bool" where
  "cross_inv p \<longleftrightarrow> (\<forall>j. sincr (map csHeight (xPending p j)) \<and>
     distinct (map csHeight (xValid p j @ xPending p j)) \<and> length (xPending p j) \<le> 101)"

lemma remove_index_loop_eq:
  "drop (remove_index_loop hgt h blks 0) blks = dropWhile (\<lambda>b. hgt b \<le> h) blks"
proof -
  have "remove_index_loop hgt h blks n = n + length (takeWhile (\<lambda>b. hgt b \<le> h) blks)" for n
    by (induction blks arbitrary: n) auto
  then show ?thesis by (simp add: dropWhile_eq_drop)
qed

lemma removeBlock_views:
  "xValid (removeBlockByHeight p m) j = dropWhile (\<lambda>b. csHeight b \<le> go_get 0 m j) (xValid p j)"
  "xPending (removeBlockByHeight p m) j = dropWhile (\<lambda>b. csHeight b \<le> go_get 0 m j) (xPending p j)"
  by (simp_all add: removeBlockByHeight_def Let_def remove_index_loop_eq [symmetric] go_get_def
      split: option.split)

lemma removeBlock_shard [simp]: "xShardID (removeBlockByHeight p m) = xShardID p"
  by (simp add: removeBlockByHeight_def Let_def)

text \<open>The scan of pending blocks with increasing heights stops after at most one block.\<close>

lemma pending_loop_index:
  assumes "sincr (map csHeight blks)"
  shows "pending_loop next s 0 blks =
    (case blks of [] \<Rightarrow> (0, None)
     | b # bs \<Rightarrow> if next s = csHeight b then (1, if bs = [] then None else Some (next s)) else (0, Some (next s)))"
proof (cases blks)
  case (Cons b bs)
  show ?thesis
  proof (cases bs)
    case (Cons c cs)
    have "csHeight b < csHeight c" using assms \<open>blks = b # bs\<close> Cons by simp
    then have "next s = csHeight b \<Longrightarrow> next s \<noteq> csHeight c" by auto
    then show ?thesis using \<open>blks = b # bs\<close> Cons by (simp add: Let_def)
  qed (use Cons in \<open>simp add: Let_def\<close>)
qed simp

lemma updatePool_views:
  fixes best :: "u8 \<rightharpoonup> u64" and nextHeight :: "u8 \<Rightarrow> u8 \<Rightarrow> u64 \<Rightarrow> u64"
  assumes "sincr (map csHeight (xPending p j))"
  defines "s \<equiv> go_get 0 best j"
  defines "rest \<equiv> dropWhile (\<lambda>b. csHeight b \<le> s) (xPending p j)"
  defines "w \<equiv> nextHeight j (xShardID p) s"
  defines "moved \<equiv> (if rest \<noteq> [] \<and> csHeight (hd rest) = w then [hd rest] else [])"
  shows "xValid (fst (updatePool nextHeight best p)) j =
      dropWhile (\<lambda>b. csHeight b \<le> s) (xValid p j) @ moved"
    and "xPending (fst (updatePool nextHeight best p)) j = drop (length moved) rest"
proof -
  let ?q = "removeBlockByHeight (p\<lparr>xCrossShardState := best\<rparr>) best"
  have q: "xValid ?q j = dropWhile (\<lambda>b. csHeight b \<le> s) (xValid p j)" "xPending ?q j = rest"
    by (simp_all add: removeBlock_views s_def rest_def)
  have sr: "sincr (map csHeight rest)"
    unfolding rest_def map_dropWhile_hgt by (rule sincr_dropWhile [OF assms(1)])
  have scan: "fst (pending_loop (nextHeight j (xShardID p)) s 0 rest) = length moved"
    unfolding pending_loop_index [OF sr] moved_def w_def by (auto split: list.split)
  have tk: "take (length moved) rest = moved"
    unfolding moved_def by (cases rest) auto
  show "xValid (fst (updatePool nextHeight best p)) j =
      dropWhile (\<lambda>b. csHeight b \<le> s) (xValid p j) @ moved"
  proof (cases "xPendingPool ?q j")
    case None
    then have "rest = []" using q(2) by (simp add: go_get_def)
    then show ?thesis using None q(1) by (simp add: updatePool_def Let_def go_get_def moved_def)
  next
    case (Some blks)
    then have b: "blks = rest" using q(2) by (simp add: go_get_def)
    show ?thesis
      using Some q(1) scan tk b unfolding s_def
      by (auto simp: updatePool_def Let_def go_get_def)
  qed
  show "xPending (fst (updatePool nextHeight best p)) j = drop (length moved) rest"
    using q(2) scan unfolding s_def
    by (cases "xPendingPool ?q j") (auto simp: updatePool_def Let_def go_get_def)
qed


lemma cross_invD:
  assumes "cross_inv p"
  shows "sincr (map csHeight (xPending p j))" "distinct (map csHeight (xValid p j @ xPending p j))"
    "length (xPending p j) \<le> 101"
  using assms by (simp_all add: cross_inv_def)

lemma distinct_map_dropWhiles:
  assumes "distinct (map f (xs @ ys))"
  shows "distinct (map f (dropWhile P xs @ dropWhile Q ys))"
proof -
  have "distinct (map f (dropWhile P xs))" "distinct (map f (dropWhile Q ys))"
    using assms by (simp_all add: dropWhile_eq_drop drop_map [symmetric])
  moreover have "f ` set (dropWhile P xs) \<subseteq> f ` set xs" "f ` set (dropWhile Q ys) \<subseteq> f ` set ys"
    by (auto dest: set_dropWhileD)
  ultimately show ?thesis using assms by simp blast
qed

lemma cross_inv_remove:
  assumes "cross_inv p"
  shows "cross_inv (removeBlockByHeight p m)"
  unfolding cross_inv_def removeBlock_views
proof (intro allI conjI)
  fix j
  show "sincr (map csHeight (dropWhile (\<lambda>b. csHeight b \<le> go_get 0 m j) (xPending p j)))"
    unfolding map_dropWhile_hgt by (rule sincr_dropWhile [OF cross_invD(1) [OF assms]])
  show "distinct (map csHeight (dropWhile (\<lambda>b. csHeight b \<le> go_get 0 m j) (xValid p j) @
      dropWhile (\<lambda>b. csHeight b \<le> go_get 0 m j) (xPending p j)))"
    by (rule distinct_map_dropWhiles [OF cross_invD(2) [OF assms]])
  show "length (dropWhile (\<lambda>b. csHeight b \<le> go_get 0 m j) (xPending p j)) \<le> 101"
    using cross_invD(3) [OF assms, of j] length_dropWhile_le order_trans by blast
qed

lemma cross_inv_update_weak:
  fixes best :: "u8 \<rightharpoonup> u64" and nextHeight :: "u8 \<Rightarrow> u8 \<Rightarrow> u64 \<Rightarrow> u64"
  assumes "\<forall>j. sincr (map csHeight (xPending p j)) \<and>
     distinct (map csHeight (xValid p j @ xPending p j)) \<and> length (xPending p j) \<le> 101"
  shows "cross_inv (fst (updatePool nextHeight best p))"
  unfolding cross_inv_def
proof (intro allI)
  fix j
  define s where "s = go_get 0 best j"
  define rest where "rest = dropWhile (\<lambda>b. csHeight b \<le> s) (xPending p j)"
  define moved where
    "moved = (if rest \<noteq> [] \<and> csHeight (hd rest) = nextHeight j (xShardID p) s then [hd rest] else [])"
  have sp: "sincr (map csHeight (xPending p j))" using assms by blast
  note V = updatePool_views [OF sp, where best = best and nextHeight = nextHeight, folded s_def, folded rest_def, folded moved_def]
  have tk: "moved @ drop (length moved) rest = rest"
    unfolding moved_def by (cases rest) auto
  have sr: "sincr (map csHeight rest)"
    unfolding rest_def map_dropWhile_hgt by (rule sincr_dropWhile [OF sp])
  have "length rest \<le> 101"
    using assms length_dropWhile_le order_trans unfolding rest_def by blast
  then have "length (drop (length moved) rest) \<le> 101" by simp
  moreover have "sincr (map csHeight (drop (length moved) rest))"
    using sorted_wrt_drop [OF sr, of "length moved"] by (simp add: drop_map)
  moreover have "distinct (map csHeight (dropWhile (\<lambda>b. csHeight b \<le> s) (xValid p j) @ rest))"
    using distinct_map_dropWhiles [of csHeight "xValid p j" "xPending p j"] assms unfolding rest_def by blast
  then have "distinct (map csHeight ((dropWhile (\<lambda>b. csHeight b \<le> s) (xValid p j) @ moved) @ drop (length moved) rest))"
    using tk by simp
  ultimately show "sincr (map csHeight (xPending (fst (updatePool nextHeight best p)) j)) \<and>
     distinct (map csHeight (xValid (fst (updatePool nextHeight best p)) j @
        xPending (fst (updatePool nextHeight best p)) j)) \<and>
     length (xPending (fst (updatePool nextHeight best p)) j) \<le> 101"
    unfolding V by blast
qed

lemma cross_inv_update: "cross_inv p \<Longrightarrow> cross_inv (fst (updatePool nextHeight best p))"
  by (rule cross_inv_update_weak) (simp add: cross_inv_def)

text \<open>The outcomes of \<open>AddCrossShardBlock\<close>.\<close>

lemma AddCrossShardBlock_cases:
  obtains (reject) e where
      "AddCrossShardBlock nextHeight best committees unmarshal verify p b = (p, Inl e)"
  | (accept) c sc where
      "csToShardID b = xShardID p" "go_get 0 (xCrossShardState p) (csShardID b) < csHeight b"
      "csHeight b \<notin> csHeight ` set (xValid p (csShardID b))"
      "csHeight b \<notin> csHeight ` set (xPending p (csShardID b))"
      "committees (shEpoch (csHeader b)) = Some c" "unmarshal c = Some sc"
      "verify b (go_get [] sc (csShardID b))" "length (xPending p (csShardID b)) \<le> 100"
      "AddCrossShardBlock nextHeight best committees unmarshal verify p b =
        (let q = updatePool nextHeight best (p\<lparr>xPendingPool := (xPendingPool p)
             (csShardID b \<mapsto> sort_key csHeight (xPending p (csShardID b) @ [b]))\<rparr>)
         in (fst q, Inr (snd q)))"
proof (cases "\<exists>e. AddCrossShardBlock nextHeight best committees unmarshal verify p b = (p, Inl e)")
  case False
  note add = AddCrossShardBlock_def [of nextHeight best committees unmarshal verify p b, unfolded Let_def contains_height_iff]
  have 1: "csToShardID b = xShardID p" by (rule ccontr) (use False in \<open>simp add: add\<close>)
  have 2: "go_get 0 (xCrossShardState p) (csShardID b) < csHeight b"
    by (rule ccontr) (use False 1 in \<open>simp add: add not_less\<close>)
  then have n2: "\<not> csHeight b \<le> go_get 0 (xCrossShardState p) (csShardID b)" by simp
  have 3: "csHeight b \<notin> csHeight ` set (xValid p (csShardID b))"
    by (rule ccontr) (use False 1 n2 in \<open>simp add: add\<close>)
  have 4: "csHeight b \<notin> csHeight ` set (xPending p (csShardID b))"
    by (rule ccontr) (use False 1 n2 3 in \<open>simp add: add\<close>)
  note add' = add [unfolded if_not_P [OF 3] if_not_P [OF 4]]
  have 5: "\<not> csToShardID b \<noteq> xShardID p" "\<not> csHeight b \<le> go_get 0 (xCrossShardState p) (csShardID b)"
    using 1 2 by simp_all
  note add'' = add' [unfolded if_not_P [OF 5(1)] if_not_P [OF 5(2)]]
  obtain c where 6: "committees (shEpoch (csHeader b)) = Some c"
    using False unfolding add'' by (cases "committees (shEpoch (csHeader b))") simp_all
  obtain sc where 7: "unmarshal c = Some sc"
    using False unfolding add'' 6 by (cases "unmarshal c") simp_all
  have 8: "verify b (go_get [] sc (csShardID b))"
    by (rule ccontr) (use False in \<open>simp add: add'' 6 7\<close>)
  have 9: "length (xPending p (csShardID b)) \<le> 100"
    by (rule ccontr) (use False 8 in \<open>simp add: add'' 6 7 MAX_PENDING_CROSS_SHARD_IN_POOL_def not_le\<close>)
  show ?thesis
  proof (rule accept [OF 1 2 3 4 6 7 8 9])
    show "AddCrossShardBlock nextHeight best committees unmarshal verify p b =
        (let q = updatePool nextHeight best (p\<lparr>xPendingPool := (xPendingPool p)
             (csShardID b \<mapsto> sort_key csHeight (xPending p (csShardID b) @ [b]))\<rparr>)
         in (fst q, Inr (snd q)))"
      using 8 9 unfolding add'' 6 option.case 7 MAX_PENDING_CROSS_SHARD_IN_POOL_def
      by (simp add: Let_def not_less [symmetric] split: prod.split)
  qed
qed (use reject in blast)

lemma cross_inv_add:
  assumes inv: "cross_inv p"
  shows "cross_inv (fst (AddCrossShardBlock nextHeight best committees unmarshal verify p b))"
proof (cases rule: AddCrossShardBlock_cases [where p = p and b = b and nextHeight = nextHeight and
      best = best and committees = committees and unmarshal = unmarshal and verify = verify])
  case (accept c sc)
  let ?i = "csShardID b"
  let ?q = "p\<lparr>xPendingPool := (xPendingPool p)(?i \<mapsto> sort_key csHeight (xPending p ?i @ [b]))\<rparr>"
  note D = cross_invD [OF inv]
  have dist: "distinct (map csHeight (xPending p ?i @ [b]))"
    using D(2) [of ?i] accept(4) by simp
  have s: "sincr (map csHeight (xPending ?q j)) \<and> distinct (map csHeight (xValid ?q j @ xPending ?q j)) \<and>
      length (xPending ?q j) \<le> 101" for j
  proof (cases "j = ?i")
    case True
    have "csHeight ` set (xPending ?q ?i) = insert (csHeight b) (csHeight ` set (xPending p ?i))" by auto
    then show ?thesis
      using True D(2) [of ?i] accept(3,8) sincr_map_sort_key [OF dist] sincr_distinct [OF sincr_map_sort_key [OF dist]]
      by auto
  qed (use D [of j] in simp)
  then show ?thesis
    unfolding accept(9) Let_def fst_conv by (intro cross_inv_update_weak) blast
qed (use inv in simp)

lemma cross_reach_inv: "cross_reach i p \<Longrightarrow> cross_inv p"
proof (induction rule: cross_reach.induct)
  case start
  show ?case by (simp add: cross_inv_def GetCrossShardPool_def Let_def)
qed (simp_all add: cross_inv_update cross_inv_add cross_inv_remove)


text \<open>
  C39. In every state a cross-shard pool can reach, whatever the database, the best state
  and the committees answer, no height of a source shard is held twice (valid and pending
  blocks together), the pending blocks are in strictly increasing order, and there are at
  most 101 of them per source shard.
\<close>

theorem cross_pool_no_duplicates:
  assumes "cross_reach i p"
  shows "sincr (map csHeight (xPending p j)) \<and> distinct (map csHeight (xValid p j @ xPending p j)) \<and>
    length (xPending p j) \<le> 101"
  using cross_invD [OF cross_reach_inv [OF assms], of j] by blast

definition sample_cross_block :: "u8 \<Rightarrow> u8 \<Rightarrow> u64 \<Rightarrow> (unit, unit) CrossShardBlock" where
  "sample_cross_block i j h = \<lparr>csAggregatedSig = [], csR = [], csValidatorsIdx = [], csProducerSig = [],
     csHeader = sample_shard_header i h, csToShardID = j, csMerklePathShard = [],
     csCrossOutputCoin = [], csCrossTxTokenData = []\<rparr>"

lemma sample_cross_block_simps [simp]:
  "csHeight (sample_cross_block i j h) = h" "csShardID (sample_cross_block i j h) = i"
  "csToShardID (sample_cross_block i j h) = j" "shEpoch (csHeader (sample_cross_block i j h)) = 1"
  by (simp_all add: sample_cross_block_def sample_shard_header_def)

definition sample_cross_pool :: "(unit, unit) CrossShardPool" where
  "sample_cross_pool =
     fst (AddCrossShardBlock (\<lambda>_ _ _. 4) Map.empty (\<lambda>_. Some []) (\<lambda>_. Some Map.empty) (\<lambda>_ _. True)
       (fst (GetCrossShardPool Map.empty 1)) (sample_cross_block 2 1 4))"

theorem cross_pool_no_duplicates_witness:
  "distinct (map csHeight (xValid sample_cross_pool 2 @ xPending sample_cross_pool 2)) \<and>
   map csHeight (xValid sample_cross_pool 2) = [4]"
proof -
  have "cross_reach 1 sample_cross_pool"
    unfolding sample_cross_pool_def by (intro cross_reach.add cross_reach.start)
  from cross_pool_no_duplicates [OF this, of 2]
  have d: "distinct (map csHeight (xValid sample_cross_pool 2 @ xPending sample_cross_pool 2))" by blast
  have "xValidPool sample_cross_pool 2 = Some [sample_cross_block 2 1 4]"
    by (simp add: sample_cross_pool_def GetCrossShardPool_def AddCrossShardBlock_def updatePool_def
        removeBlockByHeight_def go_get_def MAX_PENDING_CROSS_SHARD_IN_POOL_def Let_def not_le)
  then show ?thesis using d by (simp add: go_get_def)
qed

text \<open>
  What an update of the pool does for one source shard. Blocks at or below the height
  the shard has already processed are dropped; of the remaining pending blocks only the
  first can become valid, and it does exactly when its height is the next one the beacon
  has recorded after the processed height. So no block is released before the beacon
  confirmed it, and since the start height is not advanced inside the loop, a second
  pending block stays pending even when the beacon has confirmed it too.
\<close>

theorem updatePool_releases_next:
  fixes best :: "u8 \<rightharpoonup> u64" and nextHeight :: "u8 \<Rightarrow> u8 \<Rightarrow> u64 \<Rightarrow> u64"
  assumes "sincr (map csHeight (xPending p j))"
  shows "let s = go_get 0 best j; p' = fst (updatePool nextHeight best p);
             rest = dropWhile (\<lambda>b. csHeight b \<le> s) (xPending p j)
    in (if rest \<noteq> [] \<and> csHeight (hd rest) = nextHeight j (xShardID p) s
        then xValid p' j = dropWhile (\<lambda>b. csHeight b \<le> s) (xValid p j) @ [hd rest] \<and> xPending p' j = tl rest
        else xValid p' j = dropWhile (\<lambda>b. csHeight b \<le> s) (xValid p j) \<and> xPending p' j = rest)"
  using updatePool_views [OF assms, where best = best and nextHeight = nextHeight]
  by (auto simp: Let_def drop_Suc)

theorem updatePool_releases_next_witness:
  "let p = \<lparr>xShardID = 1, xValidPool = Map.empty,
             xPendingPool = [2 \<mapsto> [sample_cross_block 2 1 4, sample_cross_block 2 1 7]],
             xCrossShardState = Map.empty\<rparr> :: (unit, unit) CrossShardPool;
       p' = fst (updatePool (\<lambda>_ _ s. if s = 0 then 4 else if s = 4 then 7 else 0) Map.empty p)
   in xValid p' 2 = [sample_cross_block 2 1 4] \<and> xPending p' 2 = [sample_cross_block 2 1 7]"
proof -
  let ?p = "\<lparr>xShardID = 1, xValidPool = Map.empty,
             xPendingPool = [2 \<mapsto> [sample_cross_block 2 1 4, sample_cross_block 2 1 7]],
             xCrossShardState = Map.empty\<rparr> :: (unit, unit) CrossShardPool"
  have "sincr (map csHeight (xPending ?p 2))" by simp
  from updatePool_releases_next [OF this, where best = Map.empty and
      nextHeight = "\<lambda>_ _ s. if s = 0 then 4 else if s = 4 then 7 else 0"]
  show ?thesis by (simp add: Let_def not_le)
qed

text \<open>
  A block that is refused changes nothing, and an accepted one was sent to this shard,
  is above the processed height, is new, and carries a signature of the committee stored
  for its epoch.
\<close>

theorem AddCrossShardBlock_checked:
  assumes "AddCrossShardBlock nextHeight best committees unmarshal verify p b = (p', r)"
  shows "(\<exists>e. r = Inl e \<and> p' = p) \<or>
    (csToShardID b = xShardID p \<and> go_get 0 (xCrossShardState p) (csShardID b) < csHeight b \<and>
     csHeight b \<notin> csHeight ` set (xValid p (csShardID b) @ xPending p (csShardID b)) \<and>
     (\<exists>c sc. committees (shEpoch (csHeader b)) = Some c \<and> unmarshal c = Some sc \<and>
        verify b (go_get [] sc (csShardID b))))"
  using assms
proof (cases rule: AddCrossShardBlock_cases [where p = p and b = b and nextHeight = nextHeight and
      best = best and committees = committees and unmarshal = unmarshal and verify = verify])
  case (accept c sc)
  then show ?thesis by auto
qed auto

theorem AddCrossShardBlock_checked_witness:
  "let p = fst (GetCrossShardPool Map.empty 1) :: (unit, unit) CrossShardPool;
       (p', r) = AddCrossShardBlock (\<lambda>_ _ _. 4) Map.empty (\<lambda>_. Some []) (\<lambda>_. Some Map.empty)
          (\<lambda>_ _. False) p (sample_cross_block 2 1 4)
   in r = Inl BadAggSignature \<and> p' = p"
proof -
  let ?p = "fst (GetCrossShardPool Map.empty 1) :: (unit, unit) CrossShardPool"
  have "AddCrossShardBlock (\<lambda>_ _ _. 4) Map.empty (\<lambda>_. Some []) (\<lambda>_. Some Map.empty)
          (\<lambda>_ _. False) ?p (sample_cross_block 2 1 4) = (?p, Inl BadAggSignature)"
    by (simp add: GetCrossShardPool_def AddCrossShardBlock_def Let_def not_le)
  from this AddCrossShardBlock_checked [OF this] show ?thesis by simp
qed


section \<open>The recorded heights are a linked list\<close>

text \<open>
  The contract between the beacon chain, which records, and the pools, which follow the
  records: an update of one link, all other links unchanged.
\<close>

locale next_height_db =
  fixes store :: "u8 \<Rightarrow> u8 \<Rightarrow> u64 \<Rightarrow> u64 \<Rightarrow> 'db \<Rightarrow> 'db"
    and fetch :: "'db \<Rightarrow> u8 \<Rightarrow> u8 \<Rightarrow> u64 \<Rightarrow> u64"
  assumes fetch_store:
    "fetch (store f t c n d) f' t' c' = (if f' = f \<and> t' = t \<and> c' = c then n else fetch d f' t' c')"
begin

lemma fetch_record:
  "fetch (store f t w 0 (store f t a w d)) f t = (fetch d f t)(a := w, w := 0)"
  by (auto simp: fetch_store fun_eq_iff)

lemma fetch_record_other:
  "(f', t') \<noteq> (f, t) \<Longrightarrow> fetch (store f t w 0 (store f t a w d)) f' t' = fetch d f' t'"
  by (auto simp: fetch_store fun_eq_iff)

end

text \<open>\<open>linked next a hs\<close>: starting at \<open>a\<close>, following \<open>next\<close> visits exactly \<open>hs\<close> and then ends (0).\<close>

fun linked :: "(u64 \<Rightarrow> u64) \<Rightarrow> u64 \<Rightarrow> u64 list \<Rightarrow> bool" where
  "linked next a [] = (next a = 0)"
| "linked next a (h # hs) = (next a = h \<and> linked next h hs)"

lemma linked_cong: "(\<And>x. x \<in> set (a # hs) \<Longrightarrow> f x = g x) \<Longrightarrow> linked f a hs = linked g a hs"
  by (induction hs arbitrary: a) auto

lemma linked_extend:
  assumes "linked next a hs" "distinct (a # hs)" "w \<notin> set (a # hs)"
  shows "linked (next(last (a # hs) := w, w := 0)) a (hs @ [w])"
  using assms
proof (induction hs arbitrary: a)
  case (Cons h hs)
  have "linked (next(last (h # hs) := w, w := 0)) h (hs @ [w])"
    using Cons.prems by (intro Cons.IH) auto
  moreover have "a \<noteq> last (h # hs)" using Cons.prems(2) last_in_set [of "h # hs"] by auto
  then have "(next(last (h # hs) := w, w := 0)) a = h" using Cons.prems by auto
  ultimately show ?case by (simp del: fun_upd_apply)
qed simp

text \<open>A LevelDB whose writes succeed gives the contract.\<close>

definition puts_succeed :: "'db leveldb \<Rightarrow> bool" where
  "puts_succeed l \<longleftrightarrow> (\<forall>d k v. \<exists>d'. ldb_Put l d k v = Inr d')"

lemma next_height_db_lvdb:
  assumes "leveldb_contract l" "puts_succeed l"
  shows "next_height_db (\<lambda>f t c n d. fst (StoreCrossShardNextHeight l f t c n d)) (getNextCrossShardHeight l)"
proof
  fix f t c n d f' t' c'
  let ?d' = "fst (StoreCrossShardNextHeight l f t c n d)"
  obtain d1 where "ldb_Put l d (nextCrossShardKey f t c) (Uint64ToBytes n) = Inr d1"
    using assms(2) unfolding puts_succeed_def by metis
  then have s: "StoreCrossShardNextHeight l f t c n d = (?d', Inr ())"
    by (simp add: StoreCrossShardNextHeight_def db_Put_def lvdb_Put_def)
  have g: "getNextCrossShardHeight l e a b x = (case ldb_Get l e (nextCrossShardKey a b x) of
      Inl _ \<Rightarrow> 0 | Inr info \<Rightarrow> (case BytesToUint64 info of None \<Rightarrow> 0 | Some m \<Rightarrow> m))" for e a b x
    unfolding getNextCrossShardHeight_def leveldb_contract.FetchCrossShardNextHeight_eq [OF assms(1)]
    by (auto split: sum.splits ldb_error.splits option.splits)
  show "getNextCrossShardHeight l ?d' f' t' c' =
      (if f' = f \<and> t' = t \<and> c' = c then n else getNextCrossShardHeight l d f' t' c')"
    unfolding g leveldb_contract.next_height_get [OF assms(1) s] by simp
qed

interpretation mem_nh: next_height_db
  "\<lambda>f t c n d. fst (StoreCrossShardNextHeight mem_leveldb f t c n d)" "getNextCrossShardHeight mem_leveldb"
  by (rule next_height_db_lvdb [OF mem.leveldb_contract_axioms])
    (simp add: puts_succeed_def mem_leveldb_def)


text \<open>The heights of the blocks of \<open>fromShard\<close> that carry something for \<open>toShard\<close>, in order.\<close>

definition cross_heights :: "u8 \<Rightarrow> ShardState list \<Rightarrow> u64 list" where
  "cross_heights toShard blocks = map ssHeight (filter (\<lambda>b. toShard \<in> set (ssCrossShard b)) blocks)"

text \<open>The database and the best state represent the list \<open>hs\<close> of heights from \<open>f\<close> to \<open>t\<close>.\<close>

definition represents ::
  "'db leveldb \<Rightarrow> u8 \<Rightarrow> u8 \<Rightarrow> u64 list \<Rightarrow> 'db \<times> (u8 \<rightharpoonup> (u8 \<rightharpoonup> u64)) \<Rightarrow> bool" where
  "represents l f t hs st \<longleftrightarrow>
     linked (getNextCrossShardHeight l (fst st) f t) 0 hs \<and>
     go_get 0 (go_get Map.empty (snd st) f) t = last (0 # hs) \<and> sincr (0 # hs)"

lemma store_cross_to_other:
  assumes "leveldb_contract l" "puts_succeed l" "t' \<noteq> t"
  shows "represents l f t hs (store_cross_to l f w t' st) = represents l f t hs st"
proof -
  obtain d ls where st: "st = (d, ls)" by (cases st)
  note other = next_height_db.fetch_record_other [OF next_height_db_lvdb [OF assms(1,2)], of f t f t']
  show ?thesis
    using assms(3) other by (auto simp: st store_cross_to_def represents_def Let_def)
qed

lemma store_cross_to_same:
  assumes "leveldb_contract l" "puts_succeed l" "f \<noteq> t" "represents l f t hs st" "last (0 # hs) < w"
  shows "represents l f t (hs @ [w]) (store_cross_to l f w t st)"
proof -
  obtain d ls where st: "st = (d, ls)" by (cases st)
  let ?next = "getNextCrossShardHeight l d f t"
  have R: "linked ?next 0 hs" "go_get 0 (go_get Map.empty ls f) t = last (0 # hs)" "sincr (0 # hs)"
    using assms(4) by (simp_all add: represents_def st)
  have lt: "x < w" if "x \<in> set (0 # hs)" for x
  proof -
    have "x \<le> last (0 # hs)" by (rule sincr_le_last [OF R(3) that])
    then show ?thesis using assms(5) by (rule le_less_trans)
  qed
  then have w: "w \<notin> set (0 # hs)" by blast
  have "linked (?next(last (0 # hs) := w, w := 0)) 0 (hs @ [w])"
    by (rule linked_extend [OF R(1) sincr_distinct [OF R(3)] w])
  moreover have "sincr (0 # (hs @ [w]))" using R(3) lt by (auto simp: sorted_wrt_append)
  ultimately show ?thesis
    using assms(3) R(2) next_height_db.fetch_record [OF next_height_db_lvdb [OF assms(1,2)], of f t w "last (0 # hs)" d]
    by (simp add: st store_cross_to_def represents_def Let_def del: fun_upd_apply)
qed


lemma store_cross_block_represents:
  assumes c: "leveldb_contract l" "puts_succeed l" and ft: "f \<noteq> t"
    and r: "represents l f t hs st" and w: "last (0 # hs) < ssHeight b" and dist: "distinct (ssCrossShard b)"
  shows "represents l f t (hs @ cross_heights t [b]) (store_cross_block l f b st)"
proof -
  have "represents l f t (if t \<in> set ts then hs @ [ssHeight b] else hs) (fold (store_cross_to l f (ssHeight b)) ts st)"
    if "distinct ts" for ts
    using that
  proof (induction ts rule: rev_induct)
    case (snoc t' ts)
    then have IH: "represents l f t (if t \<in> set ts then hs @ [ssHeight b] else hs)
        (fold (store_cross_to l f (ssHeight b)) ts st)" by simp
    show ?case
    proof (cases "t' = t")
      case True
      then have "t \<notin> set ts" using snoc.prems by simp
      with IH store_cross_to_same [OF c ft _ w] True show ?thesis by simp
    next
      case False
      with IH store_cross_to_other [OF c False] show ?thesis by auto
    qed
  qed (use r in simp)
  from this [OF dist] show ?thesis
    by (simp add: store_cross_block_def cross_heights_def split: if_splits)
qed

text \<open>
  C2. Recording refines a list. Let the heights the beacon has recorded from shard \<open>f\<close> to
  shard \<open>t\<close> be the list \<open>hs\<close>: following \<open>FetchCrossShardNextHeight\<close> from 0 visits exactly \<open>hs\<close>.
  After it processes further blocks of \<open>f\<close> in increasing height, the database represents
  \<open>hs\<close> followed by the heights of exactly those blocks that carry something for \<open>t\<close>. So a
  pool that follows the records sees every cross-shard block once, in order.
\<close>

theorem beacon_records_cross_heights:
  assumes "leveldb_contract l" "puts_succeed l" "f \<noteq> t" "represents l f t hs st"
    and "sincr (last (0 # hs) # map ssHeight blocks)" "list_all (\<lambda>b. distinct (ssCrossShard b)) blocks"
  shows "represents l f t (hs @ cross_heights t blocks) (store_cross_shard l f blocks st)"
  using assms(4-6)
proof (induction blocks arbitrary: hs st)
  case Nil
  then show ?case by (simp add: store_cross_shard_def cross_heights_def)
next
  case (Cons b bs)
  let ?hs = "hs @ cross_heights t [b]" and ?st = "store_cross_block l f b st"
  have r: "represents l f t ?hs ?st"
    using Cons.prems by (intro store_cross_block_represents [OF assms(1-3)]) auto
  have "sincr (last (0 # ?hs) # map ssHeight bs)"
    using Cons.prems(2) by (auto simp: cross_heights_def)
  from Cons.IH [OF r this] Cons.prems(3)
  show ?case by (simp add: store_cross_shard_def cross_heights_def split: if_splits)
qed

definition sample_shard_state :: "u64 \<Rightarrow> u8 list \<Rightarrow> ShardState" where
  "sample_shard_state h ts = \<lparr>ssHeight = h, ssHash = [], ssCrossShard = ts\<rparr>"

theorem beacon_records_cross_heights_witness:
  "represents mem_leveldb 0 1 [3, 8]
     (store_cross_shard mem_leveldb 0
        [sample_shard_state 3 [1, 2], sample_shard_state 5 [2], sample_shard_state 8 [1]]
        (Map.empty, Map.empty))"
proof -
  have "represents mem_leveldb 0 1 [] (Map.empty, Map.empty)"
    unfolding represents_def getNextCrossShardHeight_def mem.FetchCrossShardNextHeight_eq
    by (simp add: mem_leveldb_def)
  from beacon_records_cross_heights [OF mem.leveldb_contract_axioms _ _ this, where
      blocks = "[sample_shard_state 3 [1, 2], sample_shard_state 5 [2], sample_shard_state 8 [1]]"]
  show ?thesis
    unfolding puts_succeed_def
    by (simp add: cross_heights_def sample_shard_state_def) (simp add: mem_leveldb_def)
qed

section \<open>The pool of a node that follows the beacon\<close>

text \<open>
  The histories of the pool of shard \<open>i\<close> at a node: \<open>H j\<close> are the heights from shard \<open>j\<close> that the beacon has
  recorded so far and \<open>best j\<close> the last of them that the shard has processed. The beacon only
  appends to its record, the shard only goes forward in it, and the database answers what was recorded.
\<close>

inductive cross_run :: "u8 \<Rightarrow> (u8 \<Rightarrow> u64 list) \<Rightarrow> (u8 \<rightharpoonup> u64) \<Rightarrow> ('coin, 'tok) CrossShardPool \<Rightarrow> bool" for i where
  xrun_start: "\<forall>j. sincr (0 # H j) \<and> go_get 0 best j \<in> set (0 # H j) \<Longrightarrow>
    cross_run i H best (fst (GetCrossShardPool Map.empty i))"
| xrun_beacon: "cross_run i H best p \<Longrightarrow> \<forall>j. (\<exists>new. H' j = H j @ new) \<and> sincr (0 # H' j) \<Longrightarrow> cross_run i H' best p"
| xrun_chain: "cross_run i H best p \<Longrightarrow> \<forall>j. go_get 0 best j \<le> go_get 0 best' j \<and> go_get 0 best' j \<in> set (0 # H j) \<Longrightarrow>
    cross_run i H best' p"
| xrun_update: "cross_run i H best p \<Longrightarrow> \<forall>j. linked (nextHeight j i) 0 (H j) \<Longrightarrow>
    cross_run i H best (fst (updatePool nextHeight best p))"
| xrun_add: "cross_run i H best p \<Longrightarrow> \<forall>j. linked (nextHeight j i) 0 (H j) \<Longrightarrow>
    cross_run i H best (fst (AddCrossShardBlock nextHeight best committees unmarshal verify p blk))"
| xrun_remove: "cross_run i H best p \<Longrightarrow> cross_run i H best (removeBlockByHeight p m)"

lemma cross_run_reach: "cross_run i H best p \<Longrightarrow> cross_reach i p"
  by (induction rule: cross_run.induct) (auto intro: cross_reach.intros)

lemma cross_run_record: "cross_run i H best p \<Longrightarrow> sincr (0 # H j) \<and> go_get 0 best j \<in> set (0 # H j)"
proof (induction arbitrary: j rule: cross_run.induct)
  case (xrun_beacon H best p H')
  then obtain new where "H' j = H j @ new" "sincr (0 # H' j)" by blast
  then show ?case using xrun_beacon.IH [of j] by auto
qed blast+

lemma linked_next:
  assumes "linked next a hs" "sincr (a # hs)" "s \<in> set (a # hs)" "s < next s"
  shows "next s \<in> set hs \<and> (\<forall>x \<in> set (a # hs). x < next s \<longrightarrow> x \<le> s)"
  using assms
proof (induction hs arbitrary: a)
  case (Cons h hs)
  show ?case
  proof (cases "s = a")
    case False
    then have "next s \<in> set hs \<and> (\<forall>x \<in> set (h # hs). x < next s \<longrightarrow> x \<le> s)" using Cons by auto
    moreover have "a \<le> s" using Cons.prems False by auto
    ultimately show ?thesis by simp
  qed (use Cons.prems in auto)
qed simp

text \<open>
  Block \<open>b\<close> from shard \<open>j\<close> is the one the shard has to process next, or one it has already
  processed.
\<close>

definition due :: "u64 list \<Rightarrow> u64 \<Rightarrow> u64 \<Rightarrow> bool" where
  "due hs s h \<longleftrightarrow> h \<in> set hs \<and> (\<forall>x \<in> set (0 # hs). x < h \<longrightarrow> x \<le> s)"

definition filed :: "('coin, 'tok) CrossShardPool \<Rightarrow> bool" where
  "filed p \<longleftrightarrow> (\<forall>j. \<forall>b \<in> set (xValid p j) \<union> set (xPending p j). csShardID b = j)"

definition run_inv :: "u8 \<Rightarrow> (u8 \<Rightarrow> u64 list) \<Rightarrow> (u8 \<rightharpoonup> u64) \<Rightarrow> ('coin, 'tok) CrossShardPool \<Rightarrow> bool" where
  "run_inv i H best p \<longleftrightarrow> xShardID p = i \<and> filed p \<and>
     (\<forall>j. length (xValid p j) \<le> 1 \<and> (\<forall>b \<in> set (xValid p j). due (H j) (go_get 0 best j) (csHeight b)))"

lemma run_inv_update:
  fixes p :: "('coin, 'tok) CrossShardPool"
  assumes ok: "\<And>j. sincr (map csHeight (xPending p j))" "\<And>j. distinct (map csHeight (xValid p j @ xPending p j))"
    and inv: "run_inv i H best p" and nxt: "\<And>j. linked (nextHeight j i) 0 (H j)"
    and rcd: "\<And>j. sincr (0 # H j)" "\<And>j. go_get 0 best j \<in> set (0 # H j)"
  shows "run_inv i H best (fst (updatePool nextHeight best p))"
proof -
  let ?p = "fst (updatePool nextHeight best p)"
  have i: "xShardID p = i" "xShardID ?p = i" using inv by (simp_all add: run_inv_def updatePool_def Let_def)
  have one: "(\<forall>b \<in> set (xValid ?p j) \<union> set (xPending ?p j). csShardID b = j) \<and> length (xValid ?p j) \<le> 1 \<and>
      (\<forall>b \<in> set (xValid ?p j). due (H j) (go_get 0 best j) (csHeight b))" for j
  proof -
    define s rest where "s = go_get 0 best j" and "rest = dropWhile (\<lambda>b. csHeight b \<le> s) (xPending p j)"
    define old where "old = dropWhile (\<lambda>b. csHeight b \<le> s) (xValid p j)"
    define moved where "moved = (if rest \<noteq> [] \<and> csHeight (hd rest) = nextHeight j i s then [hd rest] else [])"
    have V: "xValid ?p j = old @ moved" "xPending ?p j = drop (length moved) rest"
      using updatePool_views [OF ok(1), of nextHeight best] by (simp_all add: s_def rest_def old_def moved_def i)
    have sub: "set moved \<subseteq> set rest" "set rest \<subseteq> set (xPending p j)" "set old \<subseteq> set (xValid p j)"
      using hd_in_set [of rest] unfolding rest_def old_def by (auto simp only: moved_def rest_def split: if_splits dest: set_dropWhileD) auto
    have new: "s < csHeight b \<and> due (H j) s (csHeight b) \<and> csHeight b = nextHeight j i s" if "b \<in> set moved" for b
    proof -
      have b: "rest \<noteq> []" "b = hd rest" "csHeight b = nextHeight j i s" using that by (auto simp: moved_def split: if_splits)
      have "s < csHeight b" using hd_dropWhile [of "\<lambda>b. csHeight b \<le> s" "xPending p j"] b by (auto simp: rest_def)
      then show ?thesis using linked_next [OF nxt rcd(1) rcd(2), of j] b(3) by (simp add: due_def s_def)
    qed
    have "old = [] \<or> moved = []"
    proof (rule ccontr)
      assume "\<not> (old = [] \<or> moved = [])"
      then obtain b bs c cs where bc: "old = b # bs" "moved = c # cs" by (meson neq_Nil_conv)
      have b: "b \<in> set (xValid p j)" "s < csHeight b" "due (H j) s (csHeight b)"
        using bc(1) sub(3) hd_dropWhile [of "\<lambda>b. csHeight b \<le> s" "xValid p j"] inv
        by (auto simp: old_def run_inv_def s_def)
      have "csHeight b = csHeight c"
      proof (cases "csHeight b" "csHeight c" rule: linorder_cases)
        case less
        then show ?thesis using b new [of c] bc(2) by (auto simp: due_def)
      next
        case greater
        then show ?thesis using b new [of c] bc(2) by (auto simp: due_def)
      qed
      moreover have "c \<in> set (xPending p j)" using bc(2) sub by auto
      ultimately show False using ok(2) [of j] b(1) by (force simp: image_iff)
    qed
    moreover have l: "length old \<le> 1" "length moved \<le> 1" "\<forall>b \<in> set old. due (H j) s (csHeight b)"
      using inv sub(3) length_dropWhile_le [of "\<lambda>b. csHeight b \<le> s" "xValid p j"]
      by (auto simp: run_inv_def s_def old_def moved_def intro: order_trans)
    ultimately have "length (xValid ?p j) \<le> 1" using V by auto
    moreover have "\<forall>b \<in> set (xValid ?p j). due (H j) s (csHeight b)" using V(1) l(3) new by fastforce
    moreover have "set (xValid ?p j) \<union> set (xPending ?p j) \<subseteq> set (xValid p j) \<union> set (xPending p j)"
      using V sub set_drop_subset [of "length moved" rest] by auto
    ultimately show ?thesis using inv unfolding run_inv_def filed_def s_def by blast
  qed
  then show ?thesis by (auto simp: run_inv_def filed_def i)
qed

lemma run_inv_add:
  assumes inv: "run_inv i H best p" "cross_inv p" and nxt: "\<And>j. linked (nextHeight j i) 0 (H j)"
    and rcd: "\<And>j. sincr (0 # H j)" "\<And>j. go_get 0 best j \<in> set (0 # H j)"
  shows "run_inv i H best (fst (AddCrossShardBlock nextHeight best committees unmarshal verify p b))"
proof (cases rule: AddCrossShardBlock_cases [where p = p and b = b and nextHeight = nextHeight and
      best = best and committees = committees and unmarshal = unmarshal and verify = verify])
  case (accept c sc)
  let ?i = "csShardID b"
  let ?q = "p\<lparr>xPendingPool := (xPendingPool p)(?i \<mapsto> sort_key csHeight (xPending p ?i @ [b]))\<rparr>"
  note D = cross_invD [OF inv(2)]
  have dist: "distinct (map csHeight (xPending p ?i @ [b]))" using D(2) [of ?i] accept(4) by simp
  have q: "xValid ?q j = xValid p j" "xPending ?q j = (if j = ?i then sort_key csHeight (xPending p ?i @ [b]) else xPending p j)" for j
    by (simp_all add: go_get_def)
  have "sincr (map csHeight (xPending ?q j))" for j using D(1) sincr_map_sort_key [OF dist] by (simp add: q)
  moreover have "distinct (map csHeight (xValid ?q j @ xPending ?q j))" for j
    using D(2) [of j] D(2) [of ?i] accept(3) sincr_distinct [OF sincr_map_sort_key [OF dist]] by (auto simp: q)
  moreover have "run_inv i H best ?q" using inv(1) by (auto simp: run_inv_def filed_def q)
  ultimately show ?thesis unfolding accept(9) Let_def fst_conv by (rule run_inv_update) (rule nxt rcd)+
qed (use inv in simp)

lemma cross_run_inv: "cross_run i H best p \<Longrightarrow> run_inv i H best p"
proof (induction rule: cross_run.induct)
  case (xrun_start H best)
  show ?case by (simp add: run_inv_def filed_def GetCrossShardPool_def Let_def go_get_def)
next
  case (xrun_beacon H best p H')
  have "due (H' j) s h" if "due (H j) s h" for j s h
  proof -
    obtain new where "H' j = H j @ new" "sincr (0 # H' j)" using xrun_beacon by blast
    moreover from this have "\<not> x < h" if "x \<in> set new" for x
      using that \<open>due (H j) s h\<close> by (auto simp: due_def sorted_wrt_append not_less intro: less_imp_le)
    ultimately show ?thesis using that by (auto simp: due_def)
  qed
  then show ?case using xrun_beacon by (simp add: run_inv_def)
next
  case (xrun_chain H best p best')
  then show ?case unfolding run_inv_def due_def by (meson order_trans)
next
  case (xrun_update H best p nextHeight)
  note c = cross_invD [OF cross_reach_inv [OF cross_run_reach [OF xrun_update(1)]]] and r = cross_run_record [OF xrun_update(1)]
  show ?case by (rule run_inv_update [OF c(1,2) xrun_update(3)]) (use r xrun_update(2) in blast)+
next
  case (xrun_add H best p nextHeight committees unmarshal verify blk)
  note c = cross_reach_inv [OF cross_run_reach [OF xrun_add(1)]] and r = cross_run_record [OF xrun_add(1)]
  show ?case by (rule run_inv_add [OF xrun_add(3) c]) (use r xrun_add(2) in blast)+
next
  case (xrun_remove H best p m)
  then show ?case unfolding run_inv_def filed_def removeBlock_views removeBlock_shard
    by (meson Un_iff length_dropWhile_le order_trans set_dropWhileD)
qed

text \<open>
  So a node that follows the beacon has at most one valid block from each shard, filed under its
  source: the next block after the one the shard has processed, as the beacon recorded it.
\<close>

lemma cross_run_valid:
  assumes "cross_run i H best p"
  shows "length (xValid p j) \<le> 1" "sincr (map csHeight (xValid p j))" "list_all (\<lambda>b. csShardID b = j) (xValid p j)"
    "b \<in> set (xValid p j) \<Longrightarrow> due (H j) (go_get 0 best j) (csHeight b)"
proof -
  note inv = cross_run_inv [OF assms, unfolded run_inv_def filed_def]
  show l: "length (xValid p j) \<le> 1" "list_all (\<lambda>b. csShardID b = j) (xValid p j)"
    "b \<in> set (xValid p j) \<Longrightarrow> due (H j) (go_get 0 best j) (csHeight b)" using inv by (auto simp: list_all_iff)
  show "sincr (map csHeight (xValid p j))" using l(1) by (cases "xValid p j") auto
qed

end
