(* ===== verification/Shard_To_Beacon.thy ===== *)
theory Shard_To_Beacon
  imports Block_Pool
begin

text \<open>
  The pool of shard blocks sent to the beacon chain
  (\<open>src/mempool/shard_to_beacon_pool_v2.go\<close>): one list of blocks and one valid height per
  shard. The two Go maps are partial functions; an iteration over a map changes each
  shard's entry on its own, so it is a pointwise update. The contract of
  \<open>height_pool\<close> is interpreted for every shard. The order in which the methods take the
  two mutexes is modelled on its own at the end.
\<close>

section \<open>State and operations\<close>

definition MAX_VALID_SHARD_TO_BEACON_BLK_IN_POOL :: int where
  "MAX_VALID_SHARD_TO_BEACON_BLK_IN_POOL = 1000"

definition MAX_INVALID_SHARD_TO_BEACON_BLK_IN_POOL :: int where
  "MAX_INVALID_SHARD_TO_BEACON_BLK_IN_POOL = 200"

record ShardToBeaconPool =
  s2bPool :: "u8 \<rightharpoonup> ShardToBeaconBlock list"
  s2bLatestValidHeight :: "u8 \<rightharpoonup> u64"

abbreviation tbHeight :: "ShardToBeaconBlock \<Rightarrow> u64" where
  "tbHeight blk \<equiv> shHeight (tbHeader blk)"

abbreviation tbShardID :: "ShardToBeaconBlock \<Rightarrow> u8" where
  "tbShardID blk \<equiv> shShardID (tbHeader blk)"

definition GetShardToBeaconPool :: "ShardToBeaconPool option \<Rightarrow> ShardToBeaconPool" where
  "GetShardToBeaconPool shardToBeaconPool =
    (case shardToBeaconPool of
       None \<Rightarrow> \<lparr>s2bPool = Map.empty, s2bLatestValidHeight = Map.empty\<rparr> | Some p \<Rightarrow> p)"

definition S2B_UpdateLatestShardState :: "ShardToBeaconPool \<Rightarrow> ShardToBeaconPool" where
  "S2B_UpdateLatestShardState self =
     self\<lparr>s2bLatestValidHeight := (\<lambda>shardID.
       case s2bPool self shardID of
         None \<Rightarrow> s2bLatestValidHeight self shardID
       | Some blks \<Rightarrow>
           (let latest = go_get 0 (s2bLatestValidHeight self) shardID;
                lastHeight = (if latest = 0 then 1 else latest)
            in Some (advance_loop tbHeight lastHeight blks)))\<rparr>"

definition RemovePendingBlock :: "ShardToBeaconPool \<Rightarrow> (u8 \<rightharpoonup> u64) \<Rightarrow> ShardToBeaconPool" where
  "RemovePendingBlock self blockItems =
     self\<lparr>s2bPool := (\<lambda>shardID.
       case blockItems shardID of
         None \<Rightarrow> s2bPool self shardID
       | Some blockHeight \<Rightarrow>
           map_option (\<lambda>blks. remove_loop tbHeight blockHeight 0 blks blks) (s2bPool self shardID))\<rparr>"

text \<open>
  \<open>SetShardState\<close> also raises the heights below 1 in the map it is given; the caller's
  map (the beacon best state's \<open>BestShardHeight\<close>) is the second component.
\<close>

definition S2B_SetShardState ::
  "ShardToBeaconPool \<Rightarrow> (u8 \<rightharpoonup> u64) \<Rightarrow> ShardToBeaconPool \<times> (u8 \<rightharpoonup> u64)" where
  "S2B_SetShardState self latestShardState =
    (let latestShardState' = (\<lambda>shardID. map_option (\<lambda>h. if h < 1 then 1 else h) (latestShardState shardID));
         self1 = self\<lparr>s2bLatestValidHeight := s2bLatestValidHeight self ++ latestShardState'\<rparr>;
         self2 = RemovePendingBlock self1 latestShardState'
     in (S2B_UpdateLatestShardState self2, latestShardState'))"

definition InitShardToBeaconPool ::
  "ShardToBeaconPool option \<Rightarrow> (u8 \<rightharpoonup> u64) \<Rightarrow> ShardToBeaconPool \<times> (u8 \<rightharpoonup> u64)" where
  "InitShardToBeaconPool shardToBeaconPool bestShardHeight =
     S2B_SetShardState (GetShardToBeaconPool shardToBeaconPool) bestShardHeight"

definition S2B_GetShardState :: "ShardToBeaconPool \<Rightarrow> u8 \<rightharpoonup> u64" where
  "S2B_GetShardState self = s2bLatestValidHeight self"

text \<open>The result is the new pool, the range of heights to request, and the error.\<close>

definition AddShardToBeaconBlock ::
  "ShardToBeaconPool \<Rightarrow> ShardToBeaconBlock \<Rightarrow> ShardToBeaconPool \<times> u64 \<times> u64 \<times> pool_error option" where
  "AddShardToBeaconBlock self0 blk =
    (let blkShardID = tbShardID blk;
         blkHeight = tbHeight blk;
         self = (if go_get 0 (s2bLatestValidHeight self0) blkShardID = 0
                 then self0\<lparr>s2bLatestValidHeight := (s2bLatestValidHeight self0)(blkShardID \<mapsto> 1)\<rparr>
                 else self0);
         latest = go_get 0 (s2bLatestValidHeight self) blkShardID;
         pool = go_get [] (s2bPool self) blkShardID
     in if blkHeight \<le> latest then (self, 0, 0, Some ReceiveOldBlock)
        else if contains_height tbHeight pool blkHeight then (self, 0, 0, Some ReceiveDuplicateBlock)
        else
          (case capacity_check MAX_VALID_SHARD_TO_BEACON_BLK_IN_POOL
                  MAX_INVALID_SHARD_TO_BEACON_BLK_IN_POOL tbHeight latest pool blkHeight of
             Inl e \<Rightarrow> (self, 0, 0, Some e)
           | Inr pool' \<Rightarrow>
               (let self' = S2B_UpdateLatestShardState
                      (self\<lparr>s2bPool := (s2bPool self)(blkShardID \<mapsto> sort_key tbHeight (pool' @ [blk]))\<rparr>);
                    first = tbHeight (hd (go_get [] (s2bPool self') blkShardID));
                    latest' = go_get 0 (s2bLatestValidHeight self') blkShardID
                in if first > latest' then
                     (let offset0 = first - latest';
                          offset = (if offset0 > 1000 then 1000 else offset0)
                      in (self', latest' + 1, latest' + offset, None))
                   else (self', 0, 0, None))))"

fun s2b_valid_loop ::
  "u64 \<Rightarrow> (u8 \<rightharpoonup> u64) option \<Rightarrow> u8 \<Rightarrow> ShardToBeaconBlock list \<Rightarrow> ShardToBeaconBlock list \<Rightarrow>
   ShardToBeaconBlock list" where
  "s2b_valid_loop latest limit shardID final [] = final"
| "s2b_valid_loop latest limit shardID final (blk # blks) =
    (if tbHeight blk > latest then final
     else if (case limit of None \<Rightarrow> False
              | Some l \<Rightarrow> go_get 0 l shardID \<noteq> 0 \<and> go_get 0 l shardID < tbHeight blk) then final
     else s2b_valid_loop latest limit shardID (final @ [blk]) blks)"

text \<open>A shard without a block to return has no entry in the result.\<close>

definition nonempty_entry :: "'a list \<Rightarrow> 'a list option" where
  "nonempty_entry xs = (if xs = [] then None else Some xs)"

definition GetValidPendingBlock ::
  "ShardToBeaconPool \<Rightarrow> (u8 \<rightharpoonup> u64) option \<Rightarrow> (u8 \<rightharpoonup> ShardToBeaconBlock list) \<times> ShardToBeaconPool" where
  "GetValidPendingBlock self limit =
    (let latest' = (\<lambda>shardID.
           if s2bPool self shardID \<noteq> None \<and> go_get 0 (s2bLatestValidHeight self) shardID = 0
           then Some 1 else s2bLatestValidHeight self shardID);
         self' = self\<lparr>s2bLatestValidHeight := latest'\<rparr>
     in (\<lambda>shardID. case s2bPool self shardID of
            None \<Rightarrow> None
          | Some blks \<Rightarrow> nonempty_entry (s2b_valid_loop (go_get 0 latest' shardID) limit shardID [] blks),
         self'))"

definition GetValidPendingBlockHash ::
  "(ShardToBeaconBlock \<Rightarrow> hash) \<Rightarrow> ShardToBeaconPool \<Rightarrow> (u8 \<rightharpoonup> hash list)" where
  "GetValidPendingBlockHash blkHash self =
     (\<lambda>shardID. map_option (map blkHash) (fst (GetValidPendingBlock self None) shardID))"

definition GetValidPendingBlockHeight :: "ShardToBeaconPool \<Rightarrow> (u8 \<rightharpoonup> u64 list)" where
  "GetValidPendingBlockHeight self =
     (\<lambda>shardID. map_option (map tbHeight) (fst (GetValidPendingBlock self None) shardID))"

definition GetLatestValidPendingBlockHeight :: "ShardToBeaconPool \<Rightarrow> (u8 \<rightharpoonup> u64)" where
  "GetLatestValidPendingBlockHeight self =
     (\<lambda>shardID. map_option (last_height_loop tbHeight 0) (fst (GetValidPendingBlock self None) shardID))"

definition GetAllPendingBlockHeight :: "ShardToBeaconPool \<Rightarrow> (u8 \<rightharpoonup> u64 list)" where
  "GetAllPendingBlockHeight self =
     (\<lambda>shardID. case s2bPool self shardID of
        None \<Rightarrow> None | Some blks \<Rightarrow> nonempty_entry (map tbHeight blks))"

section \<open>The view of one shard\<close>

text \<open>A shard without a recorded height counts as being at height 1.\<close>

definition s2bHeights :: "u8 \<Rightarrow> ShardToBeaconPool \<Rightarrow> u64 list" where
  "s2bHeights i p = map tbHeight (go_get [] (s2bPool p) i)"

definition s2bLatest :: "u8 \<Rightarrow> ShardToBeaconPool \<Rightarrow> u64" where
  "s2bLatest i p =
     (let l = go_get 0 (s2bLatestValidHeight p) i in if l = 0 then 1 else l)"

abbreviation s2b_inv :: "u8 \<Rightarrow> ShardToBeaconPool \<Rightarrow> bool" where
  "s2b_inv i p \<equiv> pool_inv (s2bLatest i p) (s2bHeights i p)"

definition s2b_add :: "ShardToBeaconPool \<Rightarrow> ShardToBeaconBlock \<Rightarrow> ShardToBeaconPool \<times> pool_error option" where
  "s2b_add p b = (case AddShardToBeaconBlock p b of (p', _, _, e) \<Rightarrow> (p', e))"

definition s2b_set :: "ShardToBeaconPool \<Rightarrow> (u8 \<rightharpoonup> u64) \<Rightarrow> ShardToBeaconPool" where
  "s2b_set p m = fst (S2B_SetShardState p m)"

lemma advance_loop_pos:
  assumes "pool_inv L hs" "L \<noteq> 0"
  shows "advance_loop (\<lambda>x. x) L hs \<noteq> 0"
  using pool_inv_advance(2) [OF assms(1)] assms(2) by auto

lemma s2bLatest_pos: "s2bLatest i p \<noteq> 0"
  by (simp add: s2bLatest_def Let_def)

lemma update_heights [simp]: "s2bHeights i (S2B_UpdateLatestShardState p) = s2bHeights i p"
  by (simp add: s2bHeights_def S2B_UpdateLatestShardState_def)

lemma update_latest:
  assumes "s2b_inv i p"
  shows "s2bLatest i (S2B_UpdateLatestShardState p) =
         advance_loop (\<lambda>x. x) (s2bLatest i p) (s2bHeights i p)"
proof (cases "s2bPool p i")
  case None
  then show ?thesis
    by (simp add: s2bLatest_def s2bHeights_def S2B_UpdateLatestShardState_def go_get_def)
next
  case (Some blks)
  then have "go_get 0 (s2bLatestValidHeight (S2B_UpdateLatestShardState p)) i =
      advance_loop (\<lambda>x. x) (s2bLatest i p) (s2bHeights i p)"
    by (simp add: s2bLatest_def s2bHeights_def S2B_UpdateLatestShardState_def go_get_def Let_def
        advance_loop_map [of tbHeight])
  with advance_loop_pos [OF assms s2bLatest_pos] show ?thesis
    by (simp add: s2bLatest_def Let_def)
qed

lemma update_inv: "s2b_inv i p \<Longrightarrow> s2b_inv i (S2B_UpdateLatestShardState p)"
  by (simp add: update_latest pool_inv_advance)

lemma remove_heights:
  "s2bHeights i (RemovePendingBlock p m) =
    (case m i of None \<Rightarrow> s2bHeights i p | Some h \<Rightarrow> dropWhile (\<lambda>x. x \<le> h) (s2bHeights i p))"
  by (auto simp: s2bHeights_def RemovePendingBlock_def go_get_def go_simps map_dropWhile_hgt
      split: option.splits)

lemma remove_latest [simp]: "s2bLatest i (RemovePendingBlock p m) = s2bLatest i p"
  by (simp add: s2bLatest_def RemovePendingBlock_def)


text \<open>The pool \<open>AddShardToBeaconBlock\<close> works on: the block's shard has a height, at least 1.\<close>

definition s2b_touch :: "ShardToBeaconPool \<Rightarrow> u8 \<Rightarrow> ShardToBeaconPool" where
  "s2b_touch p i =
    (if go_get 0 (s2bLatestValidHeight p) i = 0
     then p\<lparr>s2bLatestValidHeight := (s2bLatestValidHeight p)(i \<mapsto> 1)\<rparr> else p)"

lemma touch_simps [simp]:
  "s2bHeights j (s2b_touch p i) = s2bHeights j p" "s2bLatest j (s2b_touch p i) = s2bLatest j p"
  "s2bPool (s2b_touch p i) = s2bPool p"
  "go_get 0 (s2bLatestValidHeight (s2b_touch p i)) i = s2bLatest i p"
  by (simp_all add: s2b_touch_def s2bHeights_def s2bLatest_def Let_def)

definition s2b_insert :: "ShardToBeaconPool \<Rightarrow> ShardToBeaconBlock list \<Rightarrow> ShardToBeaconBlock \<Rightarrow> ShardToBeaconPool" where
  "s2b_insert p pool' b =
     (s2b_touch p (tbShardID b))\<lparr>s2bPool := (s2bPool p)(tbShardID b \<mapsto> sort_key tbHeight (pool' @ [b]))\<rparr>"

lemma insert_heights:
  "s2bHeights j (s2b_insert p pool' b) =
    (if j = tbShardID b then map tbHeight (sort_key tbHeight (pool' @ [b])) else s2bHeights j p)"
  by (simp add: s2b_insert_def s2bHeights_def)

lemma insert_latest [simp]: "s2bLatest j (s2b_insert p pool' b) = s2bLatest j p"
  by (simp add: s2b_insert_def s2b_touch_def s2bLatest_def Let_def)

lemma AddShardToBeaconBlock_eq:
  fixes b defines "i \<equiv> tbShardID b"
  shows "AddShardToBeaconBlock p b =
    (if tbHeight b \<le> s2bLatest i p then (s2b_touch p i, 0, 0, Some ReceiveOldBlock)
     else if tbHeight b \<in> tbHeight ` set (go_get [] (s2bPool p) i)
       then (s2b_touch p i, 0, 0, Some ReceiveDuplicateBlock)
     else (case capacity_check 1000 200 tbHeight (s2bLatest i p) (go_get [] (s2bPool p) i) (tbHeight b) of
         Inl e \<Rightarrow> (s2b_touch p i, 0, 0, Some e)
       | Inr pool' \<Rightarrow>
           (let self' = S2B_UpdateLatestShardState (s2b_insert p pool' b);
                first = tbHeight (hd (go_get [] (s2bPool self') i));
                latest' = go_get 0 (s2bLatestValidHeight self') i
            in if first > latest' then
                 (self', latest' + 1, latest' + (if first - latest' > 1000 then 1000 else first - latest'), None)
               else (self', 0, 0, None))))"
  unfolding AddShardToBeaconBlock_def s2b_touch_def [symmetric] s2b_insert_def Let_def i_def
    MAX_VALID_SHARD_TO_BEACON_BLK_IN_POOL_def MAX_INVALID_SHARD_TO_BEACON_BLK_IN_POOL_def
    contains_height_iff touch_simps by (rule refl)

lemma s2b_add_cases:
  obtains (reject) e where "AddShardToBeaconBlock p b = (s2b_touch p (tbShardID b), 0, 0, Some e)"
  | (accept) pool' l u where
      "s2bLatest (tbShardID b) p < tbHeight b"
      "tbHeight b \<notin> tbHeight ` set (go_get [] (s2bPool p) (tbShardID b))"
      "capacity_check 1000 200 tbHeight (s2bLatest (tbShardID b) p)
         (go_get [] (s2bPool p) (tbShardID b)) (tbHeight b) = Inr pool'"
      "AddShardToBeaconBlock p b = (S2B_UpdateLatestShardState (s2b_insert p pool' b), l, u, None)"
proof -
  let ?L = "s2bLatest (tbShardID b) p" and ?pool = "go_get [] (s2bPool p) (tbShardID b)"
  note add = AddShardToBeaconBlock_eq [of p b]
  consider "tbHeight b \<le> ?L" | "tbHeight b \<in> tbHeight ` set ?pool"
    | e where "capacity_check 1000 200 tbHeight ?L ?pool (tbHeight b) = Inl e"
    | pool' where "?L < tbHeight b" "tbHeight b \<notin> tbHeight ` set ?pool"
       "capacity_check 1000 200 tbHeight ?L ?pool (tbHeight b) = Inr pool'"
    by (metis not_le sum.exhaust)
  then show ?thesis
  proof cases
    case (4 pool')
    then have "\<exists>l u. AddShardToBeaconBlock p b = (S2B_UpdateLatestShardState (s2b_insert p pool' b), l, u, None)"
      unfolding add by (simp add: Let_def not_le)
    with 4 accept show ?thesis by blast
  qed (use reject add in \<open>metis (no_types, lifting) sum.simps(5)\<close>)+
qed

lemma s2b_insert_inv:
  assumes inv: "s2b_inv i p"
    and new: "s2bLatest (tbShardID b) p < tbHeight b"
      "tbHeight b \<notin> tbHeight ` set (go_get [] (s2bPool p) (tbShardID b))"
    and cap: "capacity_check 1000 200 tbHeight (s2bLatest (tbShardID b) p)
         (go_get [] (s2bPool p) (tbShardID b)) (tbHeight b) = Inr pool'"
  shows "s2b_inv i (s2b_insert p pool' b)"
proof (cases "i = tbShardID b")
  case True
  with inv have "pool_inv (s2bLatest (tbShardID b) p) (map tbHeight (go_get [] (s2bPool p) (tbShardID b)))"
    by (simp add: s2bHeights_def)
  from accept_pool(1) [OF this new cap] True show ?thesis by (simp add: insert_heights)
qed (use inv in \<open>simp add: insert_heights\<close>)

text \<open>A state map is bounded when every height in it is.\<close>

definition state_bounded :: "(u8 \<rightharpoonup> u64) \<Rightarrow> bool" where
  "state_bounded m \<longleftrightarrow> (\<forall>i. case m i of None \<Rightarrow> True | Some h \<Rightarrow> h < height_bound)"

lemma s2b_set_view:
  "s2b_set p m = S2B_UpdateLatestShardState (RemovePendingBlock
      (p\<lparr>s2bLatestValidHeight := s2bLatestValidHeight p ++
         (\<lambda>i. map_option (\<lambda>h. if h < 1 then 1 else h) (m i))\<rparr>)
      (\<lambda>i. map_option (\<lambda>h. if h < 1 then 1 else h) (m i)))"
  by (simp add: s2b_set_def S2B_SetShardState_def Let_def)

lemma s2b_set_mid:
  fixes m :: "u8 \<rightharpoonup> u64"
  assumes "s2b_inv i p"
  defines "q \<equiv> RemovePendingBlock (p\<lparr>s2bLatestValidHeight := s2bLatestValidHeight p ++
         (\<lambda>i. map_option (\<lambda>h. if h < 1 then 1 else h) (m i))\<rparr>)
      (\<lambda>i. map_option (\<lambda>h. if h < 1 then 1 else h) (m i))"
  shows "s2b_inv i q"
    and "pool_bounded n (s2bLatest i p) (s2bHeights i p) \<Longrightarrow> state_bounded m \<Longrightarrow>
         pool_bounded n (s2bLatest i q) (s2bHeights i q)"
proof -
  let ?h = "\<lambda>h::u64. if h < 1 then 1 else h"
  have hs: "s2bHeights i q = (case m i of None \<Rightarrow> s2bHeights i p
      | Some h \<Rightarrow> dropWhile (\<lambda>x. x \<le> ?h h) (s2bHeights i p))"
    unfolding q_def remove_heights by (auto simp: s2bHeights_def split: option.splits)
  have L: "s2bLatest i q = (case m i of None \<Rightarrow> s2bLatest i p | Some h \<Rightarrow> ?h h)"
    unfolding q_def remove_latest
    by (cases "m i") (auto simp: s2bLatest_def go_get_def map_add_def Let_def)
  show "s2b_inv i q"
    using assms(1) pool_inv_fresh [OF pool_invD(1,2) [OF assms(1)]]
    unfolding hs L by (cases "m i") (simp_all only: option.case)
  have one: "(1::u64) < height_bound" by (simp add: height_bound_def)
  assume bd: "pool_bounded n (s2bLatest i p) (s2bHeights i p)" "state_bounded m"
  show "pool_bounded n (s2bLatest i q) (s2bHeights i q)"
  proof (cases "m i")
    case (Some h)
    then have "?h h < height_bound" using bd(2) one unfolding state_bounded_def by (auto dest: spec [of _ i])
    then have "pool_bounded n (?h h) (s2bHeights i p)" using bd(1) by (simp add: pool_bounded_def)
    from pool_bounded_remove [OF this] Some show ?thesis unfolding hs L by simp
  qed (use bd(1) hs L in simp)
qed

lemma s2b_update_bounded:
  assumes "s2b_inv i p" "pool_bounded n (s2bLatest i p) (s2bHeights i p)"
  shows "pool_bounded n (s2bLatest i (S2B_UpdateLatestShardState p)) (s2bHeights i p)"
  using pool_bounded_loop [OF assms(2) advance_loop_in] by (simp add: update_latest [OF assms(1)])

section \<open>Each shard's view is a height pool\<close>

interpretation s2b: height_pool "s2bHeights i" "s2bLatest i" tbHeight s2b_add s2b_set
  RemovePendingBlock state_bounded 1201 for i
proof unfold_locales
  fix p b m
  show "snd (s2b_add p b) \<noteq> None \<Longrightarrow>
    s2bHeights i (fst (s2b_add p b)) = s2bHeights i p \<and> s2bLatest i (fst (s2b_add p b)) = s2bLatest i p"
    by (cases rule: s2b_add_cases [where p = p and b = b]) (simp_all add: s2b_add_def)
  assume inv: "s2b_inv i p"
  show "s2b_inv i (fst (s2b_add p b))"
    by (cases rule: s2b_add_cases [where p = p and b = b])
      (simp_all add: s2b_add_def inv update_inv [OF s2b_insert_inv [OF inv], simplified])
  show "s2bLatest i p \<le> s2bLatest i (fst (s2b_add p b))"
    by (cases rule: s2b_add_cases [where p = p and b = b])
      (simp_all add: s2b_add_def update_latest [OF s2b_insert_inv [OF inv]]
         pool_inv_advance(2) [OF s2b_insert_inv [OF inv], simplified])
  show "s2b_inv i (RemovePendingBlock p m)"
    using inv pool_inv_remove [OF inv] by (cases "m i") (simp_all add: remove_heights)
  show "s2b_inv i (s2b_set p m)"
    unfolding s2b_set_view by (rule update_inv [OF s2b_set_mid(1) [OF inv]])
  assume bd: "pool_bounded 1201 (s2bLatest i p) (s2bHeights i p)"
  show "pool_bounded 1201 (s2bLatest i (RemovePendingBlock p m)) (s2bHeights i (RemovePendingBlock p m))"
    using bd pool_bounded_remove [OF bd] by (cases "m i") (simp_all add: remove_heights)
  show "pool_bounded 1201 (s2bLatest i (s2b_set p m)) (s2bHeights i (s2b_set p m))" if "state_bounded m"
    unfolding s2b_set_view update_heights
    by (rule s2b_update_bounded [OF s2b_set_mid(1) [OF inv] s2b_set_mid(2) [OF inv bd that]])
  show "pool_bounded 1201 (s2bLatest i (fst (s2b_add p b))) (s2bHeights i (fst (s2b_add p b)))"
    if h: "tbHeight b < height_bound"
  proof (cases rule: s2b_add_cases [where p = p and b = b])
    case (accept pool' l u)
    have "pool_bounded 1201 (s2bLatest i (s2b_insert p pool' b)) (s2bHeights i (s2b_insert p pool' b))"
      using bd inv pool_bounded_accept [OF _ _ accept(3) h]
      unfolding insert_heights insert_latest
      by (cases "i = tbShardID b") (simp_all add: s2bHeights_def)
    from s2b_update_bounded [OF s2b_insert_inv [OF inv accept(1-3)] this] accept(4)
    show ?thesis by (simp add: s2b_add_def)
  qed (use bd in \<open>simp add: s2b_add_def\<close>)
qed

section \<open>What the beacon producer reads\<close>

lemma s2b_valid_loop_eq:
  "s2b_valid_loop latest limit i acc bs = acc @ takeWhile (\<lambda>b. tbHeight b \<le> latest \<and>
     \<not> (case limit of None \<Rightarrow> False | Some l \<Rightarrow> go_get 0 l i \<noteq> 0 \<and> go_get 0 l i < tbHeight b)) bs"
  by (induction bs arbitrary: acc) (auto simp: not_le split: option.splits)

lemma consec_takeWhile: "consec hs \<Longrightarrow> consec (takeWhile P hs)"
  by (metis consec_append takeWhile_dropWhile_id)

lemma pool_inv_prefix:
  assumes "pool_inv L hs"
  shows "consec (takeWhile (\<lambda>h. h \<le> L \<and> P h) hs)" "sincr (takeWhile (\<lambda>h. h \<le> L \<and> P h) hs)"
proof -
  have "takeWhile (\<lambda>h. h \<le> L \<and> P h) hs = takeWhile P (takeWhile (\<lambda>h. h \<le> L) hs)"
    by (induction hs) auto
  then show "consec (takeWhile (\<lambda>h. h \<le> L \<and> P h) hs)"
    using consec_takeWhile [OF pool_inv_valid_run(2) [OF assms]] by simp
  show "sincr (takeWhile (\<lambda>h. h \<le> L \<and> P h) hs)"
    by (rule sincr_takeWhile [OF pool_invD(1) [OF assms]])
qed

lemma GetValidPendingBlock_heights:
  assumes "fst (GetValidPendingBlock p limit) i = Some blks"
  shows "blks \<noteq> []" and "map tbHeight blks = takeWhile (\<lambda>h. h \<le> s2bLatest i p \<and>
     \<not> (case limit of None \<Rightarrow> False | Some l \<Rightarrow> go_get 0 l i \<noteq> 0 \<and> go_get 0 l i < h)) (s2bHeights i p)"
proof -
  obtain bs where bs: "s2bPool p i = Some bs" using assms
    by (cases "s2bPool p i") (simp_all add: GetValidPendingBlock_def Let_def)
  then have "go_get 0 (\<lambda>shardID. if s2bPool p shardID \<noteq> None \<and> go_get 0 (s2bLatestValidHeight p) shardID = 0
           then Some 1 else s2bLatestValidHeight p shardID) i = s2bLatest i p"
    by (simp add: go_get_def s2bLatest_def Let_def)
  with assms bs have b: "blks \<noteq> []" "blks = takeWhile (\<lambda>b. tbHeight b \<le> s2bLatest i p \<and>
     \<not> (case limit of None \<Rightarrow> False | Some l \<Rightarrow> go_get 0 l i \<noteq> 0 \<and> go_get 0 l i < tbHeight b)) bs"
    by (auto simp: GetValidPendingBlock_def Let_def s2b_valid_loop_eq nonempty_entry_def split: if_splits)
  show "blks \<noteq> []" by (rule b(1))
  show "map tbHeight blks = takeWhile (\<lambda>h. h \<le> s2bLatest i p \<and>
     \<not> (case limit of None \<Rightarrow> False | Some l \<Rightarrow> go_get 0 l i \<noteq> 0 \<and> go_get 0 l i < h)) (s2bHeights i p)"
    using bs unfolding b(2) s2bHeights_def go_get_def by (simp add: takeWhile_map o_def)
qed

text \<open>The request range is computed without wrap-around.\<close>

lemma clamp_range:
  fixes a f :: u64
  assumes "a < f"
  defines "off \<equiv> (if f - a > 1000 then 1000 else f - a)"
  shows "a + 1 \<le> a + off" "a + off \<le> f" "unat (a + off - (a + 1)) < 1000"
proof -
  have d: "unat (f - a) = unat f - unat a" using assms(1) by (simp add: unat_sub)
  have lt: "unat a < unat f" "unat f < 2 ^ 64"
    using assms(1) unsigned_less [of f, where ?'a = nat] by (simp_all add: word_less_nat_alt)
  have off: "1 \<le> unat off" "unat off \<le> 1000" "unat off \<le> unat f - unat a"
    using d lt unfolding off_def by (auto simp: word_less_nat_alt)
  have u: "unat (a + off) = unat a + unat off" "unat (a + 1) = unat a + 1"
    using off lt by (simp_all add: unat_add_lem [THEN iffD1])
  show le: "a + 1 \<le> a + off" "a + off \<le> f" using u off lt by (simp_all add: word_le_nat_alt)
  show "unat (a + off - (a + 1)) < 1000"
    using u off unat_sub [OF le(1)] by simp
qed


section \<open>Properties\<close>

definition sample_s2b_block :: "u8 \<Rightarrow> u64 \<Rightarrow> ShardToBeaconBlock" where
  "sample_s2b_block i h = \<lparr>tbAggregatedSig = [], tbR = [], tbValidatorsIdx = [], tbProducerSig = [],
     tbInstructions = [], tbHeader = sample_shard_header i h\<rparr>"

lemma sample_s2b_block_simps [simp]:
  "tbHeight (sample_s2b_block i h) = h" "tbShardID (sample_s2b_block i h) = i"
  by (simp_all add: sample_s2b_block_def sample_shard_header_def)

text \<open>
  C37. Whatever sequence of blocks, state updates and removals the shard-to-beacon pool has
  seen since its creation, and whatever limit the producer passes, the blocks
  \<open>GetValidPendingBlock\<close> returns for a shard have strictly increasing heights without a
  gap, none above the shard's valid height or its limit; without a limit the run ends
  exactly at the valid height.
\<close>

theorem shard_to_beacon_valid_run:
  "let p = pool_run s2b_add s2b_set RemovePendingBlock es (GetShardToBeaconPool None)
   in case fst (GetValidPendingBlock p limit) i of
        None \<Rightarrow> True
      | Some blks \<Rightarrow>
          blks \<noteq> [] \<and> consec (map tbHeight blks) \<and> sincr (map tbHeight blks) \<and>
          last (map tbHeight blks) \<le> s2bLatest i p \<and>
          (case limit of
             None \<Rightarrow> set (map tbHeight blks) = {hd (map tbHeight blks) .. s2bLatest i p}
           | Some l \<Rightarrow> go_get 0 l i = 0 \<or> list_all (\<lambda>b. tbHeight b \<le> go_get 0 l i) blks)"
proof -
  define p where "p = pool_run s2b_add s2b_set RemovePendingBlock es (GetShardToBeaconPool None)"
  have "s2b_inv i (GetShardToBeaconPool None)"
    by (simp add: s2bHeights_def GetShardToBeaconPool_def)
  then have inv: "s2b_inv i p" unfolding p_def by (rule s2b.run_inv)
  show ?thesis
  proof (cases "fst (GetValidPendingBlock p limit) i")
    case (Some blks)
    note H = GetValidPendingBlock_heights [OF Some]
    have cs: "consec (map tbHeight blks)" "sincr (map tbHeight blks)"
      unfolding H(2) by (rule pool_inv_prefix [OF inv])+
    have all: "h \<le> s2bLatest i p \<and>
        \<not> (case limit of None \<Rightarrow> False | Some l \<Rightarrow> go_get 0 l i \<noteq> 0 \<and> go_get 0 l i < h)"
      if "h \<in> set (map tbHeight blks)" for h
      using that unfolding H(2) by (blast dest: set_takeWhileD)
    have "last (map tbHeight blks) \<le> s2bLatest i p" 
      using all last_in_set [of "map tbHeight blks"] H(1) by blast
    moreover have "set (map tbHeight blks) = {hd (map tbHeight blks) .. s2bLatest i p}" if "limit = None"
      using pool_inv_valid_run(4) [OF inv] H that by force
    moreover have "go_get 0 l i = 0 \<or> list_all (\<lambda>b. tbHeight b \<le> go_get 0 l i) blks" if "limit = Some l" for l
      using all that by (auto simp: list_all_iff not_less)
    ultimately show ?thesis
      unfolding p_def [symmetric] Let_def using Some H(1) cs by (cases limit) simp_all
  qed (simp add: p_def [symmetric] Let_def)
qed

text \<open>
  The range \<open>AddShardToBeaconBlock\<close> returns with an accepted block. When the pool of the
  shard starts above the valid height, the node is asked to fetch the range from the
  successor of the valid height up to at most the first pooled height: at most 1000
  heights, computed without wrap-around, of which none but the last can be in the pool.
  Otherwise no range is requested.
\<close>

theorem shard_to_beacon_request:
  assumes "s2b_inv (tbShardID b) p" "AddShardToBeaconBlock p b = (p', l, u, None)"
  shows "let L' = s2bLatest (tbShardID b) p'; hs = s2bHeights (tbShardID b) p'
    in hs \<noteq> [] \<and>
       (if hd hs \<le> L' then l = 0 \<and> u = 0
        else l = L' + 1 \<and> l \<le> u \<and> u \<le> hd hs \<and> unat (u - l) < 1000 \<and> {l..<u} \<inter> set hs = {})"
  using assms(2)
proof (cases rule: s2b_add_cases [where p = p and b = b])
  case (accept pool' l' u')
  let ?i = "tbShardID b" let ?q = "S2B_UpdateLatestShardState (s2b_insert p pool' b)"
  have p': "p' = ?q" using accept(4) assms(2) by simp
  have hs: "s2bHeights ?i p' = map tbHeight (sort_key tbHeight (pool' @ [b]))"
    unfolding p' by (simp add: insert_heights)
  have "length (s2bHeights ?i p') = Suc (length pool')" unfolding hs by simp
  then have ne: "s2bHeights ?i p' \<noteq> []" by auto
  have inv': "s2b_inv ?i p'"
    unfolding p' by (rule update_inv [OF s2b_insert_inv [OF assms(1) accept(1-3)]])
  have first: "tbHeight (hd (go_get [] (s2bPool p') ?i)) = hd (s2bHeights ?i p')"
    using ne by (simp add: s2bHeights_def hd_map)
  have "s2bPool p' ?i \<noteq> None" unfolding p' by (simp add: S2B_UpdateLatestShardState_def s2b_insert_def)
  then have "go_get 0 (s2bLatestValidHeight p') ?i = advance_loop (\<lambda>x. x) (s2bLatest ?i p) (s2bHeights ?i p')"
    unfolding p' S2B_UpdateLatestShardState_def go_get_def s2bHeights_def
    by (auto simp: advance_loop_map [of tbHeight] s2b_insert_def Let_def go_get_def s2b_touch_def s2bLatest_def)
  moreover have "s2bLatest ?i p' = advance_loop (\<lambda>x. x) (s2bLatest ?i p) (s2bHeights ?i p')"
    unfolding p' using update_latest [OF s2b_insert_inv [OF assms(1) accept(1-3)]] by simp
  ultimately have L: "go_get 0 (s2bLatestValidHeight p') ?i = s2bLatest ?i p'" by simp
  let ?off = "if hd (s2bHeights ?i p') - s2bLatest ?i p' > 1000 then 1000
     else hd (s2bHeights ?i p') - s2bLatest ?i p'"
  have r: "(p', l, u, None :: pool_error option) =
     (if hd (s2bHeights ?i p') > s2bLatest ?i p' then (p', s2bLatest ?i p' + 1, s2bLatest ?i p' + ?off, None)
      else (p', 0, 0, None))"
  proof -
    have n: "\<not> tbHeight b \<le> s2bLatest ?i p" using accept(1) by simp
    show ?thesis
      unfolding assms(2) [symmetric] AddShardToBeaconBlock_eq if_not_P [OF n] if_not_P [OF accept(2)]
        accept(3) sum.case Let_def p' [symmetric] first L by (rule refl)
  qed
  have "{l..<u} \<inter> set (s2bHeights ?i p') = {}" if "u \<le> hd (s2bHeights ?i p')"
    using pool_invD(1) [OF inv'] that by (cases "s2bHeights ?i p'") (force simp: not_less)+
  then show ?thesis
    using r ne clamp_range [of "s2bLatest ?i p'" "hd (s2bHeights ?i p')"]
    by (auto simp: Let_def not_le split: if_splits)
qed simp


lemma s2b_add_example:
  "AddShardToBeaconBlock (GetShardToBeaconPool None) (sample_s2b_block 2 5) =
    (\<lparr>s2bPool = [2 \<mapsto> [sample_s2b_block 2 5]], s2bLatestValidHeight = [2 \<mapsto> 1]\<rparr>, 2, 5, None)"
proof -
  let ?q = "\<lparr>s2bPool = [2 \<mapsto> [sample_s2b_block 2 5]], s2bLatestValidHeight = [2 \<mapsto> 1]\<rparr>"
  have "S2B_UpdateLatestShardState ?q = ?q"
    by (auto simp: S2B_UpdateLatestShardState_def fun_eq_iff go_get_def)
  then show ?thesis
    by (simp add: AddShardToBeaconBlock_def GetShardToBeaconPool_def capacity_check_def Let_def not_le)
qed

theorem shard_to_beacon_request_witness:
  "case AddShardToBeaconBlock (GetShardToBeaconPool None) (sample_s2b_block 2 5) of
     (p', l, u, e) \<Rightarrow> l = 2 \<and> u = 5 \<and> e = None \<and> {l..<u} \<inter> set (s2bHeights 2 p') = {}"
proof -
  have "s2b_inv (tbShardID (sample_s2b_block 2 5)) (GetShardToBeaconPool None)"
    by (simp add: s2bHeights_def GetShardToBeaconPool_def)
  from shard_to_beacon_request [OF this s2b_add_example] show ?thesis
    by (simp add: s2b_add_example s2bHeights_def s2bLatest_def Let_def)
qed

section \<open>The order of the two mutexes\<close>

text \<open>
  The lock and unlock calls of the two methods that change the pool, in program order
  (deferred unlocks run last in, first out). A thread is what it still has to do; a lock
  it asks for is granted only when nobody holds it.
\<close>

datatype mutex = poolMutex | latestValidHeightMutex

datatype lock_op = Lock mutex | Unlock mutex

definition AddShardToBeaconBlock_locks :: "lock_op list" where
  "AddShardToBeaconBlock_locks =
     [Lock poolMutex, Lock latestValidHeightMutex, Unlock latestValidHeightMutex, Unlock poolMutex]"

definition RemovePendingBlock_locks :: "lock_op list" where
  "RemovePendingBlock_locks = [Lock poolMutex, Unlock poolMutex]"

definition SetShardState_locks :: "lock_op list" where
  "SetShardState_locks =
     [Lock latestValidHeightMutex] @ RemovePendingBlock_locks @ [Unlock latestValidHeightMutex]"

type_synonym lock_state = "lock_op list list \<times> mutex list"

inductive lock_step :: "lock_state \<Rightarrow> lock_state \<Rightarrow> bool" where
  acquire: "\<lbrakk>t < length ts; ts ! t = Lock m # ops; m \<notin> set held\<rbrakk> \<Longrightarrow>
     lock_step (ts, held) (ts[t := ops], m # held)"
| release: "\<lbrakk>t < length ts; ts ! t = Unlock m # ops\<rbrakk> \<Longrightarrow>
     lock_step (ts, held) (ts[t := ops], remove1 m held)"

inductive_cases lock_stepE: "lock_step s s'"

text \<open>A deadlock: some thread has work left and no step is possible.\<close>

definition deadlocked :: "lock_state \<Rightarrow> bool" where
  "deadlocked s \<longleftrightarrow> (\<exists>ops \<in> set (fst s). ops \<noteq> []) \<and> (\<nexists>s'. lock_step s s')"

text \<open>
  C38. \<open>AddShardToBeaconBlock\<close> takes the pool mutex and then the height mutex, while
  \<open>SetShardState\<close> takes the height mutex and then, through \<open>RemovePendingBlock\<close>, the pool
  mutex: when a block arrives while the beacon chain sets the shard state, there is an
  interleaving after which both wait for each other forever.
\<close>

theorem shard_to_beacon_deadlock:
  "\<exists>s. lock_step\<^sup>*\<^sup>* ([AddShardToBeaconBlock_locks, SetShardState_locks], []) s \<and> deadlocked s"
proof -
  let ?a = "[Lock latestValidHeightMutex, Unlock latestValidHeightMutex, Unlock poolMutex]"
  let ?b = "RemovePendingBlock_locks @ [Unlock latestValidHeightMutex]"
  have "lock_step ([AddShardToBeaconBlock_locks, SetShardState_locks], [])
      ([?a, SetShardState_locks], [poolMutex])"
    using lock_step.acquire [of 0 "[AddShardToBeaconBlock_locks, SetShardState_locks]" poolMutex ?a "[]"]
    by (simp add: AddShardToBeaconBlock_locks_def)
  moreover have "lock_step ([?a, SetShardState_locks], [poolMutex])
      ([?a, ?b], [latestValidHeightMutex, poolMutex])"
    using lock_step.acquire [of 1 "[?a, SetShardState_locks]" latestValidHeightMutex ?b "[poolMutex]"]
    by (simp add: SetShardState_locks_def)
  moreover have "deadlocked ([?a, ?b], [latestValidHeightMutex, poolMutex])"
    unfolding deadlocked_def
    by (auto simp: RemovePendingBlock_locks_def nth_Cons less_Suc_eq elim!: lock_stepE split: nat.splits)
  ultimately show ?thesis by (meson rtranclp.rtrancl_into_rtrancl rtranclp.rtrancl_refl)
qed

end
