(* ===== verification/Beacon_State.thy ===== *)
theory Beacon_State
  imports Committee Cross_Shard Shard_To_Beacon
begin

text \<open>
  The best state of the beacon chain (\<open>src/blockchain/beaconbeststate.go\<close>) and its update by a new
  block, with the checks before and after (\<open>src/blockchain/beaconprocess.go\<close>). \<open>Update\<close> changes the
  state in place, so its result is the state it leaves behind together with the error, and \<open>None\<close> for a
  panic. Arguments stand for the stability instructions (\<open>stab\<close>: the new \<open>Params\<close> and \<open>StabilityInfo\<close>),
  the order of iteration over a map (\<open>iter\<close>), signature verification (\<open>validSig\<close>) and the
  JSON codecs.
\<close>

section \<open>The state\<close>

record 'st BestStateBeacon =
  bsBestBlockHash :: hash
  bsPrevBestBlockHash :: hash
  bsBestBlock :: "BeaconBlock option"
  bsBestShardHash :: "u8 \<rightharpoonup> hash"
  bsBestShardHeight :: "u8 \<rightharpoonup> u64"
  bsEpoch :: u64
  bsBeaconHeight :: u64
  bsBeaconProposerIdx :: int
  bsBeaconCommittee :: "string list"
  bsBeaconPendingValidator :: "string list"
  bsCandidateShardWaitingForCurrentRandom :: "string list"
  bsCandidateBeaconWaitingForCurrentRandom :: "string list"
  bsCandidateShardWaitingForNextRandom :: "string list"
  bsCandidateBeaconWaitingForNextRandom :: "string list"
  bsShardCommittee :: "u8 \<rightharpoonup> string list"
  bsShardPendingValidator :: "u8 \<rightharpoonup> string list"
  bsCurrentRandomNumber :: int
  bsCurrentRandomTimeStamp :: int
  bsIsGetRandomNumber :: bool
  bsParams :: "string \<rightharpoonup> string"
  bsStabilityInfo :: 'st
  bsShardHandle :: "u8 \<rightharpoonup> bool"
  bsBeaconCommitteeSize :: int
  bsShardCommitteeSize :: int
  bsActiveShards :: int
  bsLastCrossShardState :: "u8 \<rightharpoonup> (u8 \<rightharpoonup> u64)"

record NetParams =
  npBeaconCommitteeSize :: int
  npShardCommitteeSize :: int
  npActiveShards :: int

text \<open>The singleton keeps the fields that \<open>InitBestStateBeacon\<close> does not set; \<open>noStability\<close> is \<open>StabilityInfo{}\<close>.\<close>

definition InitBestStateBeacon :: "'st \<Rightarrow> NetParams \<Rightarrow> 'st BestStateBeacon \<Rightarrow> 'st BestStateBeacon" where
  "InitBestStateBeacon noStability netparam bs = bs
    \<lparr>bsBestBlockHash := replicate 32 0, bsBestBlock := None, bsBestShardHash := Map.empty,
     bsBestShardHeight := Map.empty, bsBeaconHeight := 0, bsBeaconCommittee := [], bsBeaconPendingValidator := [],
     bsCandidateShardWaitingForCurrentRandom := [], bsCandidateBeaconWaitingForCurrentRandom := [],
     bsCandidateShardWaitingForNextRandom := [], bsCandidateBeaconWaitingForNextRandom := [],
     bsShardCommittee := Map.empty, bsShardPendingValidator := Map.empty, bsParams := Map.empty,
     bsCurrentRandomNumber := -1, bsStabilityInfo := noStability,
     bsBeaconCommitteeSize := npBeaconCommitteeSize netparam, bsShardCommitteeSize := npShardCommitteeSize netparam,
     bsActiveShards := npActiveShards netparam, bsLastCrossShardState := Map.empty\<rparr>"

definition all_bytes :: "u8 list" where
  "all_bytes = map word_of_nat [0..<256]"

text \<open>The entries of a map in the order of its keys.\<close>

definition entries :: "(u8 \<rightharpoonup> 'v) \<Rightarrow> (u8 \<times> 'v) list" where
  "entries m = List.map_filter (\<lambda>k. map_option (\<lambda>v. (k, v)) (m k)) all_bytes"

text \<open>Go's remainder takes the sign of the dividend.\<close>

definition go_rem :: "int \<Rightarrow> int \<Rightarrow> int" where
  "go_rem a b = sgn a * (\<bar>a\<bar> mod \<bar>b\<bar>)"

text \<open>A sum of Go's \<open>int\<close>, which has 64 bits and wraps around.\<close>

definition go_int :: "int \<Rightarrow> int" where
  "go_int a = (a + 2 ^ 63) mod 2 ^ 64 - 2 ^ 63"

lemma go_int_id: "- (2 ^ 63) \<le> a \<Longrightarrow> a < 2 ^ 63 \<Longrightarrow> go_int a = a"
  by (simp add: go_int_def)

datatype Role = NoRole | SHARD_ROLE | PROPOSER_ROLE | VALIDATOR_ROLE | PENDING_ROLE

text \<open>The first shard, in the order \<open>keys\<close> in which the map is iterated, whose list has the key.\<close>

fun find_shard :: "string \<Rightarrow> (u8 \<rightharpoonup> string list) \<Rightarrow> u8 list \<Rightarrow> u8 option" where
  "find_shard pubkey m [] = None"
| "find_shard pubkey m (k # ks) =
    (if IndexOfStr pubkey (go_get [] m k) > -1 then Some k else find_shard pubkey m ks)"

definition GetPubkeyRole ::
  "((u8 \<rightharpoonup> string list) \<Rightarrow> u8 list) \<Rightarrow> 'st BestStateBeacon \<Rightarrow> string \<Rightarrow> int \<Rightarrow> Role \<times> u8" where
  "GetPubkeyRole keys bs pubkey proposerOffset =
    (case find_shard pubkey (bsShardPendingValidator bs) (keys (bsShardPendingValidator bs)) of
       Some shardID \<Rightarrow> (SHARD_ROLE, shardID)
     | None \<Rightarrow>
         (case find_shard pubkey (bsShardCommittee bs) (keys (bsShardCommittee bs)) of
            Some shardID \<Rightarrow> (SHARD_ROLE, shardID)
          | None \<Rightarrow>
              (let found = IndexOfStr pubkey (bsBeaconCommittee bs)
               in if found > -1 then
                    (let tmpID = go_rem (go_int (bsBeaconProposerIdx bs + proposerOffset + 1)) (int (length (bsBeaconCommittee bs)))
                     in if found = tmpID then (PROPOSER_ROLE, 0) else (VALIDATOR_ROLE, 0))
                  else if IndexOfStr pubkey (bsBeaconPendingValidator bs) > -1 then (PENDING_ROLE, 0)
                  else (NoRole, 0))))"

definition GetValidStakers :: "'st BestStateBeacon \<Rightarrow> string list \<Rightarrow> string list" where
  "GetValidStakers bs tempStaker =
    (let tempStaker = fold GetValidStaker (map snd (entries (bsShardCommittee bs))) tempStaker;
         tempStaker = fold GetValidStaker (map snd (entries (bsShardPendingValidator bs))) tempStaker
     in fold GetValidStaker
          [bsBeaconCommittee bs, bsBeaconPendingValidator bs,
           bsCandidateBeaconWaitingForCurrentRandom bs, bsCandidateBeaconWaitingForNextRandom bs,
           bsCandidateShardWaitingForCurrentRandom bs, bsCandidateShardWaitingForNextRandom bs,
           bsCandidateShardWaitingForNextRandom bs] tempStaker)"

section \<open>Update\<close>

datatype beacon_error =
    UnExpectedError | ProducerError | VersionError | DBError | BlockHeightError | EpochError | TimestampError
  | ShardStateHashError | InstructionHashError | ShardStateError | SignatureError | CandidateError | HashError
  | BeaconError | DuplicateBlockErr | StoreError

definition SetAction :: string where "SetAction = ''set''"
definition DeleteAction :: string where "DeleteAction = ''del''"
definition SwapAction :: string where "SwapAction = ''swap''"
definition RandomAction :: string where "RandomAction = ''random''"
definition StakeAction :: string where "StakeAction = ''stake''"

definition BeaconBlock_Hash :: "'db ChainEnv \<Rightarrow> BeaconBlock \<Rightarrow> hash" where
  "BeaconBlock_Hash e b = BeaconHeader_Hash e (bHeader b)"

text \<open>The first part: the block becomes the best block. A shard with no state in its list panics.\<close>

definition update_best :: "'db ChainEnv \<Rightarrow> BeaconBlock \<Rightarrow> 'st BestStateBeacon \<Rightarrow> 'st BestStateBeacon option" where
  "update_best e newBlock bs =
    (let states = ShardStates (bBody newBlock)
     in if list_ex (\<lambda>s. states s = Some []) all_bytes then None
        else Some (bs
          \<lparr>bsPrevBestBlockHash := bsBestBlockHash bs, bsBestBlockHash := BeaconBlock_Hash e newBlock,
           bsBestBlock := Some newBlock, bsEpoch := bhEpoch (bHeader newBlock), bsBeaconHeight := bhHeight (bHeader newBlock),
           bsBeaconProposerIdx :=
             (if bhHeight (bHeader newBlock) = 1 then 0 else IndexOfStr (bhProducer (bHeader newBlock)) (bsBeaconCommittee bs)),
           bsBestShardHash := (\<lambda>s. case states s of None \<Rightarrow> bsBestShardHash bs s | Some l \<Rightarrow> Some (ssHash (last l))),
           bsBestShardHeight := (\<lambda>s. case states s of None \<Rightarrow> bsBestShardHeight bs s | Some l \<Rightarrow> Some (ssHeight (last l)))\<rparr>))"

text \<open>The two halves of a swap instruction, for a shard and for the beacon; \<open>False\<close> is the error.\<close>

definition shard_in :: "u8 \<Rightarrow> string \<Rightarrow> 'st BestStateBeacon \<Rightarrow> ('st BestStateBeacon \<times> bool) option" where
  "shard_in shardID l1 bs =
    (if l1 = [] then Some (bs, True)
     else
       (case RemoveValidator (go_get [] (bsShardPendingValidator bs) shardID) (Split l1) of
          None \<Rightarrow> None
        | Some (pend, err) \<Rightarrow>
            (let bs = bs\<lparr>bsShardPendingValidator := (bsShardPendingValidator bs)(shardID \<mapsto> pend)\<rparr>
             in if err \<noteq> None then Some (bs, False)
                else Some (bs\<lparr>bsShardCommittee := (bsShardCommittee bs)
                       (shardID \<mapsto> go_get [] (bsShardCommittee bs) shardID @ Split l1)\<rparr>, True))))"

definition shard_out :: "u8 \<Rightarrow> string \<Rightarrow> 'st BestStateBeacon \<Rightarrow> ('st BestStateBeacon \<times> bool) option" where
  "shard_out shardID l2 bs =
    (if l2 = [] then Some (bs, True)
     else
       (case RemoveValidator (go_get [] (bsShardCommittee bs) shardID) (Split l2) of
          None \<Rightarrow> None
        | Some (comm, err) \<Rightarrow>
            Some (bs\<lparr>bsShardCommittee := (bsShardCommittee bs)(shardID \<mapsto> comm)\<rparr>, err = None)))"

definition beacon_in :: "string \<Rightarrow> 'st BestStateBeacon \<Rightarrow> ('st BestStateBeacon \<times> bool) option" where
  "beacon_in l1 bs =
    (if l1 = [] then Some (bs, True)
     else
       (case RemoveValidator (bsBeaconPendingValidator bs) (Split l1) of
          None \<Rightarrow> None
        | Some (pend, err) \<Rightarrow>
            (let bs = bs\<lparr>bsBeaconPendingValidator := pend\<rparr>
             in if err \<noteq> None then Some (bs, False)
                else Some (bs\<lparr>bsBeaconCommittee := bsBeaconCommittee bs @ Split l1\<rparr>, True))))"

definition beacon_out :: "string \<Rightarrow> 'st BestStateBeacon \<Rightarrow> ('st BestStateBeacon \<times> bool) option" where
  "beacon_out l2 bs =
    (if l2 = [] then Some (bs, True)
     else
       (case RemoveValidator (bsBeaconCommittee bs) (Split l2) of
          None \<Rightarrow> None
        | Some (comm, err) \<Rightarrow> Some (bs\<lparr>bsBeaconCommittee := comm\<rparr>, err = None)))"

definition then_if_ok ::
  "('s \<Rightarrow> ('s \<times> bool) option) \<Rightarrow> ('s \<Rightarrow> ('s \<times> bool) option) \<Rightarrow> 's \<Rightarrow> ('s \<times> bool) option" where
  "then_if_ok f g s = (case f s of None \<Rightarrow> None | Some (s', False) \<Rightarrow> Some (s', False) | Some (s', True) \<Rightarrow> g s')"

definition swap_instruction :: "string list \<Rightarrow> 'st BestStateBeacon \<Rightarrow> ('st BestStateBeacon \<times> bool) option" where
  "swap_instruction l bs =
    (if length l < 4 then None
     else if l ! 3 = ''shard'' then
       (if length l < 5 then None
        else
          (case Atoi (l ! 4) of
             None \<Rightarrow> Some (bs, False)
           | Some temp \<Rightarrow>
               (let shardID = word_of_int temp
                in then_if_ok (shard_in shardID (l ! 1)) (shard_out shardID (l ! 2)) bs)))
     else if l ! 3 = ''beacon'' then then_if_ok (beacon_in (l ! 1)) (beacon_out (l ! 2)) bs
     else Some (bs, True))"

text \<open>The candidates and the random flag that the loop over the instructions collects.\<close>

record collected =
  coRandomFlag :: bool
  coBeaconCandidate :: "string list"
  coShardCandidate :: "string list"

definition update_instruction ::
  "(string list \<Rightarrow> 'st BestStateBeacon \<Rightarrow> ((string \<rightharpoonup> string) \<times> 'st) option) \<Rightarrow> string list \<Rightarrow>
   'st BestStateBeacon \<times> collected \<Rightarrow> (('st BestStateBeacon \<times> collected) \<times> bool) option" where
  "update_instruction stab l st =
    (if l = [] then None
     else
       (case stab l (fst st) of
          None \<Rightarrow> None
        | Some (params, info) \<Rightarrow>
            (let bs = (fst st)\<lparr>bsParams := params, bsStabilityInfo := info\<rparr>; acc = snd st
             in if l ! 0 = SetAction then
                  (if length l < 3 then None
                   else Some ((bs\<lparr>bsParams := (bsParams bs)(l ! 1 \<mapsto> l ! 2)\<rparr>, acc), True))
                else if l ! 0 = DeleteAction then
                  (if length l < 2 then None else Some ((bs\<lparr>bsParams := (bsParams bs)(l ! 1 := None)\<rparr>, acc), True))
                else if l ! 0 = SwapAction then map_option (\<lambda>(bs, ok). ((bs, acc), ok)) (swap_instruction l bs)
                else if l ! 0 = RandomAction then
                  (if length l < 2 then None
                   else
                     (case Atoi (l ! 1) of
                        None \<Rightarrow> Some ((bs, acc), False)
                      | Some temp \<Rightarrow> Some ((bs\<lparr>bsCurrentRandomNumber := temp\<rparr>, acc\<lparr>coRandomFlag := True\<rparr>), True)))
                else if l ! 0 = StakeAction then
                  (if length l < 3 then None
                   else if l ! 2 = ''beacon'' then
                     Some ((bs, acc\<lparr>coBeaconCandidate := coBeaconCandidate acc @ Split (l ! 1)\<rparr>), True)
                   else if l ! 2 = ''shard'' then
                     Some ((bs, acc\<lparr>coShardCandidate := coShardCandidate acc @ Split (l ! 1)\<rparr>), True)
                   else Some ((bs, acc), True))
                else Some ((bs, acc), True))))"

fun update_instructions ::
  "(string list \<Rightarrow> 'st BestStateBeacon \<Rightarrow> ((string \<rightharpoonup> string) \<times> 'st) option) \<Rightarrow> string list list \<Rightarrow>
   'st BestStateBeacon \<times> collected \<Rightarrow> (('st BestStateBeacon \<times> collected) \<times> bool) option" where
  "update_instructions stab [] st = Some (st, True)"
| "update_instructions stab (l # ls) st = then_if_ok (update_instruction stab l) (update_instructions stab ls) st"

text \<open>Genesis: the committees are the first candidates. A slice out of range panics.\<close>

fun genesis_shards :: "nat list \<Rightarrow> int \<Rightarrow> string list \<Rightarrow> (u8 \<rightharpoonup> string list) \<Rightarrow> (u8 \<rightharpoonup> string list) option" where
  "genesis_shards [] sz candidates m = Some m"
| "genesis_shards (i # is) sz candidates m =
    (if sz < 0 \<or> (int i + 1) * sz > int (length candidates) then None
     else genesis_shards is sz candidates
       (m(word_of_nat i \<mapsto> go_get [] m (word_of_nat i) @ take (nat sz) (drop (i * nat sz) candidates))))"

definition assign_new :: "collected \<Rightarrow> 'st BestStateBeacon \<Rightarrow> 'st BestStateBeacon option" where
  "assign_new acc bs =
    (if bsBeaconHeight bs = 1 then
       (if bsBeaconCommitteeSize bs < 0 \<or> bsBeaconCommitteeSize bs > int (length (coBeaconCandidate acc)) then None
        else
          (case genesis_shards [0..<nat (bsActiveShards bs)] (bsShardCommitteeSize bs) (coShardCandidate acc)
                  (bsShardCommittee bs) of
             None \<Rightarrow> None
           | Some m \<Rightarrow>
               Some (bs\<lparr>bsBeaconCommittee := take (nat (bsBeaconCommitteeSize bs)) (coBeaconCandidate acc),
                        bsShardCommittee := m, bsEpoch := 1\<rparr>)))
     else
       Some (bs\<lparr>bsCandidateBeaconWaitingForNextRandom := bsCandidateBeaconWaitingForNextRandom bs @ coBeaconCandidate acc,
                bsCandidateShardWaitingForNextRandom := bsCandidateShardWaitingForNextRandom bs @ coShardCandidate acc\<rparr>))"

definition snapshot_candidates :: "int \<Rightarrow> 'st BestStateBeacon \<Rightarrow> 'st BestStateBeacon" where
  "snapshot_candidates timestamp bs = bs
    \<lparr>bsCandidateShardWaitingForCurrentRandom := bsCandidateShardWaitingForNextRandom bs,
     bsCandidateBeaconWaitingForCurrentRandom := bsCandidateBeaconWaitingForNextRandom bs,
     bsCandidateShardWaitingForNextRandom := [], bsCandidateBeaconWaitingForNextRandom := [],
     bsCurrentRandomTimeStamp := timestamp\<rparr>"

definition assign_random ::
  "'db ChainEnv \<Rightarrow> ((bytes \<times> string) list \<Rightarrow> (bytes \<times> string) list) \<Rightarrow> 'st BestStateBeacon \<Rightarrow> 'st BestStateBeacon option" where
  "assign_random e iter bs =
    (case AssignValidatorShard e (bsShardPendingValidator bs) (bsCandidateShardWaitingForCurrentRandom bs)
            (bsCurrentRandomNumber bs) (bsActiveShards bs) of
       None \<Rightarrow> None
     | Some pending \<Rightarrow>
         Some (bs\<lparr>bsIsGetRandomNumber := True, bsShardPendingValidator := pending,
                  bsCandidateShardWaitingForCurrentRandom := [], bsCandidateBeaconWaitingForCurrentRandom := [],
                  bsBeaconPendingValidator := bsBeaconPendingValidator bs @
                    ShuffleCandidate e iter (bsCandidateBeaconWaitingForCurrentRandom bs) (bsCurrentRandomNumber bs)\<rparr>))"

text \<open>
  The epoch part. The last branch of the code, for a height that is a multiple of the epoch, comes after two
  tests that between them hold for every height, and is never taken.
\<close>

definition update_epoch ::
  "'db ChainEnv \<Rightarrow> ((bytes \<times> string) list \<Rightarrow> (bytes \<times> string) list) \<Rightarrow> BeaconBlock \<Rightarrow> bool \<Rightarrow>
   'st BestStateBeacon \<Rightarrow> ('st BestStateBeacon \<times> beacon_error option) option" where
  "update_epoch e iter newBlock randomFlag bs =
    (if bsBeaconHeight bs mod EPOCH = 1 \<and> bsBeaconHeight bs \<noteq> 1 then Some (bs\<lparr>bsIsGetRandomNumber := False\<rparr>, None)
     else if bsBeaconHeight bs mod EPOCH < RANDOM_TIME then Some (bs, None)
     else if bsBeaconHeight bs mod EPOCH \<ge> RANDOM_TIME then
       (let bs = (if bsBeaconHeight bs mod EPOCH = RANDOM_TIME then snapshot_candidates (bhTimestamp (bHeader newBlock)) bs
                  else bs)
        in if randomFlag then map_option (\<lambda>bs. (bs, None)) (assign_random e iter bs) else Some (bs, None))
     else if bsBeaconHeight bs mod EPOCH = 0 then
       (case SwapValidator (bsBeaconPendingValidator bs) (bsBeaconCommittee bs) (bsBeaconCommitteeSize bs) OFFSET of
          None \<Rightarrow> None
        | Some (pend, comm, out, inn, err) \<Rightarrow>
            Some (bs\<lparr>bsBeaconPendingValidator := pend, bsBeaconCommittee := comm\<rparr>,
              if err = None then None else Some UnExpectedError))
     else Some (bs, None))"

definition Update ::
  "'db ChainEnv \<Rightarrow> ((bytes \<times> string) list \<Rightarrow> (bytes \<times> string) list) \<Rightarrow>
   (string list \<Rightarrow> 'st BestStateBeacon \<Rightarrow> ((string \<rightharpoonup> string) \<times> 'st) option) \<Rightarrow>
   BeaconBlock \<Rightarrow> 'st BestStateBeacon \<Rightarrow> ('st BestStateBeacon \<times> beacon_error option) option" where
  "Update e iter stab newBlock bs =
    (case update_best e newBlock bs of
       None \<Rightarrow> None
     | Some bs1 \<Rightarrow>
         (case update_instructions stab (bbInstructions (bBody newBlock))
                 (bs1, \<lparr>coRandomFlag = False, coBeaconCandidate = [], coShardCandidate = []\<rparr>) of
            None \<Rightarrow> None
          | Some ((bs2, acc), ok) \<Rightarrow>
              if \<not> ok then Some (bs2, Some UnExpectedError)
              else
                (case assign_new acc bs2 of
                   None \<Rightarrow> None
                 | Some bs3 \<Rightarrow> update_epoch e iter newBlock (coRandomFlag acc) bs3)))"

section \<open>Checks\<close>

text \<open>Each staking instruction replaces what an earlier one of its kind named.\<close>

fun staking_loop :: "string list list \<Rightarrow> string list \<times> string list \<Rightarrow> (string list \<times> string list) option" where
  "staking_loop [] st = Some st"
| "staking_loop (v # vs) st =
    (if v = [] then None
     else if v ! 0 = StakeAction then
       (if length v < 3 then None
        else if v ! 2 = ''beacon'' then staking_loop vs (Split (v ! 1), snd st)
        else if v ! 2 = ''shard'' then staking_loop vs (fst st, Split (v ! 1))
        else staking_loop vs st)
     else staking_loop vs st)"

definition GetStakingCandidate :: "BeaconBlock \<Rightarrow> (string list \<times> string list) option" where
  "GetStakingCandidate beaconBlock = staking_loop (bbInstructions (bBody beaconBlock)) ([], [])"

definition VERSION :: int where "VERSION = 1"

text \<open>The answers: \<open>None\<close> a panic, \<open>Some None\<close> no error, \<open>Some (Some e)\<close> the error \<open>e\<close>.\<close>

definition VerifyBestStateWithBeaconBlock ::
  "'db ChainEnv \<Rightarrow> 'st BestStateBeacon \<Rightarrow> BeaconBlock \<Rightarrow> bool \<Rightarrow> beacon_error option option" where
  "VerifyBestStateWithBeaconBlock e bs block isVerifySig =
    (let h = bHeader block
     in if isVerifySig \<and> length (bValidatorsIdx block) \<le> length (bsBeaconCommittee bs) div 2 \<and>
             length (bsBeaconCommittee bs) > 3 then Some (Some SignatureError)
        else if isVerifySig \<and> \<not> ValidateAggSignature (bValidatorsIdx block) (bsBeaconCommittee bs) (bAggregatedSig block)
             (bR block) (BeaconBlock_Hash e block) then Some (Some SignatureError)
        else if bsBeaconHeight bs + 1 \<noteq> bhHeight h then Some (Some BlockHeightError)
        else if bsBestBlockHash bs \<noteq> bhPrevBlockHash h then Some (Some BlockHeightError)
        else if bhHeight h mod EPOCH = 1 \<and> bsEpoch bs + 1 \<noteq> bhEpoch h then Some (Some EpochError)
        else if bhHeight h mod EPOCH \<noteq> 1 \<and> bsEpoch bs \<noteq> bhEpoch h then Some (Some EpochError)
        else
          (case GetStakingCandidate block of
             None \<Rightarrow> None
           | Some (newBeaconCandidate, newShardCandidate) \<Rightarrow>
               if newBeaconCandidate \<noteq> [] \<and> GetValidStakers bs newBeaconCandidate \<noteq> newBeaconCandidate
                 then Some (Some CandidateError)
               else if newShardCandidate \<noteq> [] \<and> GetValidStakers bs newShardCandidate \<noteq> newShardCandidate
                 then Some (Some CandidateError)
               else Some None))"

definition VerifyPostProcessingBeaconBlock ::
  "'db ChainEnv \<Rightarrow> (string \<Rightarrow> string \<Rightarrow> bytes \<Rightarrow> bool) \<Rightarrow> 'st BestStateBeacon \<Rightarrow> BeaconBlock \<Rightarrow> string list \<Rightarrow>
   beacon_error option option" where
  "VerifyPostProcessingBeaconBlock e validSig bs block snapShotBeaconCommittee =
    (let h = bHeader block; i = bsBeaconProposerIdx bs
     in if i < 0 \<or> i \<ge> int (length snapShotBeaconCommittee) then None
        else if \<not> validSig (snapShotBeaconCommittee ! nat i) (bProducerSig block) (BeaconHeader_Hash e h)
          then Some (Some SignatureError)
        else if \<not> VerifyHashFromStringArray e (bsBeaconCommittee bs @ bsBeaconPendingValidator bs) (bhValidatorsRoot h)
          then Some (Some HashError)
        else if \<not> VerifyHashFromStringArray e
             (bsCandidateBeaconWaitingForCurrentRandom bs @ bsCandidateBeaconWaitingForNextRandom bs)
             (bhBeaconCandidateRoot h) then Some (Some HashError)
        else if \<not> VerifyHashFromStringArray e
             (bsCandidateShardWaitingForCurrentRandom bs @ bsCandidateShardWaitingForNextRandom bs)
             (bhShardCandidateRoot h) then Some (Some HashError)
        else if \<not> VerifyHashFromMapByteString e (entries (bsShardPendingValidator bs)) (entries (bsShardCommittee bs))
             (bhShardValidatorsRoot h) then Some (Some HashError)
        else Some None)"

text \<open>The bound \<open>len(shardStates)-2\<close> of the loop leaves out the last pair.\<close>

definition shard_states_format :: "ShardState list \<Rightarrow> bool" where
  "shard_states_format shardStates =
     list_all (\<lambda>i. ssHeight (shardStates ! (i + 1)) - ssHeight (shardStates ! i) = 1) [0..<length shardStates - 2]"

text \<open>
  \<open>reflect.DeepEqual\<close> on the list of shards compares the bytes. It would also tell a nil slice from an empty one; the
  header of a shard block and the state the beacon makes from it (\<open>make\<close> and \<open>copy\<close>) both have a slice that is not nil.
\<close>

definition shard_state_matches :: "'db ChainEnv \<Rightarrow> ShardState \<Rightarrow> ShardToBeaconBlock \<Rightarrow> bool" where
  "shard_state_matches e shardState b =
    (tbHeight b = ssHeight shardState \<and>
     Hash_String (ShardHeader_Hash e (tbHeader b)) = Hash_String (ssHash shardState) \<and>
     shCrossShards (tbHeader b) = ssCrossShard shardState)"

text \<open>
  The signature of one block of the pool. When the first one is not by the current committee the code tries after a
  swap, with the first result of \<open>SwapValidator\<close>, the remaining pending validators.
\<close>

definition pool_block_signed ::
  "'db ChainEnv \<Rightarrow> 'st BestStateBeacon \<Rightarrow> u8 \<Rightarrow> nat \<Rightarrow> ShardToBeaconBlock \<Rightarrow> bool option" where
  "pool_block_signed e bs shardID index b =
    (let committee = go_get [] (bsShardCommittee bs) shardID;
         valid = (\<lambda>c. ValidateAggSignature (tbValidatorsIdx b) c (tbAggregatedSig b) (tbR b) (ShardHeader_Hash e (tbHeader b)))
     in if valid committee then Some True
        else if index = 0 then
          (case SwapValidator (go_get [] (bsShardPendingValidator bs) shardID) committee (bsShardCommitteeSize bs) OFFSET of
             None \<Rightarrow> None
           | Some (currentCommittee, _, _, _, err) \<Rightarrow> Some (err = None \<and> valid currentCommittee))
        else Some False)"

fun all_signed :: "'db ChainEnv \<Rightarrow> 'st BestStateBeacon \<Rightarrow> u8 \<Rightarrow> nat \<Rightarrow> ShardToBeaconBlock list \<Rightarrow> bool option" where
  "all_signed e bs shardID index [] = Some True"
| "all_signed e bs shardID index (b # bs') =
    (case pool_block_signed e bs shardID index b of
       None \<Rightarrow> None
     | Some False \<Rightarrow> Some False
     | Some True \<Rightarrow> all_signed e bs shardID (index + 1) bs')"

definition verify_pool_shard ::
  "'db ChainEnv \<Rightarrow> 'st BestStateBeacon \<Rightarrow> ShardState list \<Rightarrow> u8 \<Rightarrow> ShardToBeaconBlock list \<Rightarrow> bool option" where
  "verify_pool_shard e bs shardStates shardID shardBlocks =
    (if length shardBlocks \<ge> length shardStates then
       (let shardBlocks = take (length shardStates) shardBlocks
        in if \<not> list_all2 (shard_state_matches e) shardStates shardBlocks then Some False
           else all_signed e bs shardID 0 shardBlocks)
     else Some False)"

fun verify_pool :: "('a \<Rightarrow> bool option) \<Rightarrow> 'a list \<Rightarrow> bool option" where
  "verify_pool f [] = Some True"
| "verify_pool f (x # xs) = (case f x of None \<Rightarrow> None | Some False \<Rightarrow> Some False | Some True \<Rightarrow> verify_pool f xs)"

text \<open>
  \<open>parent\<close> decodes a stored block; what it makes of bytes that are no block is up to the decoder, as
  the error is dropped. The pool comes back with the heights \<open>GetValidPendingBlock\<close> fills in.
\<close>

definition VerifyPreProcessingBeaconBlock ::
  "'db ChainEnv \<Rightarrow> (string \<Rightarrow> string \<Rightarrow> bytes \<Rightarrow> bool) \<Rightarrow> (bytes \<Rightarrow> BeaconBlock) \<Rightarrow> (u8 list \<Rightarrow> string) \<Rightarrow> 'db \<Rightarrow>
   'st BestStateBeacon \<Rightarrow> ShardToBeaconPool \<Rightarrow> BeaconBlock \<Rightarrow> bool \<Rightarrow> (beacon_error option \<times> ShardToBeaconPool) option" where
  "VerifyPreProcessingBeaconBlock e validSig parent js d bs pool block isCommittee =
    (let h = bHeader block; n = int (length (bsBeaconCommittee bs));
         pos = go_rem (go_int (bsBeaconProposerIdx bs + bhRound h)) n
     in if \<not> validSig (bhProducer h) (bProducerSig block) (BeaconHeader_Hash e h) then Some (Some ProducerError, pool)
        else if n = 0 \<or> pos < 0 then None
        else if bsBeaconCommittee bs ! nat pos \<noteq> bhProducer h then Some (Some ProducerError, pool)
        else if bhVersion h \<noteq> VERSION then Some (Some VersionError, pool)
        else
          (case snd (FetchBeaconBlock (ceLdb e) (bhPrevBlockHash h) d) of
             Inl _ \<Rightarrow> Some (Some DBError, pool)
           | Inr b \<Rightarrow>
               (let p = bHeader (parent b)
                in if bhHeight p + 1 \<noteq> bhHeight h then Some (Some BlockHeightError, pool)
                   else if bhHeight h \<noteq> 1 \<and> bhHeight h mod EPOCH = 1 \<and> bhEpoch p \<noteq> bhEpoch h - 1
                     then Some (Some EpochError, pool)
                   else if bhTimestamp h \<le> bhTimestamp p then Some (Some TimestampError, pool)
                   else if \<not> VerifyHashFromShardState e js (entries (ShardStates (bBody block))) (bhShardStateHash h)
                     then Some (Some ShardStateHashError, pool)
                   else if \<not> VerifyHashFromStringArray e (concat (bbInstructions (bBody block))) (bhInstructionHash h)
                     then Some (Some InstructionHashError, pool)
                   else if \<not> list_all (\<lambda>(s, l). shard_states_format l) (entries (ShardStates (bBody block)))
                     then Some (Some ShardStateError, pool)
                   else if isCommittee then
                     (let (allShardBlocks, pool') = GetValidPendingBlock pool None
                      in map_option (\<lambda>ok. (if ok then None else Some ShardStateError, pool'))
                           (verify_pool (\<lambda>(s, blks). verify_pool_shard e bs (go_get [] (ShardStates (bBody block)) s) s blks)
                             (entries allShardBlocks)))
                   else Some (None, pool))))"

section \<open>A shard's swap and the beacon's reading of it\<close>

lemma RemoveValidator_head: "RemoveValidator (v # vs) [v] = Some (vs, None)"
  by (simp add: RemoveValidator_def)

text \<open>With the offset of one the swap moves one validator in, and one out when the committee is full.\<close>

lemma SwapValidator_OFFSET:
  assumes "SwapValidator pend cur n OFFSET = Some (pend', cur', out, inn, None)" "int (length cur) \<le> n"
  obtains v where "pend = v # pend'" "inn = [v]"
    "out = [] \<and> cur' = cur @ [v] \<or> (\<exists>u us. cur = u # us \<and> out = [u] \<and> cur' = us @ [v])"
proof -
  obtain m where n: "n = int m" using assms(2) by (metis nonneg_int_cases of_nat_0_le_iff order_trans)
  have s: "swap_spec pend cur m 1 = (pend', cur', out, inn, None)"
    using assms SwapValidator_eq [of 1 cur m pend] by (simp add: n OFFSET_def)
  obtain v vs where pend: "pend = v # vs" using s by (cases pend) (auto simp: swap_spec_def)
  have m: "1 \<le> m" using s by (auto simp: swap_spec_def pend Let_def split: if_splits)
  show ?thesis
  proof (cases "length cur < m")
    case True
    then show ?thesis using s m that [of v] by (auto simp: swap_spec_def pend Let_def)
  next
    case False
    then obtain u us where "cur = u # us" using m by (cases cur) auto
    then show ?thesis using False s m assms(2) that [of v] by (auto simp: swap_spec_def pend Let_def n)
  qed
qed

text \<open>
  C4. The beacon follows a shard's swap. Let a shard with these pending validators and this committee create a swap
  instruction; a beacon state that has the same two lists for the shard processes the instruction without
  error, ends with the two lists the shard computed for itself, and changes no other
  shard. The keys must be non-empty and free of commas, as base58 texts are.
\<close>

theorem beacon_follows_shard_swap:
  assumes "CreateSwapAction pend comm n sid = Some (Inr (ins, pend', comm'))" "int (length comm) \<le> n"
    and "go_get [] (bsShardPendingValidator bs) sid = pend" "go_get [] (bsShardCommittee bs) sid = comm"
    and "\<forall>k \<in> set pend \<union> set comm. k \<noteq> [] \<and> CHR '','' \<notin> set k"
  shows "\<exists>bs'. swap_instruction ins bs = Some (bs', True) \<and>
    go_get [] (bsShardPendingValidator bs') sid = pend' \<and> go_get [] (bsShardCommittee bs') sid = comm' \<and>
    (\<forall>s. s \<noteq> sid \<longrightarrow> bsShardPendingValidator bs' s = bsShardPendingValidator bs s \<and>
       bsShardCommittee bs' s = bsShardCommittee bs s)"
proof -
  obtain out inn where sw: "SwapValidator pend comm n OFFSET = Some (pend', comm', out, inn, None)"
    and ins: "ins = [''swap'', Join inn, Join out, ''shard'', Itoa (int (unat sid))]"
    using assms(1) by (auto simp: CreateSwapAction_def split: option.splits prod.splits)
  obtain v where v: "pend = v # pend'" "inn = [v]"
    "out = [] \<and> comm' = comm @ [v] \<or> (\<exists>u us. comm = u # us \<and> out = [u] \<and> comm' = us @ [v])"
    by (rule SwapValidator_OFFSET [OF sw assms(2)])
  have "uint sid < 256" using unsigned_less [of sid, where ?'a = int] by simp
  then have sid: "Atoi (Itoa (int (unat sid))) = Some (int (unat sid))" by (intro Atoi_Itoa) auto
  have kv: "v \<noteq> []" "Split v = [v]" using assms(5) v(1) by (auto intro: Split_comma_free)
  have ku: "u \<noteq> [] \<and> Split u = [u]" if "u \<in> set comm" for u using assms(5) that by (auto intro: Split_comma_free)
  have in_ok: "shard_in sid v bs = Some (bs
      \<lparr>bsShardPendingValidator := (bsShardPendingValidator bs)(sid \<mapsto> pend'),
       bsShardCommittee := (bsShardCommittee bs)(sid \<mapsto> comm @ [v])\<rparr>, True)"
    using kv assms(3,4) v(1) by (simp add: shard_in_def RemoveValidator_head)
  show ?thesis
    using v(3)
  proof
    assume "out = [] \<and> comm' = comm @ [v]"
    then show ?thesis
      using kv sid in_ok by (simp add: ins v(2) swap_instruction_def then_if_ok_def shard_out_def)
  next
    assume "\<exists>u us. comm = u # us \<and> out = [u] \<and> comm' = us @ [v]"
    then obtain u us where u: "comm = u # us" "out = [u]" "comm' = us @ [v]" by blast
    then show ?thesis
      using kv sid in_ok ku [of u]
      by (simp add: ins v(2) swap_instruction_def then_if_ok_def shard_out_def RemoveValidator_head)
  qed
qed

section \<open>What an update leaves alone\<close>

text \<open>Only a swap instruction reaches the committees and the pending lists.\<close>

definition no_swap :: "string list list \<Rightarrow> bool" where
  "no_swap ls = list_all (\<lambda>l. l ! 0 \<noteq> SwapAction) ls"

definition stakes :: "string \<Rightarrow> string list list \<Rightarrow> string list" where
  "stakes role ls = concat (map (\<lambda>l. if l ! 0 = StakeAction \<and> l ! 2 = role then Split (l ! 1) else []) ls)"

definition validator_lists ::
  "'st BestStateBeacon \<Rightarrow> (u8 \<rightharpoonup> string list) \<times> (u8 \<rightharpoonup> string list) \<times> string list list" where
  "validator_lists bs =
    (bsShardCommittee bs, bsShardPendingValidator bs,
     [bsBeaconCommittee bs, bsBeaconPendingValidator bs,
      bsCandidateShardWaitingForCurrentRandom bs, bsCandidateBeaconWaitingForCurrentRandom bs,
      bsCandidateShardWaitingForNextRandom bs, bsCandidateBeaconWaitingForNextRandom bs])"

definition same_frame :: "'st BestStateBeacon \<Rightarrow> 'st BestStateBeacon \<Rightarrow> bool" where
  "same_frame bs bs' \<longleftrightarrow> validator_lists bs' = validator_lists bs \<and> bsBeaconHeight bs' = bsBeaconHeight bs \<and>
     bsEpoch bs' = bsEpoch bs \<and> bsBestBlockHash bs' = bsBestBlockHash bs \<and> bsActiveShards bs' = bsActiveShards bs \<and>
     bsBeaconProposerIdx bs' = bsBeaconProposerIdx bs \<and> bsBestShardHeight bs' = bsBestShardHeight bs"

lemma action_distinct [simp]:
  "SwapAction \<noteq> SetAction" "SwapAction \<noteq> DeleteAction" "StakeAction \<noteq> SetAction" "StakeAction \<noteq> DeleteAction"
  "StakeAction \<noteq> SwapAction" "StakeAction \<noteq> RandomAction" "SetAction \<noteq> StakeAction" "DeleteAction \<noteq> StakeAction"
  "SwapAction \<noteq> StakeAction" "RandomAction \<noteq> StakeAction"
  by (simp_all add: SetAction_def DeleteAction_def SwapAction_def RandomAction_def StakeAction_def)

lemma update_instruction_frame:
  assumes "update_instruction stab l (bs, acc) = Some ((bs', acc'), ok)" "l ! 0 \<noteq> SwapAction"
  shows "same_frame bs bs' \<and> coShardCandidate acc' = coShardCandidate acc @ stakes ''shard'' [l] \<and>
    coBeaconCandidate acc' = coBeaconCandidate acc @ stakes ''beacon'' [l]"
  using assms
  by (auto simp: update_instruction_def same_frame_def validator_lists_def stakes_def Let_def
      split: if_splits option.splits prod.splits)

lemma update_instructions_frame:
  "update_instructions stab ls (bs, acc) = Some ((bs', acc'), True) \<Longrightarrow> no_swap ls \<Longrightarrow>
    same_frame bs bs' \<and> coShardCandidate acc' = coShardCandidate acc @ stakes ''shard'' ls \<and>
    coBeaconCandidate acc' = coBeaconCandidate acc @ stakes ''beacon'' ls"
proof (induction ls arbitrary: bs acc)
  case Nil
  then show ?case by (simp add: same_frame_def stakes_def)
next
  case (Cons l ls)
  from Cons.prems(1) obtain bs1 acc1 where s: "update_instruction stab l (bs, acc) = Some ((bs1, acc1), True)"
    "update_instructions stab ls (bs1, acc1) = Some ((bs', acc'), True)"
    by (auto simp: then_if_ok_def split: option.splits prod.splits bool.splits)
  have "l ! 0 \<noteq> SwapAction" "no_swap ls" using Cons.prems(2) by (simp_all add: no_swap_def)
  then show ?case
    using update_instruction_frame [OF s(1)] Cons.IH [OF s(2)] by (auto simp: same_frame_def stakes_def)
qed

lemma update_best_fields:
  assumes "update_best e blk bs = Some bs1"
  shows "validator_lists bs1 = validator_lists bs" "bsBeaconHeight bs1 = bhHeight (bHeader blk)"
    "bsEpoch bs1 = bhEpoch (bHeader blk)" "bsBestBlockHash bs1 = BeaconBlock_Hash e blk"
    "bsActiveShards bs1 = bsActiveShards bs"
  using assms by (auto simp: update_best_def validator_lists_def Let_def split: if_splits)

lemma Update_parts:
  assumes "Update e iter stab blk bs = Some (bs', None)"
  obtains bs1 bs2 bs3 acc where "update_best e blk bs = Some bs1"
    "update_instructions stab (bbInstructions (bBody blk))
       (bs1, \<lparr>coRandomFlag = False, coBeaconCandidate = [], coShardCandidate = []\<rparr>) = Some ((bs2, acc), True)"
    "assign_new acc bs2 = Some bs3" "update_epoch e iter blk (coRandomFlag acc) bs3 = Some (bs', None)"
  using assms by (auto simp: Update_def split: option.splits prod.splits if_splits)

lemma update_epoch_committees:
  assumes "update_epoch e iter blk flag bs = Some (bs', err)"
  shows "bsBeaconCommittee bs' = bsBeaconCommittee bs \<and> bsShardCommittee bs' = bsShardCommittee bs \<and>
    bsBeaconHeight bs' = bsBeaconHeight bs \<and> bsBestBlockHash bs' = bsBestBlockHash bs \<and> bsEpoch bs' = bsEpoch bs"
  using assms
  by (auto simp: update_epoch_def assign_random_def snapshot_candidates_def Let_def split: if_splits option.splits prod.splits)

text \<open>
  The beacon committee never rotates by itself. An update with a block that has no swap instruction leaves the
  beacon committee and every shard committee as they were, at every height but the genesis, and so also at the
  end of an epoch: the branch that swaps the beacon committee there is not reachable.
\<close>

theorem beacon_committee_never_rotates:
  assumes "Update e iter stab blk bs = Some (bs', None)" "no_swap (bbInstructions (bBody blk))" "bhHeight (bHeader blk) \<noteq> 1"
  shows "bsBeaconCommittee bs' = bsBeaconCommittee bs \<and> bsShardCommittee bs' = bsShardCommittee bs"
proof (rule Update_parts [OF assms(1)])
  fix bs1 bs2 bs3 acc
  assume u: "update_best e blk bs = Some bs1"
    "update_instructions stab (bbInstructions (bBody blk))
       (bs1, \<lparr>coRandomFlag = False, coBeaconCandidate = [], coShardCandidate = []\<rparr>) = Some ((bs2, acc), True)"
    "assign_new acc bs2 = Some bs3" "update_epoch e iter blk (coRandomFlag acc) bs3 = Some (bs', None)"
  show ?thesis
    using update_best_fields [OF u(1)] update_instructions_frame [OF u(2) assms(2)] u(3) update_epoch_committees [OF u(4)]
      assms(3)
    by (auto simp: same_frame_def validator_lists_def assign_new_def split: if_splits)
qed

section \<open>Candidates are kept\<close>

text \<open>Everyone on the way to a shard committee, with multiplicity.\<close>

definition listed :: "(u8 \<rightharpoonup> string list) \<Rightarrow> string multiset" where
  "listed m = (\<Sum>k \<in> UNIV. mset (go_get [] m k))"

definition shard_validators :: "'st BestStateBeacon \<Rightarrow> string multiset" where
  "shard_validators bs =
     mset (bsCandidateShardWaitingForNextRandom bs) + mset (bsCandidateShardWaitingForCurrentRandom bs) +
     listed (bsShardPendingValidator bs) + listed (bsShardCommittee bs)"

lemma listed_snoc: "listed (m(s \<mapsto> go_get [] m s @ [c])) = listed m + {#c#}"
proof -
  have "(\<Sum>k \<in> UNIV - {s}. mset (go_get [] (m(s \<mapsto> go_get [] m s @ [c])) k)) = (\<Sum>k \<in> UNIV - {s}. mset (go_get [] m k))"
    by (intro sum.cong) auto
  then show ?thesis
    unfolding listed_def by (simp add: sum.remove [of UNIV s] del: fun_upd_apply)
qed

lemma AssignValidatorShard_listed:
  "AssignValidatorShard e m cs rand n = Some m' \<Longrightarrow> listed m' = listed m + mset cs"
proof (induction cs arbitrary: m)
  case (Cons c cs)
  then obtain s where "AssignValidatorShard e (m(s \<mapsto> go_get [] m s @ [c])) cs rand n = Some m'"
    by (auto split: option.splits)
  then show ?case using Cons.IH [of "m(s \<mapsto> go_get [] m s @ [c])"] by (simp add: listed_snoc del: fun_upd_apply)
qed simp

lemma assign_random_shard_validators:
  "assign_random e iter bs = Some bs' \<Longrightarrow> shard_validators bs' = shard_validators bs"
  by (auto simp: assign_random_def shard_validators_def AssignValidatorShard_listed split: option.splits)

lemma shard_validators_flag [simp]: "shard_validators (bs\<lparr>bsIsGetRandomNumber := b\<rparr>) = shard_validators bs"
  by (simp add: shard_validators_def)

lemma update_epoch_shard_validators:
  assumes "update_epoch e iter blk flag bs = Some (bs', None)"
  shows "shard_validators bs' +
    (if bsBeaconHeight bs mod EPOCH = RANDOM_TIME then mset (bsCandidateShardWaitingForCurrentRandom bs) else {#}) =
    shard_validators bs"
proof -
  have snap: "shard_validators (snapshot_candidates t bs) + mset (bsCandidateShardWaitingForCurrentRandom bs) =
      shard_validators bs" for t
    by (simp add: shard_validators_def snapshot_candidates_def)
  have rt: "RANDOM_TIME \<noteq> 1" by (simp add: RANDOM_TIME_def)
  show ?thesis
    using assms snap rt
    by (auto simp: update_epoch_def Let_def not_less dest!: assign_random_shard_validators
        split: if_splits option.splits prod.splits)
qed

text \<open>
  C5. No candidate for a shard is lost or doubled by an update without swap instructions, except at the height in
  each epoch at which the random number is due: there the list that waits for the current random number
  is overwritten, and the candidates still in it (those of an epoch whose random number never came) are gone.
\<close>

theorem shard_candidates_conserved:
  assumes "Update e iter stab blk bs = Some (bs', None)" "no_swap (bbInstructions (bBody blk))" "bhHeight (bHeader blk) \<noteq> 1"
  shows "shard_validators bs' +
    (if bhHeight (bHeader blk) mod EPOCH = RANDOM_TIME then mset (bsCandidateShardWaitingForCurrentRandom bs) else {#}) =
    shard_validators bs + mset (stakes ''shard'' (bbInstructions (bBody blk)))"
proof (rule Update_parts [OF assms(1)])
  fix bs1 bs2 bs3 acc
  assume u: "update_best e blk bs = Some bs1"
    "update_instructions stab (bbInstructions (bBody blk))
       (bs1, \<lparr>coRandomFlag = False, coBeaconCandidate = [], coShardCandidate = []\<rparr>) = Some ((bs2, acc), True)"
    "assign_new acc bs2 = Some bs3" "update_epoch e iter blk (coRandomFlag acc) bs3 = Some (bs', None)"
  have f: "validator_lists bs2 = validator_lists bs" "bsBeaconHeight bs2 = bhHeight (bHeader blk)"
    "coShardCandidate acc = stakes ''shard'' (bbInstructions (bBody blk))"
    using update_best_fields [OF u(1)] update_instructions_frame [OF u(2) assms(2)] by (auto simp: same_frame_def)
  have s3: "shard_validators bs3 = shard_validators bs + mset (stakes ''shard'' (bbInstructions (bBody blk)))"
    "bsCandidateShardWaitingForCurrentRandom bs3 = bsCandidateShardWaitingForCurrentRandom bs"
    "bsBeaconHeight bs3 = bhHeight (bHeader blk)"
    using u(3) f assms(3) by (auto simp: assign_new_def shard_validators_def validator_lists_def split: if_splits)
  show ?thesis by (rule update_epoch_shard_validators [OF u(4), unfolded s3])
qed

section \<open>Checks that pass too much\<close>

text \<open>
  Only the last staking instruction of a block is checked. Putting one more staking instruction for a shard before
  another one changes nothing in the verdict of \<open>VerifyBestStateWithBeaconBlock\<close>, whoever it names, while
  \<open>Update\<close> enters the named candidates as it does all others.
\<close>

theorem earlier_stake_unchecked:
  assumes "bbInstructions (bBody blk) = [StakeAction, a, ''shard''] # ls"
    and "bbInstructions (bBody blk0) = ls" "bHeader blk0 = bHeader blk" "bValidatorsIdx blk0 = bValidatorsIdx blk"
    and "\<exists>l \<in> set ls. l ! 0 = StakeAction \<and> l ! 2 = ''shard''"
  shows "VerifyBestStateWithBeaconBlock e bs blk sig = VerifyBestStateWithBeaconBlock e bs blk0 sig \<and>
    stakes ''shard'' (bbInstructions (bBody blk)) = Split a @ stakes ''shard'' (bbInstructions (bBody blk0))"
proof -
  have loop: "\<exists>l \<in> set ls. l ! 0 = StakeAction \<and> l ! 2 = ''shard'' \<Longrightarrow> staking_loop ls (b, x) = staking_loop ls (b, y)" for b x y
  proof (induction ls arbitrary: b x y)
    case (Cons v vs)
    show ?case
    proof (cases "v ! 0 = StakeAction \<and> v ! 2 = ''shard''")
      case True
      then show ?thesis by simp
    next
      case False
      then have "staking_loop vs (b', x) = staking_loop vs (b', y)" for b' using Cons by auto
      then show ?thesis using False by auto
    qed
  qed simp
  have "GetStakingCandidate blk = GetStakingCandidate blk0"
    using loop [OF assms(5)] by (simp add: GetStakingCandidate_def assms(1,2))
  then show ?thesis
    using assms(1-4) by (simp add: VerifyBestStateWithBeaconBlock_def ValidateAggSignature_def stakes_def Let_def)
qed

text \<open>
  The check that the shard states of a block have consecutive heights leaves out the last one: a list passes
  exactly when all but its last state are consecutive.
\<close>

theorem last_shard_state_unchecked:
  "shard_states_format (sts @ [st]) \<longleftrightarrow> (\<forall>i. i + 1 < length sts \<longrightarrow> ssHeight (sts ! (i + 1)) = ssHeight (sts ! i) + 1)"
proof -
  have "(ssHeight ((sts @ [st]) ! (i + 1)) - ssHeight ((sts @ [st]) ! i) = 1) = (ssHeight (sts ! (i + 1)) = ssHeight (sts ! i) + 1)"
    if "i + 1 < length sts" for i
    using that by (simp add: nth_append diff_eq_eq add.commute)
  then show ?thesis by (auto simp: shard_states_format_def list_all_iff)
qed

theorem last_shard_state_unchecked_witness:
  "shard_states_format [\<lparr>ssHeight = 4, ssHash = [], ssCrossShard = []\<rparr>, \<lparr>ssHeight = 9, ssHash = [], ssCrossShard = []\<rparr>]"
  using last_shard_state_unchecked [of "[\<lparr>ssHeight = 4, ssHash = [], ssCrossShard = []\<rparr>]"
      "\<lparr>ssHeight = 9, ssHash = [], ssCrossShard = []\<rparr>"] by simp

section \<open>A concrete chain\<close>

definition sample_best :: "unit BestStateBeacon" where
  "sample_best =
    \<lparr>bsBestBlockHash = replicate 32 7, bsPrevBestBlockHash = [], bsBestBlock = None, bsBestShardHash = Map.empty,
     bsBestShardHeight = Map.empty, bsEpoch = 2, bsBeaconHeight = 19, bsBeaconProposerIdx = 0,
     bsBeaconCommittee = [''p'', ''q''], bsBeaconPendingValidator = [''r''],
     bsCandidateShardWaitingForCurrentRandom = [''w''], bsCandidateBeaconWaitingForCurrentRandom = [],
     bsCandidateShardWaitingForNextRandom = [], bsCandidateBeaconWaitingForNextRandom = [],
     bsShardCommittee = [1 \<mapsto> [''a'', ''b'']], bsShardPendingValidator = [1 \<mapsto> [''c'', ''d'']],
     bsCurrentRandomNumber = 5, bsCurrentRandomTimeStamp = 0, bsIsGetRandomNumber = False, bsParams = Map.empty,
     bsStabilityInfo = (), bsShardHandle = Map.empty, bsBeaconCommitteeSize = 2, bsShardCommitteeSize = 2,
     bsActiveShards = 4, bsLastCrossShardState = Map.empty\<rparr>"

definition sample_beacon :: "u64 \<Rightarrow> string list list \<Rightarrow> BeaconBlock" where
  "sample_beacon h ins =
    \<lparr>bAggregatedSig = [], bR = [], bValidatorsIdx = [], bProducerSig = [],
     bBody = \<lparr>ShardStates = Map.empty, bbInstructions = ins\<rparr>,
     bHeader = \<lparr>bhProducer = ''q'', bhVersion = 1, bhHeight = h, bhEpoch = 2, bhRound = 1, bhTimestamp = int (unat h),
       bhPrevBlockHash = replicate 32 7, bhValidatorsRoot = [], bhBeaconCandidateRoot = [], bhShardCandidateRoot = [],
       bhShardValidatorsRoot = [], bhShardStateHash = replicate 32 0, bhInstructionHash = replicate 32 0\<rparr>\<rparr>"

definition sample_stab :: "string list \<Rightarrow> unit BestStateBeacon \<Rightarrow> ((string \<rightharpoonup> string) \<times> unit) option" where
  "sample_stab l bs = Some (bsParams bs, ())"

theorem beacon_follows_shard_swap_witness:
  "\<exists>ins bs'. CreateSwapAction [''c'', ''d''] [''a'', ''b''] 2 1 = Some (Inr (ins, [''d''], [''b'', ''c''])) \<and>
     swap_instruction ins sample_best = Some (bs', True) \<and>
     go_get [] (bsShardPendingValidator bs') 1 = [''d''] \<and> go_get [] (bsShardCommittee bs') 1 = [''b'', ''c'']"
proof -
  have c: "CreateSwapAction [''c'', ''d''] [''a'', ''b''] 2 1 =
      Some (Inr ([''swap'', ''c'', ''a'', ''shard'', Itoa (int (unat (1 :: u8)))], [''d''], [''b'', ''c'']))"
    by (simp add: CreateSwapAction_def SwapValidator_def OFFSET_def)
  show ?thesis
    using c beacon_follows_shard_swap [OF c, of sample_best] by (fastforce simp: sample_best_def)
qed

lemma sample_update:
  "\<exists>bs'. Update sample_env iter sample_stab (sample_beacon 20 [[''stake'', ''x'', ''shard'']]) sample_best = Some (bs', None)"
  by (simp add: Update_def update_best_def sample_beacon_def update_instruction_def then_if_ok_def
      sample_stab_def Let_def assign_new_def update_epoch_def StakeAction_def SetAction_def DeleteAction_def SwapAction_def
      RandomAction_def sample_best_def EPOCH_def RANDOM_TIME_def list_ex_iff)

theorem beacon_committee_never_rotates_witness:
  "\<exists>bs'. Update sample_env id sample_stab (sample_beacon 20 [[''stake'', ''x'', ''shard'']]) sample_best = Some (bs', None) \<and>
     bsBeaconCommittee bs' = [''p'', ''q'']"
proof -
  obtain bs' where u: "Update sample_env id sample_stab (sample_beacon 20 [[''stake'', ''x'', ''shard'']]) sample_best = Some (bs', None)"
    using sample_update by blast
  have "bsBeaconCommittee sample_best = [''p'', ''q'']" by (simp add: sample_best_def)
  then show ?thesis
    using u beacon_committee_never_rotates [OF u] by (simp add: no_swap_def sample_beacon_def SwapAction_def)
qed

theorem shard_candidates_conserved_witness:
  "\<exists>bs'. Update sample_env id sample_stab (sample_beacon 20 [[''stake'', ''x'', ''shard'']]) sample_best = Some (bs', None) \<and>
     shard_validators bs' = shard_validators sample_best + {#''x''#}"
proof -
  obtain bs' where u: "Update sample_env id sample_stab (sample_beacon 20 [[''stake'', ''x'', ''shard'']]) sample_best = Some (bs', None)"
    using sample_update by blast
  then show ?thesis
    using shard_candidates_conserved [OF u]
    by (simp add: no_swap_def sample_beacon_def SwapAction_def stakes_def StakeAction_def EPOCH_def RANDOM_TIME_def)
qed

theorem earlier_stake_unchecked_witness:
  "VerifyBestStateWithBeaconBlock sample_env sample_best
     (sample_beacon 20 [[''stake'', ''a'', ''shard''], [''stake'', ''x'', ''shard'']]) True =
   VerifyBestStateWithBeaconBlock sample_env sample_best (sample_beacon 20 [[''stake'', ''x'', ''shard'']]) True"
  by (rule earlier_stake_unchecked [THEN conjunct1, of _ "''a''" "[[''stake'', ''x'', ''shard'']]"])
    (simp_all add: sample_beacon_def StakeAction_def)

end
