(* ===== verification/Beacon_Insert.thy ===== *)
theory Beacon_Insert
  imports Beacon_State
begin

text \<open>
  Inserting a beacon block (\<open>InsertBeaconBlock\<close> and \<open>VerifyPreSignBeaconBlock\<close> of
  \<open>src/blockchain/beaconprocess.go\<close>): the composition of the checks, the update of the best state, the
  database and the three pools. What is shown: a completed insert extends the chain and can be read
  back; a block refused by the last check has already replaced the best state.
\<close>

section \<open>Inserting a block\<close>

record ('db, 'st, 'coin, 'tok) Node =
  ndBest :: "'st BestStateBeacon"
  ndDb :: 'db
  ndBeaconPool :: BeaconPool
  ndShardToBeaconPool :: ShardToBeaconPool
  ndCrossShardPool :: "u8 \<rightharpoonup> ('coin, 'tok) CrossShardPool"

text \<open>
  What the node runs with: signature checks, codecs, the order in which the shards of a block are visited, the best
  cross shard heights of each shard's state, the stability instructions and \<open>processBeaconOnlyInstructions\<close>.
\<close>

record ('db, 'st) NodeEnv =
  neChain :: "'db ChainEnv"
  neValidSig :: "string \<Rightarrow> string \<Rightarrow> bytes \<Rightarrow> bool"
  neParseBlock :: "bytes \<Rightarrow> BeaconBlock"
  neMarshalBlock :: "BeaconBlock \<Rightarrow> bytes option"
  neMarshalState :: "'st BestStateBeacon \<Rightarrow> bytes option"
  neMarshalCommittee :: "(u8 \<rightharpoonup> string list) \<Rightarrow> bytes option"
  neJson :: "u8 list \<Rightarrow> string"
  neIter :: "(bytes \<times> string) list \<Rightarrow> (bytes \<times> string) list"
  neOrder :: "(u8 \<rightharpoonup> ShardState list) \<Rightarrow> u8 list"
  neBestCrossShard :: "u8 \<Rightarrow> (u8 \<rightharpoonup> u64)"
  neStab :: "string list \<Rightarrow> 'st BestStateBeacon \<Rightarrow> ((string \<rightharpoonup> string) \<times> 'st) option"
  neBeaconOnly :: "BeaconBlock \<Rightarrow> 'db \<Rightarrow> 'db \<times> bool"

fun store_accepted :: "'db leveldb \<Rightarrow> u64 \<Rightarrow> (u8 \<times> ShardState) list \<Rightarrow> 'db \<Rightarrow> 'db" where
  "store_accepted l height [] d = d"
| "store_accepted l height ((s, st) # sts) d =
     store_accepted l height sts (fst (StoreAcceptedShardToBeacon l s height (ssHash st) d))"

text \<open>Recording the cross shard heights of one source shard, and the update of that shard's own pool.\<close>

definition record_shard ::
  "('db, 'st) NodeEnv \<Rightarrow> BeaconBlock \<Rightarrow> u8 \<Rightarrow> ('db, 'st, 'coin, 'tok) Node \<Rightarrow> ('db, 'st, 'coin, 'tok) Node option" where
  "record_shard ne block fromShard nd =
    (let l = ceLdb (neChain ne);
         (d, lasts) = store_cross_shard l fromShard (go_get [] (ShardStates (bBody block)) fromShard)
           (ndDb nd, bsLastCrossShardState (ndBest nd));
         nd = nd\<lparr>ndDb := d, ndBest := (ndBest nd)\<lparr>bsLastCrossShardState := lasts\<rparr>\<rparr>
     in case ndCrossShardPool nd fromShard of
          None \<Rightarrow> None
        | Some pool \<Rightarrow>
            Some (nd\<lparr>ndCrossShardPool := (ndCrossShardPool nd)
              (fromShard \<mapsto> fst (updatePool (getNextCrossShardHeight l d) (neBestCrossShard ne fromShard) pool))\<rparr>))"

fun record_shards ::
  "('db, 'st) NodeEnv \<Rightarrow> BeaconBlock \<Rightarrow> u8 list \<Rightarrow> ('db, 'st, 'coin, 'tok) Node \<Rightarrow> ('db, 'st, 'coin, 'tok) Node option" where
  "record_shards ne block [] nd = Some nd"
| "record_shards ne block (s # ss) nd =
    (case record_shard ne block s nd of None \<Rightarrow> None | Some nd' \<Rightarrow> record_shards ne block ss nd')"

text \<open>The last part: the block is stored, the pools move on. An error of the database ends it.\<close>

definition finish_insert ::
  "('db, 'st) NodeEnv \<Rightarrow> BeaconBlock \<Rightarrow> ('db, 'st, 'coin, 'tok) Node \<Rightarrow> (('db, 'st, 'coin, 'tok) Node \<times> beacon_error option) option" where
  "finish_insert ne block nd =
    (case record_shards ne block (neOrder ne (ShardStates (bBody block))) nd of
       None \<Rightarrow> None
     | Some nd \<Rightarrow>
         (let (d, ok) = neBeaconOnly ne block (ndDb nd); nd = nd\<lparr>ndDb := d\<rparr>
          in if \<not> ok then Some (nd, Some StoreError)
             else
               (let (s2b, heights) = S2B_SetShardState (ndShardToBeaconPool nd) (bsBestShardHeight (ndBest nd))
                in Some (nd\<lparr>ndBeaconPool := SetBeaconState (ndBeaconPool nd) (bsBeaconHeight (ndBest nd)),
                            ndShardToBeaconPool := s2b,
                            ndBest := (ndBest nd)\<lparr>bsBestShardHeight := heights\<rparr>\<rparr>, None))))"

definition store_insert ::
  "('db, 'st) NodeEnv \<Rightarrow> BeaconBlock \<Rightarrow> 'st BestStateBeacon \<Rightarrow> ('db, unit) dbm" where
  "store_insert ne block bs =
    (let l = ceLdb (neChain ne); h = bHeader block; hash = BeaconBlock_Hash (neChain ne) block
     in db_then (StoreBeaconBestState l (neMarshalState ne) bs)
       (db_then (StoreBeaconBlock l (neMarshalBlock ne) (\<lambda>b. Some (BeaconBlock_Hash (neChain ne) b)) block)
       (db_then (StoreBeaconBlockIndex l hash (bhHeight h))
       (\<lambda>d. let d = store_accepted l (bhHeight h)
                  (concat (map (\<lambda>(s, sts). map (\<lambda>st. (s, st)) sts) (entries (ShardStates (bBody block))))) d
            in case snd (HasCommitteeByEpoch l (bhEpoch h) d) of
                 Inr True \<Rightarrow> (d, Inr ())
               | _ \<Rightarrow> StoreCommitteeByEpoch l (neMarshalCommittee ne) (bhEpoch h) (bsShardCommittee bs) d))))"

definition InsertBeaconBlock ::
  "('db, 'st) NodeEnv \<Rightarrow> BeaconBlock \<Rightarrow> bool \<Rightarrow> ('db, 'st, 'coin, 'tok) Node \<Rightarrow>
   (('db, 'st, 'coin, 'tok) Node \<times> beacon_error option) option" where
  "InsertBeaconBlock ne block isCommittee nd =
    (let e = neChain ne; l = ceLdb e; bs = ndBest nd
     in case snd (HasBeaconBlock l (BeaconBlock_Hash e block) (ndDb nd)) of
          Inr True \<Rightarrow> Some (nd, Some DuplicateBlockErr)
        | _ \<Rightarrow>
          (case VerifyPreProcessingBeaconBlock e (neValidSig ne) (neParseBlock ne) (neJson ne) (ndDb nd) bs
                  (ndShardToBeaconPool nd) block isCommittee of
             None \<Rightarrow> None
           | Some (err, pool) \<Rightarrow>
               (let nd = nd\<lparr>ndShardToBeaconPool := pool\<rparr>
                in if err \<noteq> None then Some (nd, err)
                   else if Hash_String (bsBestBlockHash bs) \<noteq> Hash_String (bhPrevBlockHash (bHeader block))
                     then Some (nd, Some BeaconError)
                   else
                     (case VerifyBestStateWithBeaconBlock e bs block True of
                        None \<Rightarrow> None
                      | Some (Some err) \<Rightarrow> Some (nd, Some err)
                      | Some None \<Rightarrow>
                          (case Update e (neIter ne) (neStab ne) block bs of
                             None \<Rightarrow> None
                           | Some (bs', Some err) \<Rightarrow> Some (nd\<lparr>ndBest := bs'\<rparr>, Some err)
                           | Some (bs', None) \<Rightarrow>
                               (let nd = nd\<lparr>ndBest := bs'\<rparr>
                                in case VerifyPostProcessingBeaconBlock e (neValidSig ne) bs' block (bsBeaconCommittee bs) of
                                     None \<Rightarrow> None
                                   | Some (Some err) \<Rightarrow> Some (nd, Some err)
                                   | Some None \<Rightarrow>
                                       (case store_insert ne block bs' (ndDb nd) of
                                          (d, Inl _) \<Rightarrow> Some (nd\<lparr>ndDb := d\<rparr>, Some StoreError)
                                        | (d, Inr _) \<Rightarrow> finish_insert ne block (nd\<lparr>ndDb := d\<rparr>))))))))"

text \<open>
  Before a block is signed the same checks run on a copy of the state; a block that does not continue the
  state finds the copy empty and is refused.
\<close>

definition VerifyPreSignBeaconBlock ::
  "('db, 'st) NodeEnv \<Rightarrow> BeaconBlock \<Rightarrow> bool \<Rightarrow> ('db, 'st, 'coin, 'tok) Node \<Rightarrow>
   (ShardToBeaconPool \<times> beacon_error option) option" where
  "VerifyPreSignBeaconBlock ne block isCommittee nd =
    (let e = neChain ne; bs = ndBest nd
     in case VerifyPreProcessingBeaconBlock e (neValidSig ne) (neParseBlock ne) (neJson ne) (ndDb nd) bs
               (ndShardToBeaconPool nd) block isCommittee of
          None \<Rightarrow> None
        | Some (Some err, pool) \<Rightarrow> Some (pool, Some err)
        | Some (None, pool) \<Rightarrow>
            if Hash_String (bsBestBlockHash bs) \<noteq> Hash_String (bhPrevBlockHash (bHeader block))
              then Some (pool, Some BeaconError)
            else
              (case VerifyBestStateWithBeaconBlock e bs block False of
                 None \<Rightarrow> None
               | Some (Some err) \<Rightarrow> Some (pool, Some err)
               | Some None \<Rightarrow>
                   (case Update e (neIter ne) (neStab ne) block bs of
                      None \<Rightarrow> None
                    | Some (bs', Some err) \<Rightarrow> Some (pool, Some err)
                    | Some (bs', None) \<Rightarrow>
                        map_option (\<lambda>err. (pool, err))
                          (VerifyPostProcessingBeaconBlock e (neValidSig ne) bs' block (bsBeaconCommittee bs)))))"

section \<open>Refused blocks\<close>

lemma pre_no_hash_error:
  "VerifyPreProcessingBeaconBlock e vs parent js d bs pool blk c \<noteq> Some (Some HashError, pool')"
  by (auto simp: VerifyPreProcessingBeaconBlock_def Let_def split: if_splits option.splits sum.splits prod.splits)

lemma best_no_hash_error: "VerifyBestStateWithBeaconBlock e bs blk sig \<noteq> Some (Some HashError)"
  by (auto simp: VerifyBestStateWithBeaconBlock_def Let_def split: if_splits option.splits prod.splits)

lemma best_state_link:
  "VerifyBestStateWithBeaconBlock e bs blk sig = Some None \<Longrightarrow>
    bsBeaconHeight bs + 1 = bhHeight (bHeader blk) \<and> bsBestBlockHash bs = bhPrevBlockHash (bHeader blk)"
  by (auto simp: VerifyBestStateWithBeaconBlock_def Let_def split: if_splits option.splits prod.splits)

lemma Update_error: "Update e iter stab blk bs = Some (bs', Some err) \<Longrightarrow> err = UnExpectedError"
  by (auto simp: Update_def update_epoch_def Let_def split: option.splits prod.splits if_splits)

lemma finish_no_hash_error: "finish_insert ne blk nd \<noteq> Some (nd', Some HashError)"
  by (auto simp: finish_insert_def Let_def split: option.splits prod.splits if_splits)

lemma swap_instruction_height:
  assumes "swap_instruction l bs = Some (bs', ok)"
  shows "bsBeaconHeight bs' = bsBeaconHeight bs \<and> bsBestBlockHash bs' = bsBestBlockHash bs"
  using assms
  by (auto simp: swap_instruction_def then_if_ok_def shard_in_def shard_out_def beacon_in_def beacon_out_def Let_def
      split: if_splits option.splits prod.splits bool.splits)

lemma update_instruction_height:
  assumes "update_instruction stab l (bs, acc) = Some ((bs', acc'), ok)"
  shows "bsBeaconHeight bs' = bsBeaconHeight bs \<and> bsBestBlockHash bs' = bsBestBlockHash bs"
  using assms swap_instruction_height
  by (fastforce simp: update_instruction_def Let_def split: if_splits option.splits prod.splits)

lemma update_instructions_height:
  "update_instructions stab ls (bs, acc) = Some ((bs', acc'), ok) \<Longrightarrow>
    bsBeaconHeight bs' = bsBeaconHeight bs \<and> bsBestBlockHash bs' = bsBestBlockHash bs"
proof (induction ls arbitrary: bs acc)
  case (Cons l ls)
  from Cons.prems obtain bs1 acc1 ok1 where s: "update_instruction stab l (bs, acc) = Some ((bs1, acc1), ok1)"
    "ok1 \<Longrightarrow> update_instructions stab ls (bs1, acc1) = Some ((bs', acc'), ok)" "\<not> ok1 \<Longrightarrow> bs' = bs1"
    by (auto simp: then_if_ok_def split: option.splits prod.splits bool.splits)
  show ?case using update_instruction_height [OF s(1)] Cons.IH [OF s(2)] s(3) by (cases ok1) auto
qed simp

text \<open>A completed update stands at the height and hash of the new block.\<close>

lemma Update_height:
  assumes "Update e iter stab blk bs = Some (bs', None)"
  shows "bsBeaconHeight bs' = bhHeight (bHeader blk) \<and> bsBestBlockHash bs' = BeaconBlock_Hash e blk"
proof (rule Update_parts [OF assms])
  fix bs1 bs2 bs3 acc
  assume u: "update_best e blk bs = Some bs1"
    "update_instructions stab (bbInstructions (bBody blk))
       (bs1, \<lparr>coRandomFlag = False, coBeaconCandidate = [], coShardCandidate = []\<rparr>) = Some ((bs2, acc), True)"
    "assign_new acc bs2 = Some bs3" "update_epoch e iter blk (coRandomFlag acc) bs3 = Some (bs', None)"
  have "bsBeaconHeight bs3 = bsBeaconHeight bs2 \<and> bsBestBlockHash bs3 = bsBestBlockHash bs2"
    using u(3) by (auto simp: assign_new_def split: if_splits option.splits)
  then show ?thesis
    using update_best_fields [OF u(1)] update_instructions_height [OF u(2)] update_epoch_committees [OF u(4)] by simp
qed

text \<open>The ways through \<open>InsertBeaconBlock\<close> that reach the update.\<close>

lemma InsertBeaconBlock_HashError:
  assumes "InsertBeaconBlock ne blk c nd = Some (nd', Some HashError)"
  obtains pool bs' where "VerifyBestStateWithBeaconBlock (neChain ne) (ndBest nd) blk True = Some None"
    "Update (neChain ne) (neIter ne) (neStab ne) blk (ndBest nd) = Some (bs', None)"
    "nd' = nd\<lparr>ndShardToBeaconPool := pool, ndBest := bs'\<rparr>"
  using assms
  by (auto simp: InsertBeaconBlock_def Let_def pre_no_hash_error best_no_hash_error finish_no_hash_error
      dest: Update_error split: option.splits prod.splits if_splits sum.splits bool.splits)

text \<open>
  C7. A block that is refused after the update is kept in memory. When \<open>InsertBeaconBlock\<close> reports a wrong root, the best
  state has already moved to the refused block, its hash and height, and nothing has been stored in the
  database: the node goes on from a block it has rejected.
\<close>

theorem refused_block_stays_best:
  assumes "InsertBeaconBlock ne blk c nd = Some (nd', Some HashError)"
  shows "bsBeaconHeight (ndBest nd') = bsBeaconHeight (ndBest nd) + 1 \<and>
    bsBestBlockHash (ndBest nd') = BeaconBlock_Hash (neChain ne) blk \<and> ndDb nd' = ndDb nd"
proof (rule InsertBeaconBlock_HashError [OF assms])
  fix pool bs'
  assume "VerifyBestStateWithBeaconBlock (neChain ne) (ndBest nd) blk True = Some None"
    "Update (neChain ne) (neIter ne) (neStab ne) blk (ndBest nd) = Some (bs', None)"
    "nd' = nd\<lparr>ndShardToBeaconPool := pool, ndBest := bs'\<rparr>"
  then show ?thesis using best_state_link Update_height by fastforce
qed

section \<open>A completed insert\<close>

text \<open>Two databases that agree on the entries under which a beacon block is found.\<close>

definition keeps_block :: "'db leveldb \<Rightarrow> hash \<Rightarrow> 'db \<Rightarrow> 'db \<Rightarrow> bool" where
  "keeps_block l h d d' \<longleftrightarrow>
     ldb_Get l d' (blockKeyPrefix @ h) = ldb_Get l d (blockKeyPrefix @ h) \<and>
     ldb_Get l d' (beaconPrefix @ blockKeyPrefix @ h) = ldb_Get l d (beaconPrefix @ blockKeyPrefix @ h)"

definition block_found :: "'db leveldb \<Rightarrow> hash \<Rightarrow> bytes \<Rightarrow> 'db \<Rightarrow> bool" where
  "block_found l h v d \<longleftrightarrow>
     ldb_Get l d (blockKeyPrefix @ h) = Inr v \<and> (\<exists>k. ldb_Get l d (beaconPrefix @ blockKeyPrefix @ h) = Inr k)"

lemma keeps_block_trans: "keeps_block l h d d1 \<Longrightarrow> keeps_block l h d1 d2 \<Longrightarrow> keeps_block l h d d2"
  by (simp add: keeps_block_def)

lemma keeps_block_refl [simp]: "keeps_block l h d d"
  by (simp add: keeps_block_def)

lemma keeps_block_found: "keeps_block l h d d' \<Longrightarrow> block_found l h v d \<Longrightarrow> block_found l h v d'"
  by (simp add: keeps_block_def block_found_def)

lemma fold_keeps_block:
  "(\<And>x st. keeps_block l h (fst st) (fst (f x st))) \<Longrightarrow> keeps_block l h (fst st) (fst (fold f xs st))"
proof (induction xs arbitrary: st)
  case (Cons x xs)
  have "keeps_block l h (fst (f x st)) (fst (fold f xs (f x st)))" by (rule Cons.IH) (rule Cons.prems)
  then show ?case using keeps_block_trans [OF Cons.prems] by simp
qed simp

lemma block_keys_apart [simp]:
  "beaconPrefix @ blockKeyPrefix @ h \<noteq> blockKeyPrefix @ h'"
  "beaconPrefix @ blockKeyIdxPrefix @ x \<noteq> blockKeyPrefix @ h"
  "beaconPrefix @ blockKeyIdxPrefix @ x \<noteq> beaconPrefix @ blockKeyPrefix @ h"
  "shardToBeaconKey s y \<noteq> blockKeyPrefix @ h" "shardToBeaconKey s y \<noteq> beaconPrefix @ blockKeyPrefix @ h"
  "committeeEpochKey n \<noteq> blockKeyPrefix @ h" "committeeEpochKey n \<noteq> beaconPrefix @ blockKeyPrefix @ h"
  "nextCrossShardKey f t n \<noteq> blockKeyPrefix @ h" "nextCrossShardKey f t n \<noteq> beaconPrefix @ blockKeyPrefix @ h"
  by (simp_all add: beaconPrefix_def blockKeyPrefix_def blockKeyIdxPrefix_def shardToBeaconKey_def shardToBeaconKeyPrefix_def
      committeeEpochKey_def shardIDPrefix_def nextCrossShardKey_def nextCrossShardKeyPrefix_def str_bytes_def)

context leveldb_contract
begin

lemma put_keeps_block:
  assumes "key \<noteq> blockKeyPrefix @ h" "key \<noteq> beaconPrefix @ blockKeyPrefix @ h"
  shows "keeps_block l h d (fst (lvdb_Put l x key v d))"
  using assms put_frame by (auto simp: keeps_block_def lvdb_Put_def split: sum.splits)

lemma store_accepted_keeps_block: "keeps_block l h d (store_accepted l n sts d)"
proof (induction sts arbitrary: d)
  case (Cons p sts)
  obtain s st where p: "p = (s, st)" by (cases p)
  show ?case
    using Cons.IH [of "fst (StoreAcceptedShardToBeacon l s n (ssHash st) d)"]
      put_keeps_block [of "shardToBeaconKey s (ssHash st)" h d unexp "Uint64ToBytes n"]
    by (auto simp: p StoreAcceptedShardToBeacon_def intro: keeps_block_trans)
qed simp

lemma store_cross_to_keeps_block: "keeps_block l h (fst st) (fst (store_cross_to l f w t st))"
proof -
  have "keeps_block l h d (fst (StoreCrossShardNextHeight l f t a b d))" for a b d
    by (simp add: StoreCrossShardNextHeight_def db_Put_def put_keeps_block)
  then show ?thesis
    by (cases st) (auto simp: store_cross_to_def Let_def intro: keeps_block_trans)
qed

lemma store_cross_shard_keeps_block: "keeps_block l h (fst st) (fst (store_cross_shard l f bs st))"
  unfolding store_cross_shard_def
proof (rule fold_keeps_block)
  show "keeps_block l h (fst st) (fst (store_cross_block l f b st))" for b st
    unfolding store_cross_block_def by (rule fold_keeps_block) (rule store_cross_to_keeps_block)
qed

lemma block_found_fetch:
  assumes "block_found l h v d"
  shows "FetchBeaconBlock l h d = (d, Inr v)" "HasBeaconBlock l h d = (d, Inr True)"
  using assms has_found
  by (auto simp: block_found_def FetchBeaconBlock_def HasBeaconBlock_def dbm_defs split: sum.splits)

end

lemma stored_block_found:
  assumes c: "leveldb_contract l"
    and st: "store_block l marshal (beaconPrefix @ blockKeyPrefix @ h) h b d = (d', Inr u)"
  shows "\<exists>v. marshal b = Some v \<and> block_found l h v d'"
proof -
  note get = leveldb_contract.put_get [OF c] leveldb_contract.put_frame [OF c]
  obtain v d1 where v: "marshal b = Some v"
    "ldb_Put l d (beaconPrefix @ blockKeyPrefix @ h) (blockKeyPrefix @ h) = Inr d1"
    "ldb_Put l d1 (blockKeyPrefix @ h) v = Inr d'"
    using st by (auto simp: store_block_def dbm_defs Let_def split: sum.splits option.splits if_splits prod.splits)
  have "ldb_Get l d' (blockKeyPrefix @ h) = Inr v" by (rule get(1) [OF v(3)])
  moreover have "ldb_Get l d' (beaconPrefix @ blockKeyPrefix @ h) = Inr (blockKeyPrefix @ h)"
    using get(2) [OF v(3) block_keys_apart(1)] get(1) [OF v(2)] by simp
  ultimately show ?thesis using v(1) by (auto simp: block_found_def)
qed

lemma db_thenD: "db_then m k d = (d', Inr u) \<Longrightarrow> \<exists>d1 x. m d = (d1, Inr x) \<and> k d1 = (d', Inr u)"
  by (auto simp: db_then_def db_bind_def split: prod.splits sum.splits)

lemma StoreBeaconBlockIndex_keeps_block:
  assumes c: "leveldb_contract l" and st: "StoreBeaconBlockIndex l h n d = (d', Inr u)"
  shows "keeps_block l h d d'"
proof -
  obtain d1 x where p: "lvdb_Put l unexp (beaconPrefix @ blockKeyIdxPrefix @ h) (Uint64ToBytes n) d = (d1, Inr x)"
    "lvdb_Put l unexp (beaconPrefix @ blockKeyIdxPrefix @ Uint64ToBytes n) h d1 = (d', Inr u)"
    using db_thenD [OF st [unfolded StoreBeaconBlockIndex_def Let_def]] by blast
  have "keeps_block l h d (fst (lvdb_Put l unexp (beaconPrefix @ blockKeyIdxPrefix @ h) (Uint64ToBytes n) d))"
    by (rule leveldb_contract.put_keeps_block [OF c block_keys_apart(2,3)])
  then have "keeps_block l h d d1" by (simp only: p fst_conv)
  moreover have "keeps_block l h d1 (fst (lvdb_Put l unexp (beaconPrefix @ blockKeyIdxPrefix @ Uint64ToBytes n) h d1))"
    by (rule leveldb_contract.put_keeps_block [OF c block_keys_apart(2,3)])
  then have "keeps_block l h d1 d'" by (simp only: p fst_conv)
  ultimately show ?thesis by (rule keeps_block_trans)
qed

lemma StoreCommitteeByEpoch_keeps_block:
  assumes c: "leveldb_contract l"
  shows "keeps_block l h d (fst (StoreCommitteeByEpoch l m n v d))"
  using leveldb_contract.put_keeps_block [OF c, of "committeeEpochKey n" h d unexp]
  by (auto simp: StoreCommitteeByEpoch_def db_fail_def split: option.splits)

lemma store_insert_found:
  assumes c: "leveldb_contract (ceLdb (neChain ne))" and st: "store_insert ne blk bs d = (d', Inr u)"
  shows "\<exists>v. neMarshalBlock ne blk = Some v \<and> block_found (ceLdb (neChain ne)) (BeaconBlock_Hash (neChain ne) blk) v d'"
proof -
  let ?l = "ceLdb (neChain ne)" and ?h = "BeaconBlock_Hash (neChain ne) blk"
  let ?sts = "concat (map (\<lambda>(s, sts). map (\<lambda>st. (s, st)) sts) (entries (ShardStates (bBody blk))))"
  obtain d1 d2 d3 x2 x3 where d: "StoreBeaconBlock ?l (neMarshalBlock ne) (\<lambda>b. Some (BeaconBlock_Hash (neChain ne) b)) blk d1 = (d2, Inr x2)"
    "StoreBeaconBlockIndex ?l ?h (bhHeight (bHeader blk)) d2 = (d3, Inr x3)"
    "(case snd (HasCommitteeByEpoch ?l (bhEpoch (bHeader blk)) (store_accepted ?l (bhHeight (bHeader blk)) ?sts d3)) of
        Inr True \<Rightarrow> (store_accepted ?l (bhHeight (bHeader blk)) ?sts d3, Inr ())
      | _ \<Rightarrow> StoreCommitteeByEpoch ?l (neMarshalCommittee ne) (bhEpoch (bHeader blk)) (bsShardCommittee bs)
               (store_accepted ?l (bhHeight (bHeader blk)) ?sts d3)) = (d', Inr u)"
    using st unfolding store_insert_def Let_def by (blast dest!: db_thenD)
  have "keeps_block ?l ?h (store_accepted ?l (bhHeight (bHeader blk)) ?sts d3) d'"
    using d(3) StoreCommitteeByEpoch_keeps_block [OF c, of ?h "store_accepted ?l (bhHeight (bHeader blk)) ?sts d3"
        "neMarshalCommittee ne" "bhEpoch (bHeader blk)" "bsShardCommittee bs"]
    by (auto split: sum.splits bool.splits)
  then have keep: "keeps_block ?l ?h d2 d'"
    using keeps_block_trans [OF keeps_block_trans [OF StoreBeaconBlockIndex_keeps_block [OF c d(2)]
        leveldb_contract.store_accepted_keeps_block [OF c]]] by blast
  have sb: "store_block ?l (neMarshalBlock ne) (beaconPrefix @ blockKeyPrefix @ ?h) ?h blk d1 = (d2, Inr x2)"
    using d(1) by (simp add: StoreBeaconBlock_def)
  obtain v where "neMarshalBlock ne blk = Some v" "block_found ?l ?h v d2"
    using stored_block_found [OF c sb] by blast
  then show ?thesis using keeps_block_found [OF keep] by blast
qed

lemma record_shards_frame:
  assumes c: "leveldb_contract (ceLdb (neChain ne))"
  shows "record_shards ne blk ss nd = Some nd' \<Longrightarrow>
    keeps_block (ceLdb (neChain ne)) h (ndDb nd) (ndDb nd') \<and> ndBeaconPool nd' = ndBeaconPool nd \<and>
    ndShardToBeaconPool nd' = ndShardToBeaconPool nd \<and>
    (\<exists>x. ndBest nd' = (ndBest nd)\<lparr>bsLastCrossShardState := x\<rparr>)"
proof (induction ss arbitrary: nd)
  case Nil
  then show ?case by (auto intro: exI [of _ "bsLastCrossShardState (ndBest nd)"])
next
  case (Cons s ss)
  from Cons.prems obtain nd1 where r: "record_shard ne blk s nd = Some nd1" "record_shards ne blk ss nd1 = Some nd'"
    by (auto split: option.splits)
  have "keeps_block (ceLdb (neChain ne)) h (ndDb nd) (ndDb nd1) \<and> ndBeaconPool nd1 = ndBeaconPool nd \<and>
    ndShardToBeaconPool nd1 = ndShardToBeaconPool nd \<and> (\<exists>x. ndBest nd1 = (ndBest nd)\<lparr>bsLastCrossShardState := x\<rparr>)"
    using r(1) leveldb_contract.store_cross_shard_keeps_block [OF c, of h "(ndDb nd, bsLastCrossShardState (ndBest nd))" s]
    by (auto simp: record_shard_def Let_def split: prod.splits option.splits) (metis fst_conv)
  then show ?case using Cons.IH [OF r(2)] by (auto intro: keeps_block_trans)
qed

lemma InsertBeaconBlock_done:
  assumes "InsertBeaconBlock ne blk c nd = Some (nd', None)"
  obtains pool bs' d where "VerifyBestStateWithBeaconBlock (neChain ne) (ndBest nd) blk True = Some None"
    "Update (neChain ne) (neIter ne) (neStab ne) blk (ndBest nd) = Some (bs', None)"
    "VerifyPostProcessingBeaconBlock (neChain ne) (neValidSig ne) bs' blk (bsBeaconCommittee (ndBest nd)) = Some None"
    "store_insert ne blk bs' (ndDb nd) = (d, Inr ())"
    "finish_insert ne blk (nd\<lparr>ndShardToBeaconPool := pool, ndBest := bs', ndDb := d\<rparr>) = Some (nd', None)"
  using assms
  by (auto simp: InsertBeaconBlock_def Let_def split: option.splits prod.splits if_splits sum.splits bool.splits)

lemma finish_insert_frame:
  assumes c: "leveldb_contract (ceLdb (neChain ne))" and f: "finish_insert ne blk nd = Some (nd', None)"
    and k: "\<And>d. keeps_block (ceLdb (neChain ne)) h d (fst (neBeaconOnly ne blk d))"
  shows "keeps_block (ceLdb (neChain ne)) h (ndDb nd) (ndDb nd') \<and>
    ndBeaconPool nd' = SetBeaconState (ndBeaconPool nd) (bsBeaconHeight (ndBest nd)) \<and>
    ndShardToBeaconPool nd' = fst (S2B_SetShardState (ndShardToBeaconPool nd) (bsBestShardHeight (ndBest nd))) \<and>
    (\<exists>x y. ndBest nd' = (ndBest nd)\<lparr>bsLastCrossShardState := x, bsBestShardHeight := y\<rparr>)"
proof -
  obtain nd1 d where r: "record_shards ne blk (neOrder ne (ShardStates (bBody blk))) nd = Some nd1"
    "neBeaconOnly ne blk (ndDb nd1) = (d, True)"
    "nd' = nd1\<lparr>ndDb := d, ndBeaconPool := SetBeaconState (ndBeaconPool nd1) (bsBeaconHeight (ndBest nd1)),
       ndShardToBeaconPool := fst (S2B_SetShardState (ndShardToBeaconPool nd1) (bsBestShardHeight (ndBest nd1))),
       ndBest := (ndBest nd1)\<lparr>bsBestShardHeight := snd (S2B_SetShardState (ndShardToBeaconPool nd1) (bsBestShardHeight (ndBest nd1)))\<rparr>\<rparr>"
    using f by (auto simp: finish_insert_def Let_def split: option.splits prod.splits if_splits)
  obtain x where x: "keeps_block (ceLdb (neChain ne)) h (ndDb nd) (ndDb nd1)" "ndBeaconPool nd1 = ndBeaconPool nd"
    "ndShardToBeaconPool nd1 = ndShardToBeaconPool nd" "ndBest nd1 = (ndBest nd)\<lparr>bsLastCrossShardState := x\<rparr>"
    using record_shards_frame [OF c r(1)] by blast
  have "keeps_block (ceLdb (neChain ne)) h (ndDb nd) d"
    using keeps_block_trans [OF x(1) k [of "ndDb nd1"]] r(2) by simp
  then show ?thesis using r(3) x by auto
qed

text \<open>
  C3. A block that is inserted without error extends the chain: it names the old best block as its parent and has the
  next height, it becomes the best block, the committee roots in its header are the roots of the new
  committees, the beacon pool moves to its height, the block is read back from the database as it was
  marshalled, and inserting it again is refused as a duplicate. The database must keep to the contract of
  LevelDB, and \<open>processBeaconOnlyInstructions\<close> must leave the two entries of the block alone.
\<close>

theorem insert_extends_chain:
  assumes c: "leveldb_contract (ceLdb (neChain ne))" and ins: "InsertBeaconBlock ne blk cm nd = Some (nd', None)"
    and k: "\<And>d. keeps_block (ceLdb (neChain ne)) (BeaconBlock_Hash (neChain ne) blk) d (fst (neBeaconOnly ne blk d))"
  shows "bhHeight (bHeader blk) = bsBeaconHeight (ndBest nd) + 1 \<and> bhPrevBlockHash (bHeader blk) = bsBestBlockHash (ndBest nd) \<and>
    bsBeaconHeight (ndBest nd') = bhHeight (bHeader blk) \<and>
    bsBestBlockHash (ndBest nd') = BeaconBlock_Hash (neChain ne) blk \<and>
    bhValidatorsRoot (bHeader blk) = GenerateHashFromStringArray (neChain ne)
      (bsBeaconCommittee (ndBest nd') @ bsBeaconPendingValidator (ndBest nd')) \<and>
    bhShardValidatorsRoot (bHeader blk) = GenerateHashFromMapByteString (neChain ne)
      (entries (bsShardPendingValidator (ndBest nd'))) (entries (bsShardCommittee (ndBest nd'))) \<and>
    ndBeaconPool nd' = SetBeaconState (ndBeaconPool nd) (bhHeight (bHeader blk)) \<and>
    (\<exists>v. neMarshalBlock ne blk = Some v \<and>
       snd (FetchBeaconBlock (ceLdb (neChain ne)) (BeaconBlock_Hash (neChain ne) blk) (ndDb nd')) = Inr v) \<and>
    InsertBeaconBlock ne blk cm nd' = Some (nd', Some DuplicateBlockErr)"
proof (rule InsertBeaconBlock_done [OF ins])
  fix pool bs' d
  let ?l = "ceLdb (neChain ne)" and ?h = "BeaconBlock_Hash (neChain ne) blk"
  assume u: "VerifyBestStateWithBeaconBlock (neChain ne) (ndBest nd) blk True = Some None"
    "Update (neChain ne) (neIter ne) (neStab ne) blk (ndBest nd) = Some (bs', None)"
    "VerifyPostProcessingBeaconBlock (neChain ne) (neValidSig ne) bs' blk (bsBeaconCommittee (ndBest nd)) = Some None"
    "store_insert ne blk bs' (ndDb nd) = (d, Inr ())"
    "finish_insert ne blk (nd\<lparr>ndShardToBeaconPool := pool, ndBest := bs', ndDb := d\<rparr>) = Some (nd', None)"
  obtain x y where f: "keeps_block ?l ?h d (ndDb nd')" "ndBeaconPool nd' = SetBeaconState (ndBeaconPool nd) (bsBeaconHeight bs')"
    "ndBest nd' = bs'\<lparr>bsLastCrossShardState := x, bsBestShardHeight := y\<rparr>"
    using finish_insert_frame [OF c u(5) k] by auto
  obtain v where v: "neMarshalBlock ne blk = Some v" "block_found ?l ?h v (ndDb nd')"
    using store_insert_found [OF c u(4)] keeps_block_found [OF f(1)] by blast
  have roots: "bhValidatorsRoot (bHeader blk) = GenerateHashFromStringArray (neChain ne)
      (bsBeaconCommittee bs' @ bsBeaconPendingValidator bs')"
    "bhShardValidatorsRoot (bHeader blk) = GenerateHashFromMapByteString (neChain ne)
      (entries (bsShardPendingValidator bs')) (entries (bsShardCommittee bs'))"
    using u(3) by (auto simp: VerifyPostProcessingBeaconBlock_def VerifyHashFromStringArray_def VerifyHashFromMapByteString_def
        Let_def split: if_splits)
  have "InsertBeaconBlock ne blk cm nd' = Some (nd', Some DuplicateBlockErr)"
    using leveldb_contract.block_found_fetch(2) [OF c v(2)] by (simp add: InsertBeaconBlock_def Let_def)
  then show ?thesis
    using best_state_link [OF u(1)] Update_height [OF u(2)] f v roots leveldb_contract.block_found_fetch(1) [OF c v(2)]
    by simp
qed

section \<open>Two concrete inserts\<close>

definition sample_node_env :: "(bytes \<rightharpoonup> bytes, unit) NodeEnv" where
  "sample_node_env =
    \<lparr>neChain = sample_env, neValidSig = (\<lambda>_ _ _. True), neParseBlock = (\<lambda>_. sample_beacon 19 []),
     neMarshalBlock = (\<lambda>_. Some [1]), neMarshalState = (\<lambda>_. Some [2]), neMarshalCommittee = (\<lambda>_. Some [3]),
     neJson = (\<lambda>_. []), neIter = id, neOrder = (\<lambda>_. []), neBestCrossShard = (\<lambda>_. Map.empty), neStab = sample_stab,
     neBeaconOnly = (\<lambda>_ d. (d, True))\<rparr>"

definition sample_node :: "(bytes \<rightharpoonup> bytes, unit, Coin, TxTokenData) Node" where
  "sample_node =
    \<lparr>ndBest = sample_best, ndDb = [blockKeyPrefix @ replicate 32 7 \<mapsto> [1]],
     ndBeaconPool = \<lparr>bpPool = [], bpLatestValidHeight = 19\<rparr>,
     ndShardToBeaconPool = \<lparr>s2bPool = Map.empty, s2bLatestValidHeight = Map.empty\<rparr>, ndCrossShardPool = Map.empty\<rparr>"

lemma entries_empty [simp]: "entries Map.empty = []"
  by (simp add: entries_def List.map_filter_def)

lemma sample_pre:
  "VerifyPreProcessingBeaconBlock sample_env (\<lambda>_ _ _. True) (\<lambda>_. sample_beacon 19 []) (\<lambda>_. []) (ndDb sample_node) sample_best
     (ndShardToBeaconPool sample_node) (sample_beacon 20 []) False = Some (None, ndShardToBeaconPool sample_node)"
  by (simp add: VerifyPreProcessingBeaconBlock_def sample_beacon_def sample_best_def Let_def go_rem_def go_int_def VERSION_def
      FetchBeaconBlock_def HasBeaconBlock_def sample_env_def sample_node_def mem_leveldb_def dbm_defs EPOCH_def
      VerifyHashFromShardState_def GenerateHashFromShardState_def GenerateHashFromStringArray_def GenerateZeroValueHash_def
      VerifyHashFromStringArray_def HashSize_def)

lemma sample_not_stored:
  "snd (HasBeaconBlock mem_leveldb (BeaconBlock_Hash sample_env blk) (ndDb sample_node)) = Inr False"
proof -
  have "hd (BeaconBlock_Hash sample_env blk) = 0"
    by (simp add: BeaconBlock_Hash_def BeaconHeader_Hash_def DoubleHashH_def sample_env_def toy_sha_def hd_append hd_replicate)
  moreover have "hd (replicate 32 (7 :: u8)) \<noteq> 0" by (simp add: hd_replicate)
  ultimately have "BeaconBlock_Hash sample_env blk \<noteq> replicate 32 7" by metis
  then show ?thesis
    by (simp add: HasBeaconBlock_def sample_node_def mem_leveldb_def dbm_defs)
qed

lemma sample_best_ok:
  "VerifyBestStateWithBeaconBlock sample_env sample_best (sample_beacon 20 []) True = Some None"
  by (simp add: VerifyBestStateWithBeaconBlock_def ValidateAggSignature_def sample_best_def sample_beacon_def EPOCH_def
      GetStakingCandidate_def)

lemma sample_update20:
  "\<exists>bs'. Update sample_env id sample_stab (sample_beacon 20 []) sample_best = Some (bs', None) \<and>
     VerifyPostProcessingBeaconBlock sample_env (\<lambda>_ _ _. True) bs' (sample_beacon 20 []) [''p'', ''q''] = Some (Some HashError)"
  by (simp add: Update_def update_best_def sample_beacon_def Let_def assign_new_def update_epoch_def sample_best_def
      EPOCH_def RANDOM_TIME_def list_ex_iff VerifyPostProcessingBeaconBlock_def IndexOfStr_def VerifyHashFromStringArray_def
      GenerateHashFromStringArray_def sample_env_def toy_sha_def)

theorem refused_block_stays_best_witness:
  "\<exists>nd'. InsertBeaconBlock sample_node_env (sample_beacon 20 []) False sample_node = Some (nd', Some HashError) \<and>
     bsBeaconHeight (ndBest nd') = 20"
proof -
  obtain bs' where u: "Update sample_env id sample_stab (sample_beacon 20 []) sample_best = Some (bs', None)"
    "VerifyPostProcessingBeaconBlock sample_env (\<lambda>_ _ _. True) bs' (sample_beacon 20 []) [''p'', ''q''] = Some (Some HashError)"
    using sample_update20 by blast
  have e: "neChain sample_node_env = sample_env" "ceLdb sample_env = mem_leveldb" "ndBest sample_node = sample_best"
    "bsBeaconCommittee sample_best = [''p'', ''q'']" "bsBestBlockHash sample_best = replicate 32 7"
    "bhPrevBlockHash (bHeader (sample_beacon 20 [])) = replicate 32 7" "bsBeaconHeight sample_best = 19"
    by (simp_all add: sample_node_env_def sample_env_def sample_node_def sample_best_def sample_beacon_def)
  have n: "neValidSig sample_node_env = (\<lambda>_ _ _. True)" "neParseBlock sample_node_env = (\<lambda>_. sample_beacon 19 [])"
    "neJson sample_node_env = (\<lambda>_. [])" "neIter sample_node_env = id" "neStab sample_node_env = sample_stab"
    by (simp_all add: sample_node_env_def)
  have "\<exists>nd'. InsertBeaconBlock sample_node_env (sample_beacon 20 []) False sample_node = Some (nd', Some HashError)"
    by (simp add: InsertBeaconBlock_def Let_def e n sample_not_stored sample_pre sample_best_ok u)
  then show ?thesis using refused_block_stays_best e by fastforce
qed

definition sample_good :: BeaconBlock where
  "sample_good = (sample_beacon 20 [])
    \<lparr>bHeader := (bHeader (sample_beacon 20 []))
      \<lparr>bhValidatorsRoot := GenerateHashFromStringArray sample_env [''p'', ''q'', ''r''],
       bhBeaconCandidateRoot := GenerateHashFromStringArray sample_env [],
       bhShardCandidateRoot := GenerateHashFromStringArray sample_env [''w''],
       bhShardValidatorsRoot := GenerateHashFromMapByteString sample_env
         (entries [1 \<mapsto> [''c'', ''d'']]) (entries [1 \<mapsto> [''a'', ''b'']])\<rparr>\<rparr>"

lemma sample_good_pre:
  "VerifyPreProcessingBeaconBlock sample_env (\<lambda>_ _ _. True) (\<lambda>_. sample_beacon 19 []) (\<lambda>_. []) (ndDb sample_node) sample_best
     (ndShardToBeaconPool sample_node) sample_good False = Some (None, ndShardToBeaconPool sample_node)"
  using sample_pre
  by (simp add: VerifyPreProcessingBeaconBlock_def sample_good_def sample_beacon_def Let_def split: sum.splits if_splits)

lemma sample_good_update:
  "\<exists>bs'. Update sample_env id sample_stab sample_good sample_best = Some (bs', None) \<and>
     VerifyPostProcessingBeaconBlock sample_env (\<lambda>_ _ _. True) bs' sample_good [''p'', ''q''] = Some None"
  by (simp add: Update_def update_best_def sample_good_def sample_beacon_def Let_def assign_new_def update_epoch_def sample_best_def
      EPOCH_def RANDOM_TIME_def list_ex_iff VerifyPostProcessingBeaconBlock_def IndexOfStr_def VerifyHashFromStringArray_def
      VerifyHashFromMapByteString_def)

lemma sample_good_store: "\<exists>d. store_insert sample_node_env sample_good bs (ndDb sample_node) = (d, Inr ())"
proof -
  have ne: "neChain sample_node_env = sample_env" "ceLdb sample_env = mem_leveldb"
    "neMarshalState sample_node_env = (\<lambda>_. Some [2])" "neMarshalBlock sample_node_env = (\<lambda>_. Some [1])"
    "neMarshalCommittee sample_node_env = (\<lambda>_. Some [3])"
    by (simp_all add: sample_node_env_def sample_env_def)
  have k: "beaconPrefix @ blockKeyPrefix @ h \<noteq> beaconBestBlockkey" for h
    by (simp add: beaconPrefix_def blockKeyPrefix_def beaconBestBlockkey_def str_bytes_def)
  show ?thesis
    by (simp add: store_insert_def ne Let_def StoreBeaconBestState_def StoreBeaconBlock_def store_block_def
        StoreBeaconBlockIndex_def StoreCommitteeByEpoch_def dbm_defs mem_leveldb_def k sample_node_def
        split: sum.splits bool.splits)
qed

lemma sample_good_insert:
  "\<exists>nd'. InsertBeaconBlock sample_node_env sample_good False sample_node = Some (nd', None)"
proof -
  obtain bs' where u: "Update sample_env id sample_stab sample_good sample_best = Some (bs', None)"
    "VerifyPostProcessingBeaconBlock sample_env (\<lambda>_ _ _. True) bs' sample_good [''p'', ''q''] = Some None"
    using sample_good_update by blast
  obtain d where d: "store_insert sample_node_env sample_good bs' (ndDb sample_node) = (d, Inr ())"
    using sample_good_store by blast
  have e: "neChain sample_node_env = sample_env" "ceLdb sample_env = mem_leveldb" "ndBest sample_node = sample_best"
    "bsBeaconCommittee sample_best = [''p'', ''q'']" "bsBestBlockHash sample_best = replicate 32 7"
    "bhPrevBlockHash (bHeader sample_good) = replicate 32 7"
    by (simp_all add: sample_node_env_def sample_env_def sample_node_def sample_best_def sample_good_def sample_beacon_def)
  have n: "neValidSig sample_node_env = (\<lambda>_ _ _. True)" "neParseBlock sample_node_env = (\<lambda>_. sample_beacon 19 [])"
    "neJson sample_node_env = (\<lambda>_. [])" "neIter sample_node_env = id" "neStab sample_node_env = sample_stab"
    "neOrder sample_node_env = (\<lambda>_. [])" "neBeaconOnly sample_node_env = (\<lambda>_ d. (d, True))"
    by (simp_all add: sample_node_env_def)
  have best: "VerifyBestStateWithBeaconBlock sample_env sample_best sample_good True = Some None"
    by (simp add: VerifyBestStateWithBeaconBlock_def ValidateAggSignature_def sample_best_def sample_good_def sample_beacon_def
        EPOCH_def GetStakingCandidate_def)
  show ?thesis
    by (simp add: InsertBeaconBlock_def Let_def e n sample_not_stored sample_good_pre best u d finish_insert_def
        split: prod.splits)
qed

theorem insert_extends_chain_witness:
  "\<exists>nd'. InsertBeaconBlock sample_node_env sample_good False sample_node = Some (nd', None) \<and>
     bsBeaconHeight (ndBest nd') = bhHeight (bHeader sample_good) \<and>
     InsertBeaconBlock sample_node_env sample_good False nd' = Some (nd', Some DuplicateBlockErr)"
proof -
  obtain nd' where i: "InsertBeaconBlock sample_node_env sample_good False sample_node = Some (nd', None)"
    using sample_good_insert by blast
  have c: "leveldb_contract (ceLdb (neChain sample_node_env))"
    by (simp add: sample_node_env_def sample_env_def mem.leveldb_contract_axioms)
  show ?thesis
    using i insert_extends_chain [OF c i] by (simp add: sample_node_env_def)
qed

end
