(* ===== verification/Fee_Estimator.thy ===== *)
theory Fee_Estimator
  imports Transaction
begin

text \<open>
  The fee estimator (\<open>src/mempool/estimatefee.go\<close>). The code shares \<open>observedTransaction\<close>
  objects between the map of observed transactions, the bins and the history of dropped
  transactions and updates their \<open>mined\<close> field through any of them; the model keeps the
  objects in a heap, a list indexed by address, and addresses elsewhere. The two sources of
  chance, the order in which a Go map is visited and \<open>rand.Intn\<close>, are arguments of
  \<open>RegisterBlock\<close>. The binary form of \<open>Save\<close> and \<open>RestoreFeeEstimator\<close> is not modelled.
\<close>

section \<open>Data\<close>

record TxDesc =
  deTx :: Transaction
  deAdded :: int
  deHeight :: u64
  deFee :: u64
  deStartingPriority :: int

definition UnminedHeight :: u64 where "UnminedHeight = 0x7fffffff"
definition estimateFeeDepth :: nat where "estimateFeeDepth = 25"
definition estimateFeeBinSize :: nat where "estimateFeeBinSize = 100"
definition estimateFeeMaxReplacements :: nat where "estimateFeeMaxReplacements = 10"

text \<open>The quotient is taken in \<open>float64\<close> and truncated; below \<open>2^53\<close> that is integer division.\<close>

definition NewCoinPerKilobyte :: "u64 \<Rightarrow> u64 \<Rightarrow> u64" where
  "NewCoinPerKilobyte fee sz = fee div sz"

record observedTransaction =
  otHash :: hash
  otFeeRate :: u64
  otObserved :: u64
  otMined :: u64

record FeeEstimator =
  feMaxRollback :: u32
  feBinSize :: nat
  feMaxReplacements :: nat
  feMinRegisteredBlocks :: u32
  feLastKnownHeight :: u64
  feNumBlocksRegistered :: u32
  feHeap :: "observedTransaction list"
  feObserved :: "(hash \<times> nat) list"
  feBin :: "nat list list"
  feCached :: "u64 list option"
  feDropped :: "(hash \<times> nat list) list"

definition NewFeeEstimator :: "u32 \<Rightarrow> u32 \<Rightarrow> FeeEstimator" where
  "NewFeeEstimator maxRollback minRegisteredBlocks =
    \<lparr>feMaxRollback = maxRollback, feBinSize = estimateFeeBinSize, feMaxReplacements = estimateFeeMaxReplacements,
     feMinRegisteredBlocks = minRegisteredBlocks, feLastKnownHeight = UnminedHeight, feNumBlocksRegistered = 0,
     feHeap = [], feObserved = [], feBin = replicate estimateFeeDepth [], feCached = None, feDropped = []\<rparr>"

section \<open>Observing and registering\<close>

definition ObserveTransaction :: "hash \<Rightarrow> TxDesc \<Rightarrow> FeeEstimator \<Rightarrow> FeeEstimator" where
  "ObserveTransaction h t ef =
    (if feLastKnownHeight ef = UnminedHeight then ef
     else
       (case map_of (feObserved ef) h of
          Some _ \<Rightarrow> ef
        | None \<Rightarrow>
            (let sz = Transaction_GetTxActualSize (deTx t);
                 ot = \<lparr>otHash = h, otFeeRate = NewCoinPerKilobyte (deFee t) sz, otObserved = deHeight t,
                       otMined = UnminedHeight\<rparr>
             in ef\<lparr>feHeap := feHeap ef @ [ot], feObserved := feObserved ef @ [(h, length (feHeap ef))]\<rparr>)))"

definition set_mined :: "nat \<Rightarrow> u64 \<Rightarrow> observedTransaction list \<Rightarrow> observedTransaction list" where
  "set_mined a height heap = heap[a := (heap ! a)\<lparr>otMined := height\<rparr>]"

text \<open>
  The body of the loop over the transactions of the block, \<open>None\<close> for the error return: the
  counts of replacements, the dropped addresses and the estimator. The number \<open>r\<close> is what
  \<open>rand.Intn\<close> reduces.
\<close>

definition register_tx ::
  "u64 \<Rightarrow> hash \<Rightarrow> nat \<Rightarrow> nat list \<times> nat list \<times> FeeEstimator \<Rightarrow> (nat list \<times> nat list \<times> FeeEstimator) option" where
  "register_tx height h r st =
    (case st of (counts, dropped, ef) \<Rightarrow>
     (case map_of (feObserved ef) h of
        None \<Rightarrow> Some st
      | Some a \<Rightarrow>
          (let o1 = feHeap ef ! a; blocksToConfirm = height - otObserved o1 - 1; i = unat blocksToConfirm in
           if otMined o1 \<noteq> UnminedHeight then None
           else if i \<ge> estimateFeeDepth then Some st
           else if counts ! i = feMaxReplacements ef then Some st
           else
             (let heap' = set_mined a height (feHeap ef);
                  counts' = counts[i := counts ! i + 1];
                  bin = feBin ef ! i
              in if length bin = feBinSize ef then
                   (let l = feBinSize ef - counts' ! i; dr = r mod l in
                    Some (counts', dropped @ [bin ! dr],
                      ef\<lparr>feHeap := heap', feBin := (feBin ef)[i := bin[dr := bin ! (l - 1), l - 1 := a]]\<rparr>))
                 else
                   Some (counts', dropped, ef\<lparr>feHeap := heap', feBin := (feBin ef)[i := bin @ [a]]\<rparr>)))))"

text \<open>The loop; on the error return the changes made so far stay.\<close>

fun register_loop ::
  "u64 \<Rightarrow> (hash \<times> nat) list \<Rightarrow> nat list \<times> nat list \<times> FeeEstimator \<Rightarrow> FeeEstimator \<times> nat list option" where
  "register_loop height [] (counts, dropped, ef) = (ef, Some dropped)"
| "register_loop height ((h, r) # ts) st =
    (case register_tx height h r st of
       None \<Rightarrow> (snd (snd st), None)
     | Some st' \<Rightarrow> register_loop height ts st')"

definition forget_old :: "u64 \<Rightarrow> FeeEstimator \<Rightarrow> FeeEstimator" where
  "forget_old height ef =
     ef\<lparr>feObserved := filter (\<lambda>(h, a). \<not> (otMined (feHeap ef ! a) = UnminedHeight \<and>
          unat (height - otObserved (feHeap ef ! a)) \<ge> estimateFeeDepth)) (feObserved ef)\<rparr>"

definition push_dropped :: "hash \<Rightarrow> nat list \<Rightarrow> FeeEstimator \<Rightarrow> FeeEstimator" where
  "push_dropped bh dropped ef =
    (if feMaxRollback ef = 0 then ef
     else if of_nat (length (feDropped ef)) = feMaxRollback ef
       then ef\<lparr>feDropped := drop 1 (feDropped ef) @ [(bh, dropped)]\<rparr>
     else ef\<lparr>feDropped := feDropped ef @ [(bh, dropped)]\<rparr>)"

datatype fee_error = IntermediateBlockNotRecorded | AlreadyMined | NoSuchBlock |
  NotEnoughBlocks | ZeroBlocks | TooManyBlocks

text \<open>The block by its height, its hash and its coin transactions in visiting order.\<close>

definition RegisterBlock :: "u64 \<Rightarrow> hash \<Rightarrow> (hash \<times> nat) list \<Rightarrow> FeeEstimator \<Rightarrow> FeeEstimator \<times> fee_error option" where
  "RegisterBlock height bh txs ef0 =
    (let ef = ef0\<lparr>feCached := None\<rparr> in
     if height \<noteq> feLastKnownHeight ef + 1 \<and> feLastKnownHeight ef \<noteq> UnminedHeight
     then (ef, Some IntermediateBlockNotRecorded)
     else
       (let ef = ef\<lparr>feLastKnownHeight := height, feNumBlocksRegistered := feNumBlocksRegistered ef + 1\<rparr> in
        case register_loop height txs (replicate estimateFeeDepth 0, [], ef) of
          (ef, None) \<Rightarrow> (ef, Some AlreadyMined)
        | (ef, Some dropped) \<Rightarrow> (push_dropped bh dropped (forget_old height ef), None)))"

section \<open>Rolling back\<close>

text \<open>The inner loop of \<open>rollback\<close>: the next entry mined at the last height, or the panic.\<close>

function find_mined :: "observedTransaction list \<Rightarrow> u64 \<Rightarrow> nat list \<Rightarrow> nat \<Rightarrow> nat option" where
  "find_mined heap lh bin counter =
    (if counter \<ge> length bin then None
     else if otMined (heap ! (bin ! counter)) = lh then Some counter
     else find_mined heap lh bin (counter + 1))"
  by auto

termination
  by (relation "measure (\<lambda>(heap, lh, bin, counter). length bin - counter)") auto

declare find_mined.simps [simp del]

fun restore_loop ::
  "u64 \<Rightarrow> nat list \<Rightarrow> observedTransaction list \<Rightarrow> nat list list \<Rightarrow> nat list \<Rightarrow>
   (observedTransaction list \<times> nat list list \<times> nat list) option" where
  "restore_loop lh [] heap bins counters = Some (heap, bins, counters)"
| "restore_loop lh (a # as) heap bins counters =
    (let blocksToConfirm = otMined (heap ! a) - otObserved (heap ! a) - 1; i = unat blocksToConfirm in
     if i \<ge> estimateFeeDepth then None
     else
       (case find_mined heap lh (bins ! i) (counters ! i) of
          None \<Rightarrow> None
        | Some c \<Rightarrow>
            restore_loop lh as (set_mined (bins ! i ! c) UnminedHeight heap)
              (bins[i := (bins ! i)[c := a]]) (counters[i := c + 1])))"

fun strip_mined :: "u64 \<Rightarrow> observedTransaction list \<Rightarrow> nat list \<Rightarrow> observedTransaction list \<times> nat list" where
  "strip_mined lh heap [] = (heap, [])"
| "strip_mined lh heap (a # as) =
    (if otMined (heap ! a) = lh then strip_mined lh (set_mined a UnminedHeight heap) as
     else (case strip_mined lh heap as of (heap', as') \<Rightarrow> (heap', a # as')))"

fun strip_bins ::
  "u64 \<Rightarrow> observedTransaction list \<Rightarrow> (nat list \<times> nat) list \<Rightarrow> observedTransaction list \<times> nat list list" where
  "strip_bins lh heap [] = (heap, [])"
| "strip_bins lh heap ((bin, j) # bs) =
    (case strip_mined lh heap (drop j bin) of (heap', rest) \<Rightarrow>
       (case strip_bins lh heap' bs of (heap'', bins) \<Rightarrow> (heap'', (take j bin @ rest) # bins)))"

definition rollback :: "FeeEstimator \<Rightarrow> FeeEstimator option" where
  "rollback ef0 =
    (let ef = ef0\<lparr>feCached := None\<rparr> in
     if feDropped ef = [] then Some ef
     else
       (let dropped = snd (last (feDropped ef)); lastHeight = feLastKnownHeight ef in
        case restore_loop lastHeight dropped (feHeap ef) (feBin ef) (replicate estimateFeeDepth 0) of
          None \<Rightarrow> None
        | Some (heap, bins, counters) \<Rightarrow>
            (case strip_bins lastHeight heap (zip bins counters) of (heap', bins') \<Rightarrow>
               Some (ef\<lparr>feHeap := heap', feBin := bins', feDropped := butlast (feDropped ef),
                        feNumBlocksRegistered := feNumBlocksRegistered ef - 1,
                        feLastKnownHeight := feLastKnownHeight ef - 1\<rparr>))))"

fun rollback_n :: "nat \<Rightarrow> FeeEstimator \<Rightarrow> FeeEstimator option" where
  "rollback_n 0 ef = Some ef"
| "rollback_n (Suc n) ef = (case rollback ef of None \<Rightarrow> None | Some ef' \<Rightarrow> rollback_n n ef')"

text \<open>How many blocks from the end of the history the block is, 1 for the last; the position after the
  history when it is not there.\<close>

fun position_from_end :: "hash \<Rightarrow> (hash \<times> nat list) list \<Rightarrow> nat" where
  "position_from_end h [] = 1"
| "position_from_end h (b # bs) = (if fst b = h then 1 else position_from_end h bs + 1)"

definition Rollback :: "hash \<Rightarrow> FeeEstimator \<Rightarrow> (FeeEstimator \<times> fee_error option) option" where
  "Rollback h ef =
    (let n = position_from_end h (rev (feDropped ef)) in
     if n > length (feDropped ef) then Some (ef, Some NoSuchBlock)
     else map_option (\<lambda>ef'. (ef', None)) (rollback_n n ef))"

section \<open>Estimating\<close>

record estimateFeeSet =
  esFeeRate :: "u64 list"
  esBin :: "nat list"

definition newEstimateFeeSet :: "FeeEstimator \<Rightarrow> estimateFeeSet" where
  "newEstimateFeeSet ef =
    \<lparr>esFeeRate = rev (sort (concat (map (map (\<lambda>a. otFeeRate (feHeap ef ! a))) (feBin ef)))),
     esBin = map length (feBin ef)\<rparr>"

text \<open>
  \<open>estimateFee\<close> for a positive number of confirmations; for others the code converts an
  infinity to an integer, and no caller passes one.
\<close>

definition estimateFee :: "estimateFeeSet \<Rightarrow> nat \<Rightarrow> u64" where
  "estimateFee b confirmations =
    (if confirmations > estimateFeeDepth then 0
     else if length (esFeeRate b) = 0 then 0
     else
       (let mn = sum_list (take (confirmations - 1) (esBin b));
            mx = (if esBin b ! (confirmations - 1) = 0 then mn else mn + esBin b ! (confirmations - 1) - 1);
            feeIndex = (mn + mx) div 2;
            feeIndex = (if feeIndex \<ge> length (esFeeRate b) then length (esFeeRate b) - 1 else feeIndex)
        in esFeeRate b ! feeIndex))"

definition estimates :: "FeeEstimator \<Rightarrow> u64 list" where
  "estimates ef = (let s = newEstimateFeeSet ef in map (\<lambda>i. estimateFee s (i + 1)) [0..<estimateFeeDepth])"

definition EstimateFee :: "u64 \<Rightarrow> FeeEstimator \<Rightarrow> FeeEstimator \<times> (fee_error + u64)" where
  "EstimateFee numBlocks ef =
    (if feNumBlocksRegistered ef < feMinRegisteredBlocks ef then (ef, Inl NotEnoughBlocks)
     else if numBlocks = 0 then (ef, Inl ZeroBlocks)
     else if unat numBlocks > estimateFeeDepth then (ef, Inl TooManyBlocks)
     else
       (let c = (case feCached ef of None \<Rightarrow> estimates ef | Some c \<Rightarrow> c)
        in (ef\<lparr>feCached := Some c\<rparr>, Inr (c ! (unat numBlocks - 1)))))"


section \<open>Estimates fall with the number of blocks\<close>

definition fee_index :: "nat list \<Rightarrow> nat \<Rightarrow> nat" where
  "fee_index b c =
    (let mn = sum_list (take (c - 1) b);
         mx = (if b ! (c - 1) = 0 then mn else mn + b ! (c - 1) - 1)
     in (mn + mx) div 2)"

lemma sum_take_Suc: "i < length b \<Longrightarrow> sum_list (take (Suc i) b) = sum_list (take i b) + (b ! i :: nat)"
  by (simp add: take_Suc_conv_app_nth)

lemma sum_take_mono: "i \<le> j \<Longrightarrow> sum_list (take i b) \<le> (sum_list (take j b) :: nat)"
  by (metis le_add1 le_add_diff_inverse sum_list_append take_add)

lemma mid_mono:
  assumes "m + x \<le> (m' :: nat)"
  shows "(m + (if x = 0 then m else m + x - 1)) div 2 \<le> (m' + (if x' = 0 then m' else m' + x' - 1)) div 2"
proof -
  have "(if x = 0 then m else m + x - 1) \<le> m'" "m' \<le> (if x' = 0 then m' else m' + x' - 1)"
    using assms by (auto simp: le_diff_conv)
  then show ?thesis using assms by (intro div_le_mono add_mono) auto
qed

lemma fee_index_mono:
  assumes "0 < c" "c \<le> c'" "c' \<le> length b"
  shows "fee_index b c \<le> fee_index b c'"
proof (cases "c = c'")
  case False
  let ?s = "\<lambda>i. sum_list (take i b)"
  have "?s c = ?s (c - 1) + b ! (c - 1)" using sum_take_Suc [of "c - 1" b] assms by simp
  moreover have "?s c \<le> ?s (c' - 1)" using sum_take_mono [of c "c' - 1" b] False assms by simp
  ultimately show ?thesis unfolding fee_index_def Let_def by (intro mid_mono) simp
qed simp

lemma rev_sort_nth_mono:
  assumes "i \<le> j" "j < length xs"
  shows "rev (sort xs) ! j \<le> rev (sort (xs :: u64 list)) ! i"
proof -
  have "sort xs ! (length xs - 1 - j) \<le> sort xs ! (length xs - 1 - i)"
    using assms by (intro sorted_nth_mono) auto
  then show ?thesis using assms by (simp add: rev_nth)
qed

lemma estimateFee_clip:
  assumes "0 < c" "c \<le> estimateFeeDepth" "esFeeRate b \<noteq> []"
  shows "estimateFee b c = esFeeRate b ! min (fee_index (esBin b) c) (length (esFeeRate b) - 1)"
proof -
  have "estimateFee b c = esFeeRate b ! (let k = fee_index (esBin b) c; n = length (esFeeRate b) in if k \<ge> n then n - 1 else k)"
    using assms by (simp add: estimateFee_def fee_index_def Let_def)
  moreover have "(let k = fee_index (esBin b) c; n = length (esFeeRate b) in if k \<ge> n then n - 1 else k) =
    min (fee_index (esBin b) c) (length (esFeeRate b) - 1)"
    by (auto simp: Let_def min_def)
  ultimately show ?thesis by simp
qed

lemma estimateFee_mono:
  assumes "0 < c" "c \<le> c'" "c' \<le> estimateFeeDepth" "length (feBin ef) = estimateFeeDepth"
  shows "estimateFee (newEstimateFeeSet ef) c' \<le> estimateFee (newEstimateFeeSet ef) c"
proof (cases "esFeeRate (newEstimateFeeSet ef) = []")
  case True
  then show ?thesis using assms by (simp add: estimateFee_def)
next
  case False
  let ?s = "newEstimateFeeSet ef"
  define xs where "xs = concat (map (map (\<lambda>a. otFeeRate (feHeap ef ! a))) (feBin ef))"
  have r: "esFeeRate ?s = rev (sort xs)" by (simp add: newEstimateFeeSet_def xs_def)
  have ne: "length xs > 0" using False unfolding r by (metis length_greater_0_conv length_rev length_sort)
  have "fee_index (esBin ?s) c \<le> fee_index (esBin ?s) c'"
    using assms by (intro fee_index_mono) (auto simp: newEstimateFeeSet_def)
  then have "min (fee_index (esBin ?s) c) (length xs - 1) \<le> min (fee_index (esBin ?s) c') (length xs - 1)"
    by simp
  moreover have "min (fee_index (esBin ?s) c') (length xs - 1) < length xs" using ne by linarith
  ultimately have "rev (sort xs) ! min (fee_index (esBin ?s) c') (length xs - 1)
     \<le> rev (sort xs) ! min (fee_index (esBin ?s) c) (length xs - 1)"
    by (rule rev_sort_nth_mono)
  then show ?thesis using assms False by (simp add: estimateFee_clip r)
qed

lemma estimateFee_in:
  assumes "0 < c" "c \<le> estimateFeeDepth" "esFeeRate b \<noteq> []"
  shows "estimateFee b c \<in> set (esFeeRate b)"
proof -
  have "min (fee_index (esBin b) c) (length (esFeeRate b) - 1) < length (esFeeRate b)"
    using assms(3) by (simp add: min_less_iff_disj)
  then show ?thesis using assms by (simp add: estimateFee_clip)
qed

section \<open>Reachable states\<close>

inductive fee_reach :: "u32 \<Rightarrow> u32 \<Rightarrow> FeeEstimator \<Rightarrow> bool" for r m where
  fee_new: "fee_reach r m (NewFeeEstimator r m)"
| fee_observe: "fee_reach r m ef \<Longrightarrow> fee_reach r m (ObserveTransaction h t ef)"
| fee_register: "fee_reach r m ef \<Longrightarrow> RegisterBlock height bh txs ef = (ef', err) \<Longrightarrow> fee_reach r m ef'"
| fee_rollback: "fee_reach r m ef \<Longrightarrow> Rollback bh ef = Some (ef', err) \<Longrightarrow> fee_reach r m ef'"
| fee_estimate: "fee_reach r m ef \<Longrightarrow> EstimateFee n ef = (ef', res) \<Longrightarrow> fee_reach r m ef'"

text \<open>Bins within their size, every address in the heap, the observed map keyed by hash, the history within
  its limit, and the cache equal to what would be computed.\<close>

definition fe_struct :: "FeeEstimator \<Rightarrow> bool" where
  "fe_struct ef \<longleftrightarrow> length (feBin ef) = estimateFeeDepth \<and> feMaxReplacements ef < feBinSize ef \<and>
     (\<forall>b \<in> set (feBin ef). length b \<le> feBinSize ef \<and> set b \<subseteq> {..<length (feHeap ef)}) \<and>
     (\<forall>(h, a) \<in> set (feObserved ef). a < length (feHeap ef) \<and> otHash (feHeap ef ! a) = h) \<and>
     distinct (map fst (feObserved ef)) \<and>
     (\<forall>(h, as) \<in> set (feDropped ef). set as \<subseteq> {..<length (feHeap ef)}) \<and>
     length (feDropped ef) \<le> unat (feMaxRollback ef)"

definition fe_cache :: "FeeEstimator \<Rightarrow> bool" where
  "fe_cache ef \<longleftrightarrow> (\<forall>c. feCached ef = Some c \<longrightarrow> c = estimates ef)"

lemma set_mined_simps [simp]:
  "length (set_mined a h heap) = length heap"
  "a < length heap \<Longrightarrow> otHash (set_mined a h heap ! b) = otHash (heap ! b)"
  "a < length heap \<Longrightarrow> otFeeRate (set_mined a h heap ! b) = otFeeRate (heap ! b)"
  "a < length heap \<Longrightarrow> otObserved (set_mined a h heap ! b) = otObserved (heap ! b)"
  by (auto simp: set_mined_def nth_list_update)

lemma estimates_cong:
  assumes "feBin ef' = feBin ef"
    and "\<And>b a. b \<in> set (feBin ef) \<Longrightarrow> a \<in> set b \<Longrightarrow> otFeeRate (feHeap ef' ! a) = otFeeRate (feHeap ef ! a)"
  shows "estimates ef' = estimates ef"
proof -
  have "map (map (\<lambda>a. otFeeRate (feHeap ef' ! a))) (feBin ef) = map (map (\<lambda>a. otFeeRate (feHeap ef ! a))) (feBin ef)"
    using assms(2) by (intro map_cong refl) auto
  then have "newEstimateFeeSet ef' = newEstimateFeeSet ef"
    unfolding newEstimateFeeSet_def assms(1) by (rule arg_cong)
  then show ?thesis by (simp add: estimates_def)
qed

lemma ObserveTransaction_frame [simp]:
  "feBin (ObserveTransaction h t ef) = feBin ef" "feCached (ObserveTransaction h t ef) = feCached ef"
  by (simp_all add: ObserveTransaction_def Let_def split: option.splits)

lemma ObserveTransaction_inv:
  assumes "fe_struct ef" "fe_cache ef"
  shows "fe_struct (ObserveTransaction h t ef)" "fe_cache (ObserveTransaction h t ef)"
proof -
  show "fe_struct (ObserveTransaction h t ef)"
    using assms(1)
    by (fastforce simp: fe_struct_def ObserveTransaction_def Let_def nth_append map_of_eq_None_iff split: option.splits)
  have "estimates (ObserveTransaction h t ef) = estimates ef"
    using assms(1)
    by (intro estimates_cong) (auto simp: fe_struct_def ObserveTransaction_def Let_def nth_append split: option.splits)
  then show "fe_cache (ObserveTransaction h t ef)"
    using assms(2) by (simp add: fe_cache_def)
qed

text \<open>What registering and rolling back may change: bins and \<open>mined\<close> fields only.\<close>

lemma bins_update_inv:
  assumes "fe_struct ef" "a < length (feHeap ef)" "i < estimateFeeDepth"
    and "length b' \<le> feBinSize ef" "set b' \<subseteq> {..<length (feHeap ef)}"
  shows "fe_struct (ef\<lparr>feHeap := set_mined a height (feHeap ef), feBin := (feBin ef)[i := b']\<rparr>)"
proof -
  have "set ((feBin ef)[i := b']) \<subseteq> insert b' (set (feBin ef))" by (rule set_update_subset_insert)
  then show ?thesis using assms unfolding fe_struct_def by (simp split: prod.splits) blast
qed

definition reg_inv :: "FeeEstimator \<Rightarrow> nat list \<times> nat list \<times> FeeEstimator \<Rightarrow> bool" where
  "reg_inv ef0 st = (case st of (counts, dropped, ef) \<Rightarrow>
     fe_struct ef \<and> length (feHeap ef) = length (feHeap ef0) \<and> feDropped ef = feDropped ef0 \<and>
     feMaxRollback ef = feMaxRollback ef0 \<and> feCached ef = feCached ef0 \<and>
     set dropped \<subseteq> {..<length (feHeap ef)} \<and> length counts = estimateFeeDepth \<and>
     (\<forall>c \<in> set counts. c \<le> feMaxReplacements ef))"

lemma register_tx_inv:
  assumes inv: "reg_inv ef0 st" and step: "register_tx height h r st = Some st'"
  shows "reg_inv ef0 st'"
proof -
  obtain counts dropped ef where st: "st = (counts, dropped, ef)" by (cases st) auto
  show ?thesis
  proof (cases "map_of (feObserved ef) h")
    case None
    then show ?thesis using assms by (simp add: register_tx_def st)
  next
    case (Some a)
    let ?o = "feHeap ef ! a"
    let ?i = "unat (height - otObserved ?o - 1)"
    let ?bin = "feBin ef ! ?i"
    let ?counts = "counts[?i := counts ! ?i + 1]"
    have S: "fe_struct ef" and dr: "set dropped \<subseteq> {..<length (feHeap ef)}"
      and cl: "length counts = estimateFeeDepth" and cm: "\<forall>c \<in> set counts. c \<le> feMaxReplacements ef"
      using inv by (auto simp: reg_inv_def st)
    have a: "a < length (feHeap ef)" using map_of_SomeD [OF Some] S by (auto simp: fe_struct_def)
    show ?thesis
    proof (cases "?i \<ge> estimateFeeDepth \<or> counts ! ?i = feMaxReplacements ef")
      case True
      then show ?thesis using step inv Some by (auto simp: register_tx_def st Let_def split: if_splits)
    next
      case False
      then have i: "?i < estimateFeeDepth" and ne: "counts ! ?i \<noteq> feMaxReplacements ef" by auto
      have "counts ! ?i \<le> feMaxReplacements ef" using cm i cl nth_mem by metis
      with ne have c1: "counts ! ?i + 1 \<le> feMaxReplacements ef" by simp
      have cs: "length ?counts = estimateFeeDepth" "\<forall>c \<in> set ?counts. c \<le> feMaxReplacements ef"
        using cl cm c1 set_update_subset_insert [of counts ?i "counts ! ?i + 1"] by auto
      have bin: "?bin \<in> set (feBin ef)" using S i by (simp add: fe_struct_def)
      then have b: "length ?bin \<le> feBinSize ef" "set ?bin \<subseteq> {..<length (feHeap ef)}"
        and mr: "feMaxReplacements ef < feBinSize ef"
        using S by (auto simp: fe_struct_def)
      define l where "l = feBinSize ef - (counts ! ?i + 1)"
      have l: "0 < l" "l \<le> feBinSize ef" using c1 mr by (auto simp: l_def)
      show ?thesis
      proof (cases "length ?bin = feBinSize ef")
        case True
        have m: "r mod l < length ?bin" "l - 1 < length ?bin"
          using l True mod_less_divisor [OF l(1), of r] by linarith+
        let ?b = "?bin[r mod l := ?bin ! (l - 1), l - 1 := a]"
        have "?bin ! (l - 1) < length (feHeap ef)" "?bin ! (r mod l) < length (feHeap ef)"
          using b(2) nth_mem [OF m(1)] nth_mem [OF m(2)] by auto
        then have "set ?b \<subseteq> {..<length (feHeap ef)}"
          using b(2) a set_update_subset_insert [of ?bin "r mod l" "?bin ! (l - 1)"]
            set_update_subset_insert [of "?bin[r mod l := ?bin ! (l - 1)]" "l - 1" a] by auto
        from bins_update_inv [OF S a i _ this, of height] b(1) 
        show ?thesis using step inv Some i ne True cs cl dr \<open>?bin ! (r mod l) < length (feHeap ef)\<close>
          by (auto simp: register_tx_def st Let_def reg_inv_def l_def split: if_splits)
      next
        case False
        then have "length (?bin @ [a]) \<le> feBinSize ef" "set (?bin @ [a]) \<subseteq> {..<length (feHeap ef)}"
          using b a by auto
        from bins_update_inv [OF S a i this, of height]
        show ?thesis using step inv Some i ne False cs dr
          by (auto simp: register_tx_def st Let_def reg_inv_def split: if_splits)
      qed
    qed
  qed
qed

lemma register_loop_inv:
  assumes "reg_inv ef0 st" "register_loop height txs st = (ef', res)"
  shows "fe_struct ef' \<and> length (feHeap ef') = length (feHeap ef0) \<and> feDropped ef' = feDropped ef0 \<and>
    feMaxRollback ef' = feMaxRollback ef0 \<and> feCached ef' = feCached ef0 \<and>
    (\<forall>d. res = Some d \<longrightarrow> set d \<subseteq> {..<length (feHeap ef0)})"
  using assms
proof (induction height txs st rule: register_loop.induct)
  case (1 height counts dropped ef)
  then show ?case by (auto simp: reg_inv_def)
next
  case (2 height h r ts st)
  show ?case
  proof (cases "register_tx height h r st")
    case None
    then show ?thesis using "2.prems" by (auto simp: reg_inv_def split: prod.splits)
  next
    case (Some st')
    then show ?thesis using 2 register_tx_inv by simp
  qed
qed


lemma fe_struct_frame [simp]:
  "fe_struct (ef\<lparr>feCached := c\<rparr>) = fe_struct ef" "fe_struct (ef\<lparr>feLastKnownHeight := h\<rparr>) = fe_struct ef"
  "fe_struct (ef\<lparr>feNumBlocksRegistered := n\<rparr>) = fe_struct ef"
  by (simp_all add: fe_struct_def)

lemma forget_old_inv: "fe_struct ef \<Longrightarrow> fe_struct (forget_old height ef)"
  unfolding fe_struct_def forget_old_def by (auto simp: distinct_map_filter)

lemma push_dropped_inv:
  assumes "fe_struct ef" "set d \<subseteq> {..<length (feHeap ef)}"
  shows "fe_struct (push_dropped bh d ef)"
proof -
  let ?n = "length (feDropped ef)"
  have n: "?n \<le> unat (feMaxRollback ef)" using assms(1) by (simp add: fe_struct_def)
  have lt: "?n < unat (feMaxRollback ef)" if "of_nat ?n \<noteq> feMaxRollback ef"
  proof -
    have "?n \<noteq> unat (feMaxRollback ef)" using that by auto
    then show ?thesis using n by simp
  qed
  have "0 < unat (feMaxRollback ef)" if "feMaxRollback ef \<noteq> 0" using that by (simp add: unat_gt_0)
  moreover have "\<forall>(h, as) \<in> set (drop 1 (feDropped ef)). set as \<subseteq> {..<length (feHeap ef)}"
    using assms(1) unfolding fe_struct_def by (meson in_set_dropD)
  ultimately show ?thesis using assms n lt unfolding fe_struct_def push_dropped_def
    by (auto simp: le_diff_conv)
qed

lemma RegisterBlock_inv:
  assumes S: "fe_struct ef" and R: "RegisterBlock height bh txs ef = (ef', err)"
  shows "fe_struct ef' \<and> feCached ef' = None"
proof (cases "height \<noteq> feLastKnownHeight ef + 1 \<and> feLastKnownHeight ef \<noteq> UnminedHeight")
  case True
  then have "ef' = ef\<lparr>feCached := None\<rparr>" using R by (simp add: RegisterBlock_def Let_def)
  then show ?thesis using S by simp
next
  case False
  let ?ef = "ef\<lparr>feCached := None, feLastKnownHeight := height, feNumBlocksRegistered := feNumBlocksRegistered ef + 1\<rparr>"
  obtain ef1 res where l: "register_loop height txs (replicate estimateFeeDepth 0, [], ?ef) = (ef1, res)" by fastforce
  have "reg_inv ?ef (replicate estimateFeeDepth 0, [], ?ef)" using S by (simp add: reg_inv_def)
  from register_loop_inv [OF this l]
  have p: "fe_struct ef1" "feCached ef1 = None" "\<And>d. res = Some d \<Longrightarrow> set d \<subseteq> {..<length (feHeap ef1)}" by auto
  show ?thesis
  proof (cases res)
    case None
    then show ?thesis using R False l p by (auto simp: RegisterBlock_def Let_def)
  next
    case (Some d)
    have e: "ef' = push_dropped bh d (forget_old height ef1)"
      using R False l Some by (auto simp: RegisterBlock_def Let_def)
    have "fe_struct ef'"
      unfolding e using push_dropped_inv [OF forget_old_inv [OF p(1)]] p(3) [OF Some] by (simp add: forget_old_def)
    then show ?thesis using e p(2) by (simp add: push_dropped_def forget_old_def)
  qed
qed

section \<open>Rolling back keeps the structure\<close>

lemma find_mined_bound: "find_mined heap lh bin c = Some k \<Longrightarrow> k < length bin"
proof (induction heap lh bin c rule: find_mined.induct)
  case (1 heap lh bin c)
  then show ?case by (subst (asm) (2) find_mined.simps) (auto split: if_splits)
qed

definition bins_ok :: "nat \<Rightarrow> nat \<Rightarrow> nat list list \<Rightarrow> bool" where
  "bins_ok n k bins \<longleftrightarrow> length bins = estimateFeeDepth \<and> (\<forall>b \<in> set bins. length b \<le> k \<and> set b \<subseteq> {..<n})"

lemma bins_ok_update:
  assumes "bins_ok n k bins" "length b \<le> k" "set b \<subseteq> {..<n}"
  shows "bins_ok n k (bins[i := b])"
  using assms set_update_subset_insert [of bins i b] unfolding bins_ok_def by simp blast

lemma restore_loop_inv:
  assumes "restore_loop lh as heap bins counters = Some (heap', bins', counters')"
    and "bins_ok (length heap) k bins" "set as \<subseteq> {..<length heap}" "length counters = estimateFeeDepth"
  shows "length heap' = length heap \<and> map otHash heap' = map otHash heap \<and> bins_ok (length heap) k bins' \<and>
    length counters' = estimateFeeDepth"
  using assms
proof (induction lh as heap bins counters rule: restore_loop.induct)
  case (2 lh a as heap bins counters)
  let ?i = "unat (otMined (heap ! a) - otObserved (heap ! a) - 1)"
  from 2(2) have i: "?i < estimateFeeDepth" by (auto simp: Let_def split: if_splits)
  with 2(2) obtain c where c: "find_mined heap lh (bins ! ?i) (counters ! ?i) = Some c"
    and r: "restore_loop lh as (set_mined (bins ! ?i ! c) UnminedHeight heap)
              (bins[?i := (bins ! ?i)[c := a]]) (counters[?i := c + 1]) = Some (heap', bins', counters')"
    by (auto simp: Let_def split: option.splits)
  have b: "bins ! ?i \<in> set bins" using i 2(3) by (simp add: bins_ok_def)
  have x: "bins ! ?i ! c < length heap"
    using b find_mined_bound [OF c] 2(3) nth_mem [of c "bins ! ?i"] unfolding bins_ok_def by blast
  have "set ((bins ! ?i)[c := a]) \<subseteq> {..<length heap}"
    using b 2(3,4) set_update_subset_insert [of "bins ! ?i" c a] by (auto simp: bins_ok_def)
  then have "bins_ok (length heap) k (bins[?i := (bins ! ?i)[c := a]])"
    using b 2(3) by (intro bins_ok_update) (auto simp: bins_ok_def)
  moreover have "map otHash (set_mined (bins ! ?i ! c) UnminedHeight heap) = map otHash heap"
    using x by (auto simp: list_eq_iff_nth_eq)
  ultimately show ?case using "2.IH" [OF refl refl _ c] i r 2(4,5) by simp
qed simp

lemma strip_mined_inv:
  "strip_mined lh heap as = (heap', as') \<Longrightarrow> set as \<subseteq> {..<length heap} \<Longrightarrow>
   length heap' = length heap \<and> map otHash heap' = map otHash heap \<and> length as' \<le> length as \<and> set as' \<subseteq> set as"
proof (induction lh heap as arbitrary: heap' as' rule: strip_mined.induct)
  case (2 lh heap a as)
  have "map otHash (set_mined a UnminedHeight heap) = map otHash heap"
    using 2(4) by (auto simp: list_eq_iff_nth_eq)
  then show ?case using 2 by (fastforce split: if_splits prod.splits)
qed simp

lemma strip_bins_inv:
  "strip_bins lh heap bs = (heap', bins) \<Longrightarrow> \<forall>(b, j) \<in> set bs. length b \<le> k \<and> set b \<subseteq> {..<length heap} \<Longrightarrow>
   length heap' = length heap \<and> map otHash heap' = map otHash heap \<and> length bins = length bs \<and>
   (\<forall>b \<in> set bins. length b \<le> k \<and> set b \<subseteq> {..<length heap})"
proof (induction lh heap bs arbitrary: heap' bins rule: strip_bins.induct)
  case (2 lh heap bin j bs)
  obtain heap1 rest where s: "strip_mined lh heap (drop j bin) = (heap1, rest)" by fastforce
  obtain heap2 bins2 where t: "strip_bins lh heap1 bs = (heap2, bins2)" by fastforce
  have h: "heap' = heap2" "bins = (take j bin @ rest) # bins2" using 2(2) s t by auto
  have b: "length bin \<le> k" "set bin \<subseteq> {..<length heap}" using 2(3) by auto
  have m: "length heap1 = length heap" "map otHash heap1 = map otHash heap"
    "length rest \<le> length (drop j bin)" "set rest \<subseteq> set (drop j bin)"
    using strip_mined_inv [OF s] b(2) set_drop_subset [of j bin] by auto
  have n: "length (take j bin @ rest) \<le> k" using m(3) b(1) by auto
  have "set (take j bin @ rest) \<subseteq> set bin" using m(4) set_drop_subset [of j bin] set_take_subset [of j bin] by auto
  then show ?case using "2.IH" [OF s [symmetric] t] 2(3) m(1,2) n b(2) h by auto
qed simp

lemma rollback_inv:
  assumes S: "fe_struct ef" and R: "rollback ef = Some ef'"
  shows "fe_struct ef' \<and> feCached ef' = None"
proof (cases "feDropped ef = []")
  case True
  then show ?thesis using assms by (auto simp: rollback_def Let_def)
next
  case False
  let ?d = "snd (last (feDropped ef))"
  obtain heap bins counters heap' bins' where
    r: "restore_loop (feLastKnownHeight ef) ?d (feHeap ef) (feBin ef) (replicate estimateFeeDepth 0) = Some (heap, bins, counters)"
    and s: "strip_bins (feLastKnownHeight ef) heap (zip bins counters) = (heap', bins')"
    and e: "ef' = ef\<lparr>feCached := None, feHeap := heap', feBin := bins', feDropped := butlast (feDropped ef),
                  feNumBlocksRegistered := feNumBlocksRegistered ef - 1, feLastKnownHeight := feLastKnownHeight ef - 1\<rparr>"
    using R False by (auto simp: rollback_def Let_def split: option.splits prod.splits)
  have "last (feDropped ef) \<in> set (feDropped ef)" using False by simp
  moreover have "\<forall>x \<in> set (feDropped ef). set (snd x) \<subseteq> {..<length (feHeap ef)}"
    using S unfolding fe_struct_def by (auto simp: case_prod_beta)
  ultimately have "set ?d \<subseteq> {..<length (feHeap ef)}" by blast
  moreover have "bins_ok (length (feHeap ef)) (feBinSize ef) (feBin ef)" using S by (auto simp: fe_struct_def bins_ok_def)
  ultimately have p: "length heap = length (feHeap ef)" "map otHash heap = map otHash (feHeap ef)"
    "bins_ok (length heap) (feBinSize ef) bins" "length counters = estimateFeeDepth"
    using restore_loop_inv [OF r] by auto
  have "\<forall>(b, j) \<in> set (zip bins counters). length b \<le> feBinSize ef \<and> set b \<subseteq> {..<length heap}"
    using p(3) by (auto simp: bins_ok_def dest: set_zip_leftD)
  from strip_bins_inv [OF s this]
  have q: "length heap' = length (feHeap ef)" "map otHash heap' = map otHash (feHeap ef)" "length bins' = estimateFeeDepth"
    "\<forall>b \<in> set bins'. length b \<le> feBinSize ef \<and> set b \<subseteq> {..<length (feHeap ef)}"
    using p by (auto simp: bins_ok_def)
  have "otHash (heap' ! a) = otHash (feHeap ef ! a)" if "a < length (feHeap ef)" for a
    using q(1,2) that by (metis nth_map)
  moreover have "set (butlast (feDropped ef)) \<subseteq> set (feDropped ef)" by (auto dest: in_set_butlastD)
  ultimately show ?thesis using S q(1,3,4) unfolding e fe_struct_def by (auto simp: case_prod_beta)
qed

lemma rollback_n_inv:
  "fe_struct ef \<Longrightarrow> fe_cache ef \<Longrightarrow> rollback_n n ef = Some ef' \<Longrightarrow> fe_struct ef' \<and> fe_cache ef'"
proof (induction n arbitrary: ef)
  case (Suc n)
  then obtain ef1 where "rollback ef = Some ef1" "rollback_n n ef1 = Some ef'" by (auto split: option.splits)
  then show ?case using Suc rollback_inv by (metis fe_cache_def option.distinct(1))
qed simp

lemma fee_reach_inv: "fee_reach r m ef \<Longrightarrow> fe_struct ef \<and> fe_cache ef"
proof (induction rule: fee_reach.induct)
  case fee_new
  show ?case by (simp add: fe_struct_def fe_cache_def NewFeeEstimator_def estimateFeeBinSize_def estimateFeeMaxReplacements_def)
next
  case (fee_observe ef h t)
  then show ?case using ObserveTransaction_inv by blast
next
  case (fee_register ef height bh txs ef' err)
  then show ?case using RegisterBlock_inv by (auto simp: fe_cache_def)
next
  case (fee_rollback ef bh ef' err)
  then show ?case using rollback_n_inv [of ef] by (auto simp: Rollback_def Let_def split: if_splits)
next
  case (fee_estimate ef n ef' res)
  have "estimates (ef\<lparr>feCached := c\<rparr>) = estimates ef" for c by (rule estimates_cong) simp_all
  then show ?case using fee_estimate
    by (auto simp: EstimateFee_def Let_def fe_cache_def split: if_splits option.splits)
qed


section \<open>Properties\<close>

text \<open>
  C33. The fee estimator stays well formed whatever is observed, registered, rolled back and
  estimated: there are 25 bins, none above the bin size, the bins and the history refer to
  existing transactions only, a transaction is observed once and under its own hash, and the
  history of dropped transactions is never longer than \<open>maxRollback\<close>.
\<close>

theorem fee_estimator_wf:
  assumes "fee_reach r m ef"
  shows "length (feBin ef) = 25 \<and> (\<forall>b \<in> set (feBin ef). length b \<le> feBinSize ef) \<and>
    (\<forall>a \<in> (\<Union> (set ` set (feBin ef))) \<union> (\<Union> (set ` snd ` set (feDropped ef))). a < length (feHeap ef)) \<and>
    distinct (map fst (feObserved ef)) \<and>
    (\<forall>(h, a) \<in> set (feObserved ef). a < length (feHeap ef) \<and> otHash (feHeap ef ! a) = h) \<and>
    length (feDropped ef) \<le> unat (feMaxRollback ef)"
proof -
  have S: "fe_struct ef" using fee_reach_inv [OF assms] by simp
  have "\<forall>x \<in> set (feDropped ef). set (snd x) \<subseteq> {..<length (feHeap ef)}"
    using S unfolding fe_struct_def by (auto simp: case_prod_beta)
  then show ?thesis using S by (auto simp: fe_struct_def estimateFeeDepth_def case_prod_beta)
qed

definition sample_desc :: TxDesc where
  "sample_desc =
    \<lparr>deTx = NormalTx (sample_tx [] []), deAdded = 0, deHeight = 1, deFee = 9, deStartingPriority = 1\<rparr>"

text \<open>A block, a transaction seen in the pool, and the block that mines it.\<close>

definition sample_estimator :: FeeEstimator where
  "sample_estimator =
     fst (RegisterBlock 2 [2] [([7], 3)]
       (ObserveTransaction [7] sample_desc (fst (RegisterBlock 1 [1] [] (NewFeeEstimator 2 1)))))"

lemma sample_estimator_reach: "fee_reach 2 1 sample_estimator"
  unfolding sample_estimator_def
  by (rule fee_register [OF fee_observe [OF fee_register [OF fee_new]]]) (rule prod.collapse [symmetric])+

lemma sample_GetTxActualSize: "GetTxActualSize (sample_tx [] []) = 1"
  by (simp add: GetTxActualSize_def sample_tx_def TxNormalType_def Let_def)

lemmas fee_eval = RegisterBlock_def NewFeeEstimator_def ObserveTransaction_def register_tx_def push_dropped_def
  forget_old_def set_mined_def UnminedHeight_def estimateFeeDepth_def estimateFeeBinSize_def
  estimateFeeMaxReplacements_def NewCoinPerKilobyte_def sample_desc_def Let_def

lemma replicate_25: "replicate 25 x = x # replicate 24 x"
  by (simp add: numeral_eq_Suc)

lemma sample_estimator_eval:
  "feBin sample_estimator = [0] # replicate 24 []" "feNumBlocksRegistered sample_estimator = 2"
  "feMinRegisteredBlocks sample_estimator = 1" "feCached sample_estimator = None"
  "otFeeRate (feHeap sample_estimator ! 0) = 9"
  by (simp_all add: sample_estimator_def fee_eval sample_GetTxActualSize replicate_25)

theorem fee_estimator_wf_witness:
  "length (feBin sample_estimator) = 25 \<and> feBin sample_estimator ! 0 = [0] \<and> 0 < length (feHeap sample_estimator)"
  using fee_estimator_wf [OF sample_estimator_reach] by (simp add: sample_estimator_eval)

text \<open>
  Estimates are consistent: the answer of \<open>EstimateFee\<close> is 0 or the fee rate of a
  transaction in the bins, a target further away never costs more, and asking does not
  change a later answer although the first one fills the cache.
\<close>

theorem fee_estimates_fall:
  assumes R: "fee_reach r m ef"
    and 1: "EstimateFee n1 ef = (ef1, Inr f1)" and 2: "EstimateFee n2 ef1 = (ef2, Inr f2)" and le: "n1 \<le> n2"
  shows "f2 \<le> f1 \<and> (f1 = 0 \<or> (\<exists>b \<in> set (feBin ef). \<exists>a \<in> set b. f1 = otFeeRate (feHeap ef ! a))) \<and>
    snd (EstimateFee n2 ef) = Inr f2"
proof -
  have S: "fe_struct ef" and C: "fe_cache ef" using fee_reach_inv [OF R] by auto
  let ?s = "newEstimateFeeSet ef"
  have n1: "n1 \<noteq> 0" "unat n1 \<le> estimateFeeDepth" and f1: "f1 = estimates ef ! (unat n1 - 1)"
    and e1: "ef1 = ef\<lparr>feCached := Some (estimates ef)\<rparr>"
    using 1 C by (auto simp: EstimateFee_def Let_def fe_cache_def split: if_splits option.splits)
  have n2: "n2 \<noteq> 0" "unat n2 \<le> estimateFeeDepth" and f2: "f2 = estimates ef ! (unat n2 - 1)"
    using 2 by (auto simp: EstimateFee_def Let_def e1 split: if_splits)
  have pos: "0 < unat n1" "0 < unat n2" using n1(1) n2(1) by (simp_all add: unat_gt_0)
  have ith: "estimates ef ! (unat n - 1) = estimateFee ?s (unat n)" if "0 < unat n" "unat n \<le> estimateFeeDepth" for n :: u64
  proof -
    have "unat n - 1 < estimateFeeDepth" using that by linarith
    then show ?thesis using that(1) by (simp add: estimates_def Let_def)
  qed
  have "unat n1 \<le> unat n2" using le by (simp add: word_le_nat_alt)
  then have "f2 \<le> f1"
    using estimateFee_mono [OF pos(1) _ n2(2), of ef] S f1 f2 ith pos n1(2) n2(2) by (simp add: fe_struct_def)
  moreover have "f1 = 0 \<or> f1 \<in> set (esFeeRate ?s)"
    using estimateFee_in [OF pos(1) n1(2), of ?s] ith [OF pos(1) n1(2)] f1
    by (cases "esFeeRate ?s = []") (auto simp: estimateFee_def)
  moreover have "snd (EstimateFee n2 ef) = Inr f2"
    using 2 1 C by (auto simp: EstimateFee_def Let_def e1 fe_cache_def split: if_splits option.splits)
  ultimately show ?thesis by (auto simp: newEstimateFeeSet_def)
qed

theorem fee_estimates_fall_witness:
  "snd (EstimateFee 1 sample_estimator) = Inr 9 \<and> snd (EstimateFee 3 sample_estimator) = Inr 9 \<and> (9::u64) \<le> 9"
proof -
  have r: "rev (sort (concat (map (map (\<lambda>a. otFeeRate (feHeap sample_estimator ! a))) (feBin sample_estimator)))) = [9]"
    by (simp add: sample_estimator_eval numeral_eq_Suc)
  have e: "estimates sample_estimator ! i = 9" if "i < 25" for i
    using that unfolding estimates_def newEstimateFeeSet_def r by (simp add: Let_def estimateFee_def estimateFeeDepth_def)
  let ?ef1 = "sample_estimator\<lparr>feCached := Some (estimates sample_estimator)\<rparr>"
  have 1: "EstimateFee 1 sample_estimator = (?ef1, Inr 9)"
    using e [of 0] by (simp add: EstimateFee_def sample_estimator_eval estimateFeeDepth_def Let_def)
  have 2: "EstimateFee 3 ?ef1 = (?ef1, Inr 9)"
    using e [of 2] by (simp add: EstimateFee_def sample_estimator_eval estimateFeeDepth_def Let_def)
  show ?thesis using fee_estimates_fall [OF sample_estimator_reach 1 2] 1 by simp
qed

end
