(* ===== verification/Tx_Pool.thy ===== *)
theory Tx_Pool
  imports Fee_Estimator "HOL-Library.AList"
begin

text \<open>
  The transaction pool (\<open>src/mempool/mempool.go\<close>, \<open>policy.go\<close>, \<open>error.go\<close>). The Go maps are
  association lists with distinct keys, so that the loops over them can run; the order of
  such a list stands for the order in which a loop visits the map. The fee estimators of the
  configuration are part of the state, since accepting a transaction changes them. A
  panic is \<open>None\<close>. The mutexes make each exported method one step.
\<close>

section \<open>State\<close>

datatype mempool_error =
    RejectDuplicateTx | RejectInvalidTx | RejectSansityTx | RejectSalaryTx | RejectDuplicateStakeTx
  | RejectVersion | RejectInvalidFee
  | WrongTxType | MempoolConflict | ChainConflict | TokenInitInPool | NotExistTx | CoinInUse

text \<open>The code a \<open>MempoolTxError\<close> carries; the other errors are plain ones.\<close>

fun ErrCode :: "mempool_error \<Rightarrow> int option" where
  "ErrCode RejectDuplicateTx = Some (-1000)"
| "ErrCode RejectInvalidTx = Some (-1001)"
| "ErrCode RejectSansityTx = Some (-1002)"
| "ErrCode RejectSalaryTx = Some (-1003)"
| "ErrCode RejectInvalidFee = Some (-1004)"
| "ErrCode RejectVersion = Some (-1005)"
| "ErrCode RejectDuplicateStakeTx = Some (-1008)"
| "ErrCode _ = None"

record TxPool =
  tpLastUpdated :: int
  tpPool :: "(hash \<times> TxDesc) list"
  tpPoolSerialNumbers :: "(hash \<times> bytes list) list"
  tpTxCoinHashHPool :: "(hash \<times> hash list) list"
  tpCoinHashHPool :: "(hash \<times> bool) list"
  tpCandidateList :: "string list"
  tpTokenIDList :: "string list"
  tpFeeEstimator :: "(u8 \<times> FeeEstimator) list"

text \<open>The chain as the pool sees it: the best height of a shard it keeps, and the fee per kilobyte.\<close>

record 'db PoolEnv =
  peChain :: "'db ChainEnv"
  peBestHeight :: "u8 \<Rightarrow> u64 option"
  peFeePerKbTx :: u64

definition MaxVersion :: int where "MaxVersion = 1"

definition TxPool_Init :: "(u8 \<times> FeeEstimator) list \<Rightarrow> TxPool" where
  "TxPool_Init cfg =
    \<lparr>tpLastUpdated = 0, tpPool = [], tpPoolSerialNumbers = [], tpTxCoinHashHPool = [], tpCoinHashHPool = [],
     tpCandidateList = [], tpTokenIDList = [], tpFeeEstimator = cfg\<rparr>"

definition GetSerialNumbers :: "TxPool \<Rightarrow> (hash \<times> bytes list) list" where
  "GetSerialNumbers tp = tpPoolSerialNumbers tp"

definition GetTxsInMem :: "TxPool \<Rightarrow> (hash \<times> TxDesc) list" where
  "GetTxsInMem tp = tpPool tp"

definition isTxInPool :: "TxPool \<Rightarrow> hash \<Rightarrow> bool" where
  "isTxInPool tp h = (case map_of (tpPool tp) h of Some _ \<Rightarrow> True | None \<Rightarrow> False)"

section \<open>Coin hashes, candidates and token ids\<close>

definition PrePoolTxCoinHashH :: "hash \<Rightarrow> hash list \<Rightarrow> TxPool \<Rightarrow> TxPool" where
  "PrePoolTxCoinHashH txHashH coinHashHs tp =
     tp\<lparr>tpTxCoinHashHPool := AList.update txHashH coinHashHs (tpTxCoinHashHPool tp)\<rparr>"

definition AddTxCoinHashH :: "hash \<Rightarrow> TxPool \<Rightarrow> TxPool" where
  "AddTxCoinHashH txHashH tp =
    (case map_of (tpTxCoinHashHPool tp) txHashH of
       None \<Rightarrow> tp
     | Some inCoinHs \<Rightarrow>
         tp\<lparr>tpCoinHashHPool := fold (\<lambda>inCoinH m. AList.update inCoinH True m) inCoinHs (tpCoinHashHPool tp)\<rparr>)"

definition ValidateCoinHashH :: "hash \<Rightarrow> TxPool \<Rightarrow> mempool_error option" where
  "ValidateCoinHashH coinHashH tp =
    (case map_of (tpCoinHashHPool tp) coinHashH of Some _ \<Rightarrow> Some CoinInUse | None \<Rightarrow> None)"

definition RemoveTxCoinHashH :: "hash \<Rightarrow> TxPool \<Rightarrow> TxPool" where
  "RemoveTxCoinHashH txHashH tp =
    (case map_of (tpTxCoinHashHPool tp) txHashH of
       None \<Rightarrow> tp
     | Some coinHashHs \<Rightarrow>
         tp\<lparr>tpCoinHashHPool := fold AList.delete coinHashHs (tpCoinHashHPool tp),
            tpTxCoinHashHPool := AList.delete txHashH (tpTxCoinHashHPool tp)\<rparr>)"

definition AddCandiateToList :: "string \<Rightarrow> TxPool \<Rightarrow> TxPool" where
  "AddCandiateToList candidate tp = tp\<lparr>tpCandidateList := tpCandidateList tp @ [candidate]\<rparr>"

text \<open>The loop the two removals share: what is in the argument and not in the current list.\<close>

definition remove_list :: "string list \<Rightarrow> string list \<Rightarrow> string list" where
  "remove_list candidate current = filter (\<lambda>v. \<not> list_ex (\<lambda>c. v = c) current) candidate"

definition RemoveCandidateList :: "string list \<Rightarrow> TxPool \<Rightarrow> TxPool" where
  "RemoveCandidateList candidate tp = tp\<lparr>tpCandidateList := remove_list candidate (tpCandidateList tp)\<rparr>"

definition AddTokenIDToList :: "string \<Rightarrow> TxPool \<Rightarrow> TxPool" where
  "AddTokenIDToList tokenID tp = tp\<lparr>tpTokenIDList := tpTokenIDList tp @ [tokenID]\<rparr>"

definition RemoveTokenIDList :: "string list \<Rightarrow> TxPool \<Rightarrow> TxPool" where
  "RemoveTokenIDList tokenID tp = tp\<lparr>tpTokenIDList := remove_list tokenID (tpTokenIDList tp)\<rparr>"

section \<open>Adding\<close>

definition is_staking :: "Tx \<Rightarrow> bool" where
  "is_staking tx =
    (case txMetadata tx of
       None \<Rightarrow> False
     | Some m \<Rightarrow> meType m = ShardStakingMeta \<or> meType m = BeaconStakingMeta)"

definition staker_key :: "'db ChainEnv \<Rightarrow> Tx \<Rightarrow> string" where
  "staker_key e tx = Base58Check_Encode (ceSha256 e) (txSigPubKey tx) 0"

text \<open>The observation for the fee estimation, for coin transactions only.\<close>

definition observe_fee :: "hash \<Rightarrow> TxDesc \<Rightarrow> Tx \<Rightarrow> TxPool \<Rightarrow> TxPool" where
  "observe_fee h txD tx tp =
    (let shardID = GetShardIDFromLastByte (txPubKeyLastByteSender tx) in
     case map_of (tpFeeEstimator tp) shardID of
       None \<Rightarrow> tp
     | Some temp \<Rightarrow> tp\<lparr>tpFeeEstimator := AList.update shardID (ObserveTransaction h txD temp) (tpFeeEstimator tp)\<rparr>)"

text \<open>\<open>addTx\<close>; the type assertions panic when the type field does not fit the kind.\<close>

definition addTx :: "'db ChainEnv \<Rightarrow> hash \<Rightarrow> Transaction \<Rightarrow> u64 \<Rightarrow> u64 \<Rightarrow> TxPool \<Rightarrow> (TxPool \<times> TxDesc) option" where
  "addTx e h t height fee tp =
    (let tx = baseTx t;
         txD = \<lparr>deTx = t, deAdded = ceNow e, deHeight = height, deFee = fee, deStartingPriority = 1\<rparr>;
         tp = tp\<lparr>tpPool := AList.update h txD (tpPool tp),
                 tpPoolSerialNumbers := AList.update h (ListNullifiers tx) (tpPoolSerialNumbers tp),
                 tpLastUpdated := ceNow e\<rparr>
     in case (if txType tx = TxNormalType then
                (case t of NormalTx tx \<Rightarrow> Some (observe_fee h txD tx tp) | _ \<Rightarrow> None)
              else Some tp) of
          None \<Rightarrow> None
        | Some tp \<Rightarrow>
            (let tp = AddTxCoinHashH h tp;
                 tp = (if is_staking tx then AddCandiateToList (staker_key e tx) tp else tp)
             in if txType tx = TxCustomTokenType then
                  (case t of
                     TxCustomToken _ d \<Rightarrow>
                       Some (if tdType d = CustomTokenInit then AddTokenIDToList (Hash_String (tdPropertyID d)) tp else tp, txD)
                   | _ \<Rightarrow> None)
                else Some (tp, txD)))"

section \<open>Accepting\<close>

text \<open>
  The checks of \<open>maybeAcceptTransaction\<close> after the duplicate check, in the order of the code:
  \<open>None\<close> is a panic, \<open>Some None\<close> lets the transaction in.
\<close>

definition mempool_checks :: "'db PoolEnv \<Rightarrow> u8 \<Rightarrow> Transaction \<Rightarrow> TxPool \<Rightarrow> mempool_error option option" where
  "mempool_checks pe shardID t tp =
    (let e = peChain pe; tx = baseTx t in
     if \<not> CheckTxVersion tx MaxVersion then Some (Some RejectVersion)
     else
       (case CheckTransactionFee e tx (peFeePerKbTx pe) of
          None \<Rightarrow> None
        | Some False \<Rightarrow> Some (Some RejectVersion)
        | Some True \<Rightarrow>
            if \<not> ValidateType t then (case t of NormalTx _ \<Rightarrow> Some (Some WrongTxType) | _ \<Rightarrow> None)
            else
              (case ValidateTxWithCurrentMempool t (GetSerialNumbers tp) (map (deTx \<circ> snd) (GetTxsInMem tp)) of
                 None \<Rightarrow> None
               | Some False \<Rightarrow> Some (Some MempoolConflict)
               | Some True \<Rightarrow>
                   (case ValidateSanityData e t of
                      (False, noErr) \<Rightarrow> if noErr then None else Some (Some RejectSansityTx)
                    | (True, _) \<Rightarrow>
                        (case ValidateTxByItself e (IsPrivacy t) shardID t of
                           None \<Rightarrow> None
                         | Some False \<Rightarrow> Some (Some RejectInvalidTx)
                         | Some True \<Rightarrow>
                             (case ValidateTxWithBlockChain e shardID t of
                                None \<Rightarrow> None
                              | Some False \<Rightarrow> Some (Some ChainConflict)
                              | Some True \<Rightarrow>
                                  if (case t of
                                        TxCustomToken _ d \<Rightarrow> txType tx = TxCustomTokenType \<and> tdType d = CustomTokenInit \<and>
                                          IndexOfStr (Hash_String (tdPropertyID d)) (tpTokenIDList tp) > -1
                                      | _ \<Rightarrow> False) then Some (Some TokenInitInPool)
                                  else
                                    (case IsSalaryTx tx of
                                       None \<Rightarrow> None
                                     | Some True \<Rightarrow> Some (Some RejectSalaryTx)
                                     | Some False \<Rightarrow>
                                         if is_staking tx \<and>
                                            length (GetValidStaker (tpCandidateList tp) [staker_key e tx]) = 0
                                         then Some (Some RejectDuplicateStakeTx)
                                         else Some None)))))))"

definition maybeAcceptTransaction ::
  "'db PoolEnv \<Rightarrow> Transaction \<Rightarrow> TxPool \<Rightarrow> (TxPool \<times> (mempool_error + hash \<times> TxDesc)) option" where
  "maybeAcceptTransaction pe t tp =
    (case Transaction_Hash (peChain pe) t of
       None \<Rightarrow> None
     | Some txHash \<Rightarrow>
         if isTxInPool tp txHash then Some (tp, Inl RejectDuplicateTx)
         else
           (let shardID = GetShardIDFromLastByte (txPubKeyLastByteSender (baseTx t)) in
            case peBestHeight pe shardID of
              None \<Rightarrow> None
            | Some bestHeight \<Rightarrow>
                (case mempool_checks pe shardID t tp of
                   None \<Rightarrow> None
                 | Some (Some err) \<Rightarrow> Some (tp, Inl err)
                 | Some None \<Rightarrow>
                     (case addTx (peChain pe) txHash t bestHeight (txFee (baseTx t)) tp of
                        None \<Rightarrow> None
                      | Some (tp', txD) \<Rightarrow> Some (tp', Inr (txHash, txD))))))"

definition MaybeAcceptTransaction ::
  "'db PoolEnv \<Rightarrow> Transaction \<Rightarrow> TxPool \<Rightarrow> (TxPool \<times> (mempool_error + hash \<times> TxDesc)) option" where
  "MaybeAcceptTransaction pe t tp = maybeAcceptTransaction pe t tp"

text \<open>\<open>MaybeAcceptTransactionForBlockProducing\<close> takes a field of a nil descriptor when the transaction is refused.\<close>

definition MaybeAcceptTransactionForBlockProducing :: "'db PoolEnv \<Rightarrow> Transaction \<Rightarrow> TxPool \<Rightarrow> (TxPool \<times> TxDesc) option" where
  "MaybeAcceptTransactionForBlockProducing pe t tp =
    (case maybeAcceptTransaction pe t tp of
       None \<Rightarrow> None
     | Some (tp', Inl _) \<Rightarrow> None
     | Some (tp', Inr (_, txD)) \<Rightarrow> Some (tp', txD))"

section \<open>Removing and reading\<close>

definition removeTx :: "'db ChainEnv \<Rightarrow> hash \<Rightarrow> TxPool \<Rightarrow> TxPool \<times> mempool_error option" where
  "removeTx e h tp =
    (if isTxInPool tp h then (tp\<lparr>tpPool := AList.delete h (tpPool tp), tpLastUpdated := ceNow e\<rparr>, None)
     else (tp, Some NotExistTx))"

definition RemoveTx :: "'db ChainEnv \<Rightarrow> Transaction \<Rightarrow> TxPool \<Rightarrow> (TxPool \<times> mempool_error option) option" where
  "RemoveTx e t tp =
    (case Transaction_Hash e t of
       None \<Rightarrow> None
     | Some h \<Rightarrow> (case removeTx e h tp of (tp', err) \<Rightarrow> Some (RemoveTxCoinHashH h tp', err)))"

definition GetTx :: "hash \<Rightarrow> TxPool \<Rightarrow> mempool_error + Transaction" where
  "GetTx h tp = (case map_of (tpPool tp) h of Some d \<Rightarrow> Inr (deTx d) | None \<Rightarrow> Inl NotExistTx)"

definition MiningDescs :: "TxPool \<Rightarrow> TxDesc list" where
  "MiningDescs tp = map snd (tpPool tp)"

definition Count :: "TxPool \<Rightarrow> nat" where
  "Count tp = length (tpPool tp)"

definition TxPool_Size :: "TxPool \<Rightarrow> u64" where
  "TxPool_Size tp = fold (\<lambda>(h, d) sz. sz + Transaction_GetTxActualSize (deTx d)) (tpPool tp) 0"

definition MaxFee :: "TxPool \<Rightarrow> u64" where
  "MaxFee tp = fold (\<lambda>(h, d) fee. if deFee d > fee then deFee d else fee) (tpPool tp) 0"

definition LastUpdated :: "TxPool \<Rightarrow> int" where
  "LastUpdated tp = tpLastUpdated tp"

definition HaveTransaction :: "hash \<Rightarrow> TxPool \<Rightarrow> bool" where
  "HaveTransaction h tp = isTxInPool tp h"

definition ListTxs :: "'db ChainEnv \<Rightarrow> TxPool \<Rightarrow> string option list" where
  "ListTxs e tp = map (\<lambda>(h, d). map_option Hash_String (Transaction_Hash e (deTx d))) (tpPool tp)"

definition all_empty :: "TxPool \<Rightarrow> bool" where
  "all_empty tp = (length (tpPool tp) = 0 \<and> length (tpPoolSerialNumbers tp) = 0 \<and> length (tpTxCoinHashHPool tp) = 0 \<and>
     length (tpCoinHashHPool tp) = 0 \<and> length (tpCandidateList tp) = 0 \<and> length (tpTokenIDList tp) = 0)"

definition EmptyPool :: "TxPool \<Rightarrow> TxPool \<times> bool" where
  "EmptyPool tp =
    (if all_empty tp then (tp, True)
     else
       (let tp = tp\<lparr>tpPool := fold AList.delete (map fst (tpPool tp)) (tpPool tp)\<rparr>;
            tp = tp\<lparr>tpPoolSerialNumbers := fold AList.delete (map fst (tpPoolSerialNumbers tp)) (tpPoolSerialNumbers tp)\<rparr>;
            tp = tp\<lparr>tpTxCoinHashHPool := fold AList.delete (map fst (tpTxCoinHashHPool tp)) (tpTxCoinHashHPool tp)\<rparr>;
            tp = tp\<lparr>tpCoinHashHPool := fold AList.delete (map fst (tpCoinHashHPool tp)) (tpCoinHashHPool tp)\<rparr>;
            tp = tp\<lparr>tpCandidateList := [], tpTokenIDList := []\<rparr>
        in (tp, all_empty tp)))"

section \<open>policy.go\<close>

definition calcMinFeeTxCustomTokenAccepted :: "Transaction \<Rightarrow> u64" where
  "calcMinFeeTxCustomTokenAccepted t = 1"

definition calcMinFeeTxAccepted :: "Tx \<Rightarrow> u64" where
  "calcMinFeeTxAccepted tx = 1"

definition Policy_CheckTransactionFee :: "Tx \<Rightarrow> mempool_error option" where
  "Policy_CheckTransactionFee tx =
    (let minFee = calcMinFeeTxAccepted tx in if txFee tx < minFee then Some RejectInvalidFee else None)"

definition CheckCustomTokenTransactionFee :: "Transaction \<Rightarrow> mempool_error option" where
  "CheckCustomTokenTransactionFee t =
    (let minFee = calcMinFeeTxCustomTokenAccepted t in if txFee (baseTx t) < minFee then Some RejectInvalidFee else None)"


section \<open>Facts on the checks and the maps\<close>

lemma mempool_checks_pass:
  assumes "mempool_checks pe s t tp = Some None"
  shows "CheckTxVersion (baseTx t) MaxVersion"
    "CheckTransactionFee (peChain pe) (baseTx t) (peFeePerKbTx pe) = Some True"
    "ValidateType t"
    "ValidateTxWithCurrentMempool t (tpPoolSerialNumbers tp) (map (deTx \<circ> snd) (tpPool tp)) = Some True"
    "fst (ValidateSanityData (peChain pe) t)"
    "ValidateTxByItself (peChain pe) (IsPrivacy t) s t = Some True"
    "ValidateTxWithBlockChain (peChain pe) s t = Some True"
    "IsSalaryTx (baseTx t) = Some False"
    "\<And>tx d. t = TxCustomToken tx d \<Longrightarrow> tdType d = CustomTokenInit \<Longrightarrow>
       \<not> IndexOfStr (Hash_String (tdPropertyID d)) (tpTokenIDList tp) > -1"
    "is_staking (baseTx t) \<Longrightarrow> GetValidStaker (tpCandidateList tp) [staker_key (peChain pe) (baseTx t)] \<noteq> []"
  using assms unfolding mempool_checks_def GetSerialNumbers_def GetTxsInMem_def Let_def
  by (auto split: if_splits option.splits bool.splits prod.splits Transaction.Transaction.splits)

lemma addTx_pool:
  assumes "addTx e h t height fee tp = Some (tp', txD)"
  shows "tpPool tp' = AList.update h txD (tpPool tp)"
    "tpPoolSerialNumbers tp' = AList.update h (ListNullifiers (baseTx t)) (tpPoolSerialNumbers tp)"
    "deTx txD = t" "deHeight txD = height" "deFee txD = fee"
  using assms
  by (auto simp: addTx_def Let_def observe_fee_def AddTxCoinHashH_def AddCandiateToList_def AddTokenIDToList_def
      split: if_splits option.splits Transaction.Transaction.splits)

lemma maybeAccept_Inr:
  assumes "maybeAcceptTransaction pe t tp = Some (tp', Inr (h, txD))"
  obtains bestHeight where "Transaction_Hash (peChain pe) t = Some h" "\<not> isTxInPool tp h"
    "peBestHeight pe (GetShardIDFromLastByte (txPubKeyLastByteSender (baseTx t))) = Some bestHeight"
    "mempool_checks pe (GetShardIDFromLastByte (txPubKeyLastByteSender (baseTx t))) t tp = Some None"
    "addTx (peChain pe) h t bestHeight (txFee (baseTx t)) tp = Some (tp', txD)"
  using assms that unfolding maybeAcceptTransaction_def Let_def
  by (auto split: if_splits option.splits prod.splits)

lemma maybeAccept_Inl: "maybeAcceptTransaction pe t tp = Some (tp', Inl err) \<Longrightarrow> tp' = tp"
  unfolding maybeAcceptTransaction_def Let_def by (auto split: if_splits option.splits prod.splits)

text \<open>What \<open>addTx\<close> notes of a staking transaction and of a new token.\<close>

lemma addTx_lists:
  assumes "addTx e h t height fee tp = Some (tp', txD)"
  shows "tpCandidateList tp' = tpCandidateList tp @ (if is_staking (baseTx t) then [staker_key e (baseTx t)] else [])"
    "tpTokenIDList tp' = tpTokenIDList tp @ (case t of
       TxCustomToken tx d \<Rightarrow> if txType tx = TxCustomTokenType \<and> tdType d = CustomTokenInit then [Hash_String (tdPropertyID d)] else []
     | _ \<Rightarrow> [])"
  using assms
  by (auto simp: addTx_def Let_def observe_fee_def AddTxCoinHashH_def AddCandiateToList_def AddTokenIDToList_def
      split: if_splits option.splits Transaction.Transaction.splits)

lemma isTxInPool_iff: "isTxInPool tp h \<longleftrightarrow> h \<in> fst ` set (tpPool tp)"
  by (metis isTxInPool_def map_of_eq_None_iff option.case_eq_if set_map)


section \<open>No two transactions of the pool conflict\<close>

fun token_vins :: "Transaction \<Rightarrow> TxTokenVin list" where
  "token_vins (TxCustomToken tx d) = tdVins d"
| "token_vins _ = []"

text \<open>Two transactions conflict when they spend a common coin or a common token output.\<close>

definition conflicting :: "Transaction \<Rightarrow> Transaction \<Rightarrow> bool" where
  "conflicting t t' \<longleftrightarrow> set (ListNullifiers (baseTx t)) \<inter> set (ListNullifiers (baseTx t')) \<noteq> {} \<or>
     vins_conflict (token_vins t) (token_vins t')"

lemma vins_conflict_sym: "vins_conflict xs ys = vins_conflict ys xs"
  by (auto simp: vins_conflict_def list_ex_iff) metis+

lemma conflicting_sym: "conflicting t t' = conflicting t' t"
  by (auto simp: conflicting_def vins_conflict_sym)

lemma IndexOfStr_found: "IndexOfStr x xs > -1 \<longleftrightarrow> x \<in> set xs"
  using index_loop_spec [of x xs] by (cases "x \<in> set xs") (auto simp: IndexOfStr_def)

lemma SliceBytesExists_iff: "SliceBytesExists s x > -1 \<longleftrightarrow> x \<in> set s"
  using index_loop_spec [of x s] by (auto simp: SliceBytesExists_def split: if_splits)

lemma mempool_double_spend_iff:
  "validateDoubleSpendTxWithCurrentMempool tx sns \<longleftrightarrow>
     (\<exists>(h, l) \<in> set sns. set (ListNullifiers tx) \<inter> set l \<noteq> {})"
  by (auto simp: validateDoubleSpendTxWithCurrentMempool_def SliceBytesExists_iff ListNullifiers_def list_ex_iff
      split: option.splits)

lemma double_spend_loop_False:
  assumes "double_spend_loop d ts = Some False" "TxCustomToken tx' d' \<in> set ts"
  shows "\<not> vins_conflict (tdVins d') (tdVins d)"
  using assms
  by (induction ts) (auto split: option.splits bool.splits)

definition pool_ok :: "TxPool \<Rightarrow> bool" where
  "pool_ok tp \<longleftrightarrow> distinct (map fst (tpPool tp)) \<and> distinct (map fst (tpPoolSerialNumbers tp)) \<and>
     (\<forall>h d. map_of (tpPool tp) h = Some d \<longrightarrow>
        map_of (tpPoolSerialNumbers tp) h = Some (ListNullifiers (baseTx (deTx d))) \<and> ValidateType (deTx d) \<and>
        txType (baseTx (deTx d)) \<noteq> TxSalaryType) \<and>
     (\<forall>h h' d d'. map_of (tpPool tp) h = Some d \<longrightarrow> map_of (tpPool tp) h' = Some d' \<longrightarrow> h \<noteq> h' \<longrightarrow>
        \<not> conflicting (deTx d) (deTx d'))"

text \<open>What the check against the pool gives for a transaction that passes it.\<close>

lemma mempool_pass:
  assumes ok: "pool_ok tp" and vt: "ValidateType t"
    and v: "ValidateTxWithCurrentMempool t (tpPoolSerialNumbers tp) (map (deTx \<circ> snd) (tpPool tp)) = Some True"
  shows "\<And>h l. map_of (tpPoolSerialNumbers tp) h = Some l \<Longrightarrow> set (ListNullifiers (baseTx t)) \<inter> set l = {}"
    "\<And>h d. map_of (tpPool tp) h = Some d \<Longrightarrow> \<not> conflicting (deTx d) t"
    "txType (baseTx t) \<noteq> TxSalaryType"
proof -
  have ds: "\<not> validateDoubleSpendTxWithCurrentMempool (baseTx t) (tpPoolSerialNumbers tp)"
    using v by (cases t) (auto simp: Tx_ValidateTxWithCurrentMempool_def split: if_splits)
  then show sn: "set (ListNullifiers (baseTx t)) \<inter> set l = {}" if "map_of (tpPoolSerialNumbers tp) h = Some l" for h l
    using map_of_SomeD [OF that] by (auto simp: mempool_double_spend_iff)
  show "txType (baseTx t) \<noteq> TxSalaryType"
    using v vt by (cases t) (auto simp: Tx_ValidateTxWithCurrentMempool_def TxSalaryType_def TxCustomTokenPrivacyType_def
        split: if_splits)
  show "\<not> conflicting (deTx d) t" if d: "map_of (tpPool tp) h = Some d" for h d
  proof -
    have "map_of (tpPoolSerialNumbers tp) h = Some (ListNullifiers (baseTx (deTx d)))" and vt': "ValidateType (deTx d)"
      using ok d by (auto simp: pool_ok_def)
    then have "set (ListNullifiers (baseTx (deTx d))) \<inter> set (ListNullifiers (baseTx t)) = {}" using sn by blast
    moreover have "\<not> vins_conflict (token_vins (deTx d)) (token_vins t)"
    proof (cases "\<exists>tx x tx' x'. deTx d = TxCustomToken tx x \<and> t = TxCustomToken tx' x'")
      case True
      then obtain tx x tx' x' where e: "deTx d = TxCustomToken tx x" "t = TxCustomToken tx' x'" by blast
      have "TxCustomToken tx x \<in> set (filter (\<lambda>m. txType (baseTx m) = TxCustomTokenType) (map (deTx \<circ> snd) (tpPool tp)))"
        using map_of_SomeD [OF d] e(1) vt' by (force simp: image_iff)
      moreover have "double_spend_loop x' (filter (\<lambda>m. txType (baseTx m) = TxCustomTokenType) (map (deTx \<circ> snd) (tpPool tp))) = Some False"
        using v e(2) by (auto split: if_splits)
      ultimately show ?thesis using double_spend_loop_False e by auto
    next
      case False
      then show ?thesis by (cases "deTx d"; cases t) (auto simp: vins_conflict_def list_ex_iff)
    qed
    ultimately show ?thesis by (simp add: conflicting_def)
  qed
qed

lemma accept_pool_ok:
  assumes ok: "pool_ok tp" and acc: "maybeAcceptTransaction pe t tp = Some (tp', Inr (h, txD))"
  shows "pool_ok tp'"
proof -
  obtain bh where c: "mempool_checks pe (GetShardIDFromLastByte (txPubKeyLastByteSender (baseTx t))) t tp = Some None"
    and a: "addTx (peChain pe) h t bh (txFee (baseTx t)) tp = Some (tp', txD)"
    using maybeAccept_Inr [OF acc] .
  note p = mempool_checks_pass [OF c] and a = addTx_pool [OF a]
  note m = mempool_pass [OF ok p(3,4)]
  have pool: "map_of (tpPool tp') = (map_of (tpPool tp))(h \<mapsto> txD)"
    and sn: "map_of (tpPoolSerialNumbers tp') = (map_of (tpPoolSerialNumbers tp))(h \<mapsto> ListNullifiers (baseTx t))"
    by (simp_all add: a update_conv')
  have "distinct (map fst (tpPool tp'))" "distinct (map fst (tpPoolSerialNumbers tp'))"
    using ok by (simp_all add: a pool_ok_def distinct_update)
  moreover have "\<not> conflicting (deTx d) (deTx d')"
    if "map_of (tpPool tp') k = Some d" "map_of (tpPool tp') k' = Some d'" "k \<noteq> k'" for k k' d d'
    using that ok m(2) a(3) conflicting_sym unfolding pool pool_ok_def by (metis fun_upd_apply option.inject)
  ultimately show ?thesis using ok p(3) m(3) unfolding pool_ok_def pool sn by (auto simp: a(3))
qed

lemma smaller_pool_ok:
  assumes "pool_ok tp" "map_of (tpPool tp') \<subseteq>\<^sub>m map_of (tpPool tp)" "tpPoolSerialNumbers tp' = tpPoolSerialNumbers tp"
    "distinct (map fst (tpPool tp'))"
  shows "pool_ok tp'"
  using assms unfolding pool_ok_def map_le_def by (metis (no_types, lifting) domI)

text \<open>The states the pool can be in when the chain is in any of the states of \<open>E\<close> at each call.\<close>

inductive pool_reach :: "'db PoolEnv set \<Rightarrow> TxPool \<Rightarrow> bool" for E where
  pool_init: "pool_reach E (TxPool_Init cfg)"
| pool_maybe: "pool_reach E tp \<Longrightarrow> pe \<in> E \<Longrightarrow> MaybeAcceptTransaction pe t tp = Some (tp', r) \<Longrightarrow> pool_reach E tp'"
| pool_produce:
    "pool_reach E tp \<Longrightarrow> pe \<in> E \<Longrightarrow> MaybeAcceptTransactionForBlockProducing pe t tp = Some (tp', d) \<Longrightarrow> pool_reach E tp'"
| pool_remove: "pool_reach E tp \<Longrightarrow> pe \<in> E \<Longrightarrow> RemoveTx (peChain pe) t tp = Some (tp', err) \<Longrightarrow> pool_reach E tp'"
| pool_pre: "pool_reach E tp \<Longrightarrow> pool_reach E (PrePoolTxCoinHashH h cs tp)"
| pool_candidates: "pool_reach E tp \<Longrightarrow> pool_reach E (RemoveCandidateList cs tp)"
| pool_tokens: "pool_reach E tp \<Longrightarrow> pool_reach E (RemoveTokenIDList ts tp)"
| pool_empty: "pool_reach E tp \<Longrightarrow> EmptyPool tp = (tp', b) \<Longrightarrow> pool_reach E tp'"

lemma fold_delete_all: "fold AList.delete (map fst xs) xs = []"
proof -
  have f: "fold AList.delete ks ys = filter (\<lambda>(k, v). k \<notin> set ks) ys" for ks and ys :: "('a \<times> 'b) list"
    by (induction ks arbitrary: ys) (auto simp: AList.delete_eq intro!: filter_cong)
  show ?thesis unfolding f filter_empty_conv by force
qed

lemma EmptyPool_eq: "EmptyPool tp = (tp\<lparr>tpPool := [], tpPoolSerialNumbers := [], tpTxCoinHashHPool := [],
    tpCoinHashHPool := [], tpCandidateList := [], tpTokenIDList := []\<rparr>, True)"
  by (simp add: EmptyPool_def Let_def fold_delete_all all_empty_def)

lemma RemoveTx_frame:
  assumes "RemoveTx e t tp = Some (tp', err)"
  shows "\<exists>h. Transaction_Hash e t = Some h \<and> tpPool tp' = AList.delete h (tpPool tp) \<and>
     tpPoolSerialNumbers tp' = tpPoolSerialNumbers tp"
  using assms
  by (auto simp: RemoveTx_def removeTx_def RemoveTxCoinHashH_def isTxInPool_iff delete_id split: option.splits prod.splits if_splits)

lemma pool_reach_ok: "pool_reach E tp \<Longrightarrow> pool_ok tp"
proof (induction rule: pool_reach.induct)
  case (pool_init cfg)
  show ?case by (simp add: pool_ok_def TxPool_Init_def)
next
  case (pool_maybe tp pe t tp' r)
  then show ?case using accept_pool_ok [of tp pe t tp'] maybeAccept_Inl [of pe t tp tp']
    unfolding MaybeAcceptTransaction_def by (cases r) (simp, metis prod.collapse)
next
  case (pool_produce tp pe t tp' d)
  then show ?case using accept_pool_ok unfolding MaybeAcceptTransactionForBlockProducing_def
    by (auto split: option.splits sum.splits prod.splits)
next
  case (pool_remove tp pe t tp' err)
  obtain h where h: "tpPool tp' = AList.delete h (tpPool tp)" "tpPoolSerialNumbers tp' = tpPoolSerialNumbers tp"
    using RemoveTx_frame [OF pool_remove(3)] by blast
  show ?case
    using pool_remove(4) by (rule smaller_pool_ok)
      (use pool_remove(4) in \<open>auto simp: h delete_conv' map_le_def pool_ok_def distinct_delete\<close>)
next
  case (pool_empty tp tp' b)
  then show ?case by (auto simp: EmptyPool_eq pool_ok_def)
qed (simp_all add: pool_ok_def PrePoolTxCoinHashH_def RemoveCandidateList_def RemoveTokenIDList_def)


section \<open>A concrete chain and two spends\<close>

definition sample_chain :: "(bytes \<rightharpoonup> bytes) ChainEnv" where
  "sample_chain =
    \<lparr>ceSha256 = take 5, ceMetaCheckTransactionFee = MetadataBase_CheckTransactionFee,
     ceMetaValidateSanityData = Staking_ValidateSanityData [8], ceMetaValidateByItself = Staking_ValidateMetadataByItself,
     ceMetaValidateTxWithBlockChain = (\<lambda>m t s. Staking_ValidateTxWithBlockChain (take 5) ([], [], [], [], [], [], [], []) t),
     ceMetaVerifyMultiSigs = (\<lambda>m tx. True), ceVerifySig = (\<lambda>tx. True), ceMultiSigsRegistration = (\<lambda>pk. Some []),
     ceVerifyProof = (\<lambda>p tx s t. True), ceValidateTxSalary = (\<lambda>tx. False), ceKeySetVerify = (\<lambda>a d s. True),
     ceGetTransactionByHash = (\<lambda>h. None), ceGetCustomTokenTxs = (\<lambda>h. None), ceNow = 5000,
     ceLdb = mem_leveldb, ceDb = Map.empty\<rparr>"

definition sample_pool_env :: "(bytes \<rightharpoonup> bytes) PoolEnv" where
  "sample_pool_env = \<lparr>peChain = sample_chain, peBestHeight = (\<lambda>s. Some 3), peFeePerKbTx = 2\<rparr>"

text \<open>A private spend of the coin with serial number \<open>sn\<close>, locked until \<open>lt\<close>.\<close>

definition sample_spend :: "int \<Rightarrow> bytes \<Rightarrow> Transaction" where
  "sample_spend lt sn =
     NormalTx ((sample_tx [] [])\<lparr>txLockTime := lt,
       txProof := Some \<lparr>ppInputCoins = [sample_coin [1] sn 9], ppOutputCoins = [], ppHasOneOfMany = True, ppBytes = [5]\<rparr>\<rparr>)"

lemma sample_hash_1234: "Transaction_Hash sample_chain (sample_spend 1234 sn) = Some [49, 49, 50, 51, 52]"
  and sample_hash_1235: "Transaction_Hash sample_chain (sample_spend 1235 sn) = Some [49, 49, 50, 51, 53]"
  by (simp_all add: sample_spend_def Tx_Hash_def HashH_def sample_chain_def Tx_String_def str_bytes_def sample_tx_def
      Itoa_def nat_digits.simps char_of_def bit_0)

lemma HasSerialNumber_empty [simp]: "HasSerialNumber mem_leveldb t sn s Map.empty = (Map.empty, Inr False)"
  by (simp add: HasSerialNumber_def db_found_eq mem_leveldb_def)

lemma sample_size [simp]: "GetTxActualSize (baseTx (sample_spend lt sn)) = 1"
  by (simp add: GetTxActualSize_def sample_spend_def sample_tx_def TxNormalType_def Let_def)

lemma sample_checks:
  assumes "lt \<le> 5000" "\<forall>(h, l) \<in> set (tpPoolSerialNumbers tp). sn \<notin> set l"
  shows "mempool_checks sample_pool_env s (sample_spend lt sn) tp = Some None"
proof -
  have f: "CheckTransactionFee sample_chain (baseTx (sample_spend lt sn)) 2 = Some True"
    unfolding CheckTransactionFee_def Let_def sample_size
    by (simp add: sample_spend_def sample_tx_def IsSalaryTx_def TxNormalType_def TxSalaryType_def)
  have d: "\<not> validateDoubleSpendTxWithCurrentMempool (baseTx (sample_spend lt sn)) (tpPoolSerialNumbers tp)"
    using assms(2) by (auto simp: mempool_double_spend_iff sample_spend_def ListNullifiers_def sample_coin_def)
  then have m: "ValidateTxWithCurrentMempool (sample_spend lt sn) (tpPoolSerialNumbers tp) ts = Some True" for ts
    by (simp add: sample_spend_def Tx_ValidateTxWithCurrentMempool_def) (simp add: sample_tx_def TxNormalType_def TxSalaryType_def)
  have v: "ValidateSanityData sample_chain (sample_spend lt sn) = (True, True)"
    using assms(1) by (simp add: sample_spend_def Tx_ValidateSanityData_def meta_sanity_first_def validateNormalTxSanityData_def
        sample_tx_def TxVersion_def sample_chain_def)
  have p: "IsPrivacy (sample_spend lt sn)" by (simp add: sample_spend_def)
  have i: "ValidateTxByItself sample_chain True s (sample_spend lt sn) = Some True"
    by (simp add: sample_spend_def Tx_ValidateTxByItself_def Tx_ValidateTransaction_def sample_tx_def sample_chain_def
        TxNormalType_def TxSalaryType_def CheckDuplicateBigIntArray_def)
  have b: "ValidateTxWithBlockChain sample_chain s (sample_spend lt sn) = Some True"
    by (simp add: sample_spend_def Tx_ValidateTxWithBlockChain_def ValidateConstDoubleSpendWithBlockchain_def sample_tx_def
        sample_chain_def TxNormalType_def TxSalaryType_def list_all_iff)
  show ?thesis
    using f m v i b p
    by (simp add: mempool_checks_def sample_pool_env_def GetSerialNumbers_def Let_def)
      (simp add: sample_spend_def CheckTxVersion_def MaxVersion_def sample_tx_def IsSalaryTx_def is_staking_def TxNormalType_def TxSalaryType_def)
qed

lemma sample_accept:
  assumes "lt \<le> 5000" "\<forall>(h, l) \<in> set (tpPoolSerialNumbers tp). sn \<notin> set l"
    and h: "Transaction_Hash sample_chain (sample_spend lt sn) = Some h" "\<not> isTxInPool tp h"
  shows "\<exists>tp' d. maybeAcceptTransaction sample_pool_env (sample_spend lt sn) tp = Some (tp', Inr (h, d))"
proof -
  have "\<exists>tp' d. addTx sample_chain h (sample_spend lt sn) 3 f tp = Some (tp', d)" for f
    by (simp add: addTx_def Let_def sample_spend_def) (simp add: sample_tx_def TxNormalType_def TxCustomTokenType_def)
  then obtain tp' d where "addTx sample_chain h (sample_spend lt sn) 3 (txFee (baseTx (sample_spend lt sn))) tp = Some (tp', d)"
    by blast
  moreover have "mempool_checks sample_pool_env s (sample_spend lt sn) tp = Some None" for s
    using assms(1,2) by (rule sample_checks)
  ultimately show ?thesis
    using h by (simp add: maybeAcceptTransaction_def Let_def) (simp add: sample_pool_env_def)
qed

section \<open>Properties of the pool\<close>

lemma update_fresh: "k \<notin> fst ` set al \<Longrightarrow> AList.update k v al = al @ [(k, v)]"
  by (induction al) auto

text \<open>
  C9. No double spending of constant coins and of plain token outputs inside the pool. In
  every state the pool can reach, whatever transactions arrive, are removed or are mined, and
  whatever the chain says at each call: two different transactions of the pool have no
  serial number of their base transactions in common and no common input of a plain token,
  each is stored once, under a key that carries its serial numbers, and none is of the
  salary type. The coins inside the token part of a private token transaction are not among
  these serial numbers: the pool neither records nor compares them.
\<close>

theorem mempool_no_double_spend:
  assumes "pool_reach E tp"
  shows "distinct (map fst (tpPool tp)) \<and>
    (\<forall>h d. map_of (tpPool tp) h = Some d \<longrightarrow>
       map_of (GetSerialNumbers tp) h = Some (ListNullifiers (baseTx (deTx d))) \<and>
       ValidateType (deTx d) \<and> txType (baseTx (deTx d)) \<noteq> TxSalaryType) \<and>
    (\<forall>h h' d d'. map_of (tpPool tp) h = Some d \<longrightarrow> map_of (tpPool tp) h' = Some d' \<longrightarrow> h \<noteq> h' \<longrightarrow>
       set (ListNullifiers (baseTx (deTx d))) \<inter> set (ListNullifiers (baseTx (deTx d'))) = {} \<and>
       \<not> vins_conflict (token_vins (deTx d)) (token_vins (deTx d')))"
  using pool_reach_ok [OF assms] by (auto simp: pool_ok_def conflicting_def GetSerialNumbers_def)

text \<open>Two spends of different coins, one after the other.\<close>

definition sample_pool1 :: TxPool where
  "sample_pool1 = fst (the (MaybeAcceptTransaction sample_pool_env (sample_spend 1234 [7]) (TxPool_Init [])))"

definition sample_pool2 :: TxPool where
  "sample_pool2 = fst (the (MaybeAcceptTransaction sample_pool_env (sample_spend 1235 [6]) sample_pool1))"

lemma sample_pool1:
  obtains d where "maybeAcceptTransaction sample_pool_env (sample_spend 1234 [7]) (TxPool_Init []) =
    Some (sample_pool1, Inr ([49, 49, 50, 51, 52], d))"
    "tpPool sample_pool1 = [([49, 49, 50, 51, 52], d)]" "tpPoolSerialNumbers sample_pool1 = [([49, 49, 50, 51, 52], [[7]])]"
    "deTx d = sample_spend 1234 [7]"
proof -
  obtain tp' d where a: "maybeAcceptTransaction sample_pool_env (sample_spend 1234 [7]) (TxPool_Init []) =
    Some (tp', Inr ([49, 49, 50, 51, 52], d))"
    using sample_accept [of 1234 "TxPool_Init []" "[7]", OF _ _ sample_hash_1234]
    by (auto simp: TxPool_Init_def isTxInPool_def)
  then have e: "sample_pool1 = tp'" by (simp add: sample_pool1_def MaybeAcceptTransaction_def)
  obtain bh where "addTx (peChain sample_pool_env) [49, 49, 50, 51, 52] (sample_spend 1234 [7]) bh
      (txFee (baseTx (sample_spend 1234 [7]))) (TxPool_Init []) = Some (tp', d)"
    using maybeAccept_Inr [OF a] by blast
  from addTx_pool [OF this] show ?thesis
    using that [of d] a e by (simp add: TxPool_Init_def sample_spend_def ListNullifiers_def sample_coin_def)
qed

lemma sample_pool2:
  obtains d d' where "maybeAcceptTransaction sample_pool_env (sample_spend 1235 [6]) sample_pool1 =
    Some (sample_pool2, Inr ([49, 49, 50, 51, 53], d'))"
    "tpPool sample_pool2 = [([49, 49, 50, 51, 52], d), ([49, 49, 50, 51, 53], d')]"
    "deTx d = sample_spend 1234 [7]" "deTx d' = sample_spend 1235 [6]"
proof -
  obtain d where 1: "tpPool sample_pool1 = [([49, 49, 50, 51, 52], d)]"
    "tpPoolSerialNumbers sample_pool1 = [([49, 49, 50, 51, 52], [[7]])]" "deTx d = sample_spend 1234 [7]"
    using sample_pool1 by blast
  obtain tp' d' where a: "maybeAcceptTransaction sample_pool_env (sample_spend 1235 [6]) sample_pool1 =
    Some (tp', Inr ([49, 49, 50, 51, 53], d'))"
    using sample_accept [of 1235 sample_pool1 "[6]", OF _ _ sample_hash_1235] by (auto simp: 1 isTxInPool_def)
  then have e: "sample_pool2 = tp'" by (simp add: sample_pool2_def MaybeAcceptTransaction_def)
  obtain bh where "addTx (peChain sample_pool_env) [49, 49, 50, 51, 53] (sample_spend 1235 [6]) bh
      (txFee (baseTx (sample_spend 1235 [6]))) sample_pool1 = Some (tp', d')"
    using maybeAccept_Inr [OF a] by blast
  from addTx_pool [OF this] show ?thesis using that [of d' d] a e 1 by simp
qed

lemma sample_pool2_reach: "pool_reach {sample_pool_env} sample_pool2"
proof -
  have "pool_reach {sample_pool_env} sample_pool1"
    using pool_maybe [OF pool_init, of sample_pool_env] sample_pool1 by (metis MaybeAcceptTransaction_def insertI1)
  then show ?thesis using pool_maybe [of _ sample_pool1 sample_pool_env] sample_pool2
    by (metis MaybeAcceptTransaction_def insertI1)
qed

theorem mempool_no_double_spend_witness:
  "length (tpPool sample_pool2) = 2 \<and> distinct (map fst (tpPool sample_pool2))"
  using mempool_no_double_spend [OF sample_pool2_reach] sample_pool2 by (metis length_Cons list.size(3) numeral_2_eq_2)

text \<open>
  C11. What \<open>MaybeAcceptTransaction\<close> does when it returns. A refused transaction changes
  nothing. An accepted one was not in the pool, passes every check of the code: version,
  fee, type, the pool, sanity, the transaction by itself, the chain, no token of that id
  being issued in the pool, no salary transaction, no second staking of its key. So it spends
  no coin that a pool transaction spends. It is then found by \<open>GetTx\<close> while every other
  transaction stays as it was, and the new token or the staking key is on its list.
\<close>

theorem MaybeAccept_result:
  assumes ok: "pool_reach E tp" and r: "MaybeAcceptTransaction pe t tp = Some (tp', r)"
  shows "case r of
      Inl err \<Rightarrow> tp' = tp
    | Inr (h, d) \<Rightarrow> Transaction_Hash (peChain pe) t = Some h \<and> \<not> HaveTransaction h tp \<and>
        CheckTxVersion (baseTx t) MaxVersion \<and>
        CheckTransactionFee (peChain pe) (baseTx t) (peFeePerKbTx pe) = Some True \<and> ValidateType t \<and>
        ValidateTxWithCurrentMempool t (tpPoolSerialNumbers tp) (map (deTx \<circ> snd) (tpPool tp)) = Some True \<and>
        fst (ValidateSanityData (peChain pe) t) \<and> IsSalaryTx (baseTx t) = Some False \<and>
        ValidateTxByItself (peChain pe) (IsPrivacy t) (GetShardIDFromLastByte (txPubKeyLastByteSender (baseTx t))) t = Some True \<and>
        ValidateTxWithBlockChain (peChain pe) (GetShardIDFromLastByte (txPubKeyLastByteSender (baseTx t))) t = Some True \<and>
        (\<forall>tx x. t = TxCustomToken tx x \<and> tdType x = CustomTokenInit \<longrightarrow>
           Hash_String (tdPropertyID x) \<notin> set (tpTokenIDList tp) \<and> Hash_String (tdPropertyID x) \<in> set (tpTokenIDList tp')) \<and>
        (is_staking (baseTx t) \<longrightarrow> staker_key (peChain pe) (baseTx t) \<notin> set (tpCandidateList tp) \<and>
           staker_key (peChain pe) (baseTx t) \<in> set (tpCandidateList tp')) \<and>
        (\<forall>h' d'. map_of (tpPool tp) h' = Some d' \<longrightarrow> \<not> conflicting (deTx d') t) \<and>
        deTx d = t \<and> GetTx h tp' = Inr t \<and> Count tp' = Count tp + 1 \<and> (\<forall>h'. h' \<noteq> h \<longrightarrow> GetTx h' tp' = GetTx h' tp)"
proof (cases r)
  case (Inl err)
  then show ?thesis using r maybeAccept_Inl by (auto simp: MaybeAcceptTransaction_def)
next
  case (Inr hd)
  obtain h d where hd: "hd = (h, d)" by fastforce
  have acc: "maybeAcceptTransaction pe t tp = Some (tp', Inr (h, d))" using r Inr hd by (simp add: MaybeAcceptTransaction_def)
  obtain bh where h: "Transaction_Hash (peChain pe) t = Some h" "\<not> isTxInPool tp h"
    and c: "mempool_checks pe (GetShardIDFromLastByte (txPubKeyLastByteSender (baseTx t))) t tp = Some None"
    and a: "addTx (peChain pe) h t bh (txFee (baseTx t)) tp = Some (tp', d)"
    using maybeAccept_Inr [OF acc] .
  note p = mempool_checks_pass [OF c] and a = addTx_pool [OF a] addTx_lists [OF a]
  have tok: "Hash_String (tdPropertyID x) \<notin> set (tpTokenIDList tp) \<and> Hash_String (tdPropertyID x) \<in> set (tpTokenIDList tp')"
    if "t = TxCustomToken tx x" "tdType x = CustomTokenInit" for tx x
    using that p(3) p(9) [OF that] IndexOfStr_found [of "Hash_String (tdPropertyID x)" "tpTokenIDList tp"] by (simp add: a(7))
  have stk: "staker_key (peChain pe) (baseTx t) \<notin> set (tpCandidateList tp) \<and>
      staker_key (peChain pe) (baseTx t) \<in> set (tpCandidateList tp')" if "is_staking (baseTx t)"
    using that p(10) [OF that] by (simp add: a(6) GetValidStaker_def list_ex_iff split: if_splits)
  have "length (AList.update h d (tpPool tp)) = length (tpPool tp) + 1"
    using h(2) by (simp add: isTxInPool_iff update_fresh)
  then show ?thesis
    using h p(1-8) a(1-5) tok stk mempool_pass(2) [OF pool_reach_ok [OF ok] p(3,4)]
    by (auto simp: Inr hd HaveTransaction_def GetTx_def Count_def update_conv')
qed

theorem MaybeAccept_result_witness:
  "GetTx [49, 49, 50, 51, 53] sample_pool2 = Inr (sample_spend 1235 [6]) \<and> Count sample_pool2 = Count sample_pool1 + 1"
proof -
  obtain d' where a: "MaybeAcceptTransaction sample_pool_env (sample_spend 1235 [6]) sample_pool1 =
    Some (sample_pool2, Inr ([49, 49, 50, 51, 53], d'))"
    using sample_pool2 by (metis MaybeAcceptTransaction_def)
  have "pool_reach {sample_pool_env} sample_pool1"
    using pool_maybe [OF pool_init, of sample_pool_env] sample_pool1 by (metis MaybeAcceptTransaction_def insertI1)
  from MaybeAccept_result [OF this a] show ?thesis by simp
qed


section \<open>Spent coins\<close>

lemma StoreSerialNumbers_has:
  assumes c: "leveldb_contract l" and "sn \<noteq> []" and st: "StoreSerialNumbers l jm ju t sn s d = (d', Inr u)"
  shows "snd (HasSerialNumber l t sn s d') = Inr True"
proof -
  let ?key = "tableKey serialNumbersPrefix t s"
  obtain n d1 b where p: "ldb_Put l d (?key @ sn) n = Inr d1" "ldb_Put l d1 ?key b = Inr d'"
    using st unfolding StoreSerialNumbers_def Let_def db_bind_ok db_then_ok lvdb_Put_ok put_array_ok
    by (metis fetch_array_state)
  have "ldb_Get l d' (?key @ sn) = Inr n"
    using leveldb_contract.put_get [OF c p(1)] leveldb_contract.put_frame [OF c p(2), of "?key @ sn"] assms(2) by simp
  then show ?thesis by (simp add: HasSerialNumber_def db_found_eq)
qed

text \<open>
  The metadata of a coin transaction lets its chain check go on: it does not answer
  \<open>(false, nil)\<close>, on which \<open>ValidateTxWithBlockChain\<close> returns before the serial numbers are
  looked up. A token transaction is refused on that answer and a private token transaction
  does not ask.
\<close>

definition metadata_continues :: "'db ChainEnv \<Rightarrow> u8 \<Rightarrow> Transaction \<Rightarrow> bool" where
  "metadata_continues e s t =
    (case t of
       NormalTx tx \<Rightarrow> (case txMetadata tx of None \<Rightarrow> True | Some m \<Rightarrow> ceMetaValidateTxWithBlockChain e m t s \<noteq> (False, True))
     | _ \<Rightarrow> True)"

lemma spent_fails_chain_check:
  assumes "metadata_continues e s t" "sn \<in> set (ListNullifiers (baseTx t))" "txType (baseTx t) \<noteq> TxSalaryType"
    and "snd (HasSerialNumber (ceLdb e) ConstantID sn s (ceDb e)) = Inr True"
  shows "ValidateTxWithBlockChain e s t \<noteq> Some True"
proof -
  have "\<not> ValidateConstDoubleSpendWithBlockchain e s (baseTx t)"
    using assms(2,4) by (auto simp: ValidateConstDoubleSpendWithBlockchain_def list_all_iff intro!: bexI [of _ sn])
  then show ?thesis using assms(1,3)
    by (cases t) (auto simp: Tx_ValidateTxWithBlockChain_def metadata_continues_def split: option.splits prod.splits)
qed

text \<open>
  C10. A spent coin does not come back to the shard that recorded it. After \<open>StoreSerialNumbers\<close>
  has recorded a serial number for the shard of the sender, and as long as the database loses
  no key it then had, \<open>MaybeAcceptTransaction\<close> refuses every transaction that spends
  it, in any reachable pool, and leaves the pool as it was: all token and private token
  transactions, and the coin transactions that have no metadata or metadata whose check does
  not answer \<open>(false, nil)\<close>. With such an answer, which a dozen kinds of metadata give, the
  serial numbers of a coin transaction are not looked up.
\<close>

theorem spent_coin_refused:
  assumes c: "leveldb_contract (ceLdb (peChain pe))" and sn: "sn \<noteq> []" "sn \<in> set (ListNullifiers (baseTx t))"
    and st: "StoreSerialNumbers (ceLdb (peChain pe)) jm ju ConstantID sn
        (GetShardIDFromLastByte (txPubKeyLastByteSender (baseTx t))) d = (d1, Inr u)"
    and later: "\<And>k v. ldb_Get (ceLdb (peChain pe)) d1 k = Inr v \<Longrightarrow> \<exists>w. ldb_Get (ceLdb (peChain pe)) (ceDb (peChain pe)) k = Inr w"
    and meta: "metadata_continues (peChain pe) (GetShardIDFromLastByte (txPubKeyLastByteSender (baseTx t))) t"
    and ok: "pool_reach E tp" and r: "MaybeAcceptTransaction pe t tp = Some (tp', r)"
  shows "tp' = tp \<and> (\<exists>err. r = Inl err)"
proof (cases r)
  case (Inl err)
  then show ?thesis using r maybeAccept_Inl by (auto simp: MaybeAcceptTransaction_def)
next
  case (Inr hd)
  obtain h x where acc: "maybeAcceptTransaction pe t tp = Some (tp', Inr (h, x))"
    using r Inr by (cases hd) (simp add: MaybeAcceptTransaction_def)
  let ?s = "GetShardIDFromLastByte (txPubKeyLastByteSender (baseTx t))" and ?e = "peChain pe"
  have ck: "mempool_checks pe ?s t tp = Some None" using maybeAccept_Inr [OF acc] .
  note p = mempool_checks_pass [OF ck]
  have salary: "txType (baseTx t) \<noteq> TxSalaryType" using mempool_pass(3) [OF pool_reach_ok [OF ok] p(3,4)] .
  have "snd (HasSerialNumber (ceLdb ?e) ConstantID sn ?s (ceDb ?e)) = Inr True"
    using StoreSerialNumbers_has [OF c sn(1) st] later by (auto simp: HasSerialNumber_def db_found_eq)
  from spent_fails_chain_check [OF meta sn(2) salary this] p(7) show ?thesis by simp
qed

definition sample_spent_env :: "bytes \<Rightarrow> (bytes \<rightharpoonup> bytes) PoolEnv" where
  "sample_spent_env sn = sample_pool_env\<lparr>peChain := sample_chain
     \<lparr>ceDb := fst (StoreSerialNumbers mem_leveldb sample_jm sample_ju ConstantID sn (GetShardIDFromLastByte 2) Map.empty)\<rparr>\<rparr>"

theorem spent_coin_refused_witness:
  "\<not> (\<exists>tp' x. MaybeAcceptTransaction (sample_spent_env [5]) (sample_spend 1234 [5]) sample_pool2 = Some (tp', Inr x))"
proof
  assume "\<exists>tp' x. MaybeAcceptTransaction (sample_spent_env [5]) (sample_spend 1234 [5]) sample_pool2 = Some (tp', Inr x)"
  then obtain tp' x where r: "MaybeAcceptTransaction (sample_spent_env [5]) (sample_spend 1234 [5]) sample_pool2 = Some (tp', Inr x)"
    by auto
  have s: "\<exists>d'. StoreSerialNumbers mem_leveldb sample_jm sample_ju ConstantID [5] (GetShardIDFromLastByte 2) Map.empty = (d', Inr ())"
    by (simp add: StoreSerialNumbers_def fetch_array_def put_array_def sample_jm_def mem_leveldb_def dbm_defs Let_def)
  let ?e = "peChain (sample_spent_env [5])"
  have e: "ceLdb ?e = mem_leveldb" "leveldb_contract (ceLdb ?e)"
    by (simp_all add: sample_spent_env_def sample_pool_env_def sample_chain_def mem.leveldb_contract_axioms)
  have st: "StoreSerialNumbers (ceLdb ?e) sample_jm sample_ju ConstantID [5]
      (GetShardIDFromLastByte (txPubKeyLastByteSender (baseTx (sample_spend 1234 [5])))) Map.empty = (ceDb ?e, Inr ())"
    using s unfolding e(1) by (auto simp: sample_spent_env_def sample_spend_def sample_tx_def)
  show False
    using spent_coin_refused [OF e(2) _ _ st _ _ sample_pool2_reach r]
    by (simp add: sample_spend_def ListNullifiers_def sample_coin_def metadata_continues_def) (simp add: sample_tx_def)
qed

section \<open>Staking\<close>

text \<open>
  C40. Staking costs what it says. When the pool accepts a coin transaction or a plain token
  transaction that carries staking metadata and spends coins, the transaction is not private,
  every output coin goes back to the sender or to the burning account, and what it burns is
  the amount of its kind, 1 for a shard and 2 for the beacon. A private token transaction is
  left out: its sanity check does not ask the metadata.
\<close>

theorem staking_burns:
  assumes acc: "MaybeAcceptTransaction pe t tp = Some (tp', Inr x)"
    and m: "txMetadata (baseTx t) = Some m" "is_staking (baseTx t)"
    and sanity: "ceMetaValidateSanityData (peChain pe) m = Staking_ValidateSanityData burningPk m" "burningPk \<noteq> []"
    and p: "txProof (baseTx t) = Some p" "ppInputCoins p = c # cs"
    and kind: "\<not> (\<exists>tx d. t = TxCustomTokenPrivacy tx d)"
  shows "\<not> IsPrivacy t \<and> IsCoinsBurning burningPk (baseTx t) \<and>
    CalculateTxValue (baseTx t) = (if meType m = ShardStakingMeta then 1 else 2)"
proof -
  obtain h d where "maybeAcceptTransaction pe t tp = Some (tp', Inr (h, d))"
    using acc by (cases x) (simp add: MaybeAcceptTransaction_def)
  from maybeAccept_Inr [OF this]
  have "mempool_checks pe (GetShardIDFromLastByte (txPubKeyLastByteSender (baseTx t))) t tp = Some None" by blast
  note sane = mempool_checks_pass(5) [OF this]
  obtain r1 r2 r3 where r: "Staking_ValidateSanityData burningPk m t = (r1, r2, r3)" by (metis prod.exhaust)
  have "r1 = r2" using r by (auto simp: Staking_ValidateSanityData_def split: if_splits prod.splits)
  moreover have r2
    using sane kind m(1) r by (cases t) (auto simp: Tx_ValidateSanityData_def meta_sanity_first_def sanity(1) split: if_splits)
  ultimately have "Staking_ValidateSanityData burningPk m t = (True, True, r3)" using r by simp
  moreover have "Staking_ValidateMetadataByItself m"
    using m by (simp add: is_staking_def Staking_ValidateMetadataByItself_def)
  ultimately show ?thesis using staking_sanity_burns [OF p sanity(2)] by blast
qed

text \<open>A transaction that burns 2, on a chain where every commitment is known and nothing is spent.\<close>

definition sample_stake_env :: "(bytes \<rightharpoonup> bytes) PoolEnv" where
  "sample_stake_env = sample_pool_env\<lparr>peChain := sample_chain\<lparr>ceDb := (\<lambda>k. if take 1 k = str_bytes ''c'' then Some [] else None)\<rparr>\<rparr>"

definition sample_stake :: Transaction where
  "sample_stake = NormalTx ((sample_tx [sample_coin [1] [11] 9] [sample_coin [8] [] 2])
     \<lparr>txMetadata := Some \<lparr>meType = BeaconStakingMeta, meSize = 0, meHash = []\<rparr>\<rparr>)"

lemma sample_stake_sane: "Staking_ValidateSanityData [8] \<lparr>meType = BeaconStakingMeta, meSize = 0, meHash = []\<rparr> sample_stake = (True, True, True)"
  by (simp add: Staking_ValidateSanityData_def GetUniqueReceiver_def unique_receiver_def GetReceivers_def
      sample_stake_def sample_tx_defs BeaconStakingMeta_def ShardStakingMeta_def STAKE_BEACON_AMOUNT_def)

lemma sample_stake_db:
  "peChain sample_stake_env = sample_chain\<lparr>ceDb := ceDb (peChain sample_stake_env)\<rparr>"
  "peFeePerKbTx sample_stake_env = 2" "peBestHeight sample_stake_env = (\<lambda>s. Some 3)"
  "HasCommitment mem_leveldb ConstantID c s (ceDb (peChain sample_stake_env)) = (ceDb (peChain sample_stake_env), Inr True)"
  "HasSNDerivator mem_leveldb ConstantID n s (ceDb (peChain sample_stake_env)) = (ceDb (peChain sample_stake_env), Inr False)"
  "HasSerialNumber mem_leveldb ConstantID c s (ceDb (peChain sample_stake_env)) = (ceDb (peChain sample_stake_env), Inr False)"
  by (simp_all add: sample_stake_env_def sample_pool_env_def HasCommitment_def HasSNDerivator_def HasSerialNumber_def db_found_eq
      mem_leveldb_def tableKey_eq) (simp_all add: commitmentsPrefix_def snderivatorsPrefix_def serialNumbersPrefix_def str_bytes_def)

lemma sample_stake_checks: "mempool_checks sample_stake_env s sample_stake (TxPool_Init []) = Some None"
proof -
  let ?e = "peChain sample_stake_env"
  note simps = sample_stake_def sample_tx_def TxNormalType_def TxSalaryType_def
  have c: "ceLdb ?e = mem_leveldb" "ceMetaValidateSanityData ?e = Staking_ValidateSanityData [8]"
    "ceMetaCheckTransactionFee ?e = MetadataBase_CheckTransactionFee" "ceVerifySig ?e t" "ceMultiSigsRegistration ?e b = Some []"
    "ceVerifyProof ?e hp t s' h" "ceMetaValidateByItself ?e = Staking_ValidateMetadataByItself" "ceNow ?e = 5000"
    "ceMetaValidateTxWithBlockChain ?e m x s' = (True, True)" for t b hp s' h m x
    by (subst sample_stake_db(1), simp add: sample_chain_def Staking_ValidateTxWithBlockChain_def GetValidStaker_def)+
  have f: "CheckTransactionFee ?e (baseTx sample_stake) 2 = Some True"
    by (simp add: CheckTransactionFee_def Let_def simps c MetadataBase_CheckTransactionFee_def IsSalaryTx_def GetTxActualSize_def)
  have m: "ValidateTxWithCurrentMempool sample_stake [] ts = Some True" for ts
    by (simp add: simps Tx_ValidateTxWithCurrentMempool_def validateDoubleSpendTxWithCurrentMempool_def)
  have v: "ValidateSanityData ?e sample_stake = (True, True)"
    using sample_stake_sane
    by (simp add: sample_stake_def Tx_ValidateSanityData_def meta_sanity_first_def c) (simp add: validateNormalTxSanityData_def simps TxVersion_def c)
  have i: "ValidateTxByItself ?e (IsPrivacy sample_stake) s sample_stake = Some True"
    by (simp add: simps Tx_ValidateTxByItself_def Tx_ValidateTransaction_def c sample_stake_db(4-6) CheckDuplicateBigIntArray_def
        Staking_ValidateMetadataByItself_def)
  have b: "ValidateTxWithBlockChain ?e s sample_stake = Some True"
    by (simp add: simps Tx_ValidateTxWithBlockChain_def ValidateConstDoubleSpendWithBlockchain_def c sample_stake_db(4-6) list_all_iff)
  show ?thesis
    using f m v i b
    by (simp add: mempool_checks_def sample_stake_db(2) GetSerialNumbers_def Let_def TxPool_Init_def)
      (simp add: simps CheckTxVersion_def MaxVersion_def IsSalaryTx_def GetValidStaker_def)
qed

theorem staking_burns_witness: "CalculateTxValue (baseTx sample_stake) = 2"
proof -
  let ?m = "\<lparr>meType = BeaconStakingMeta, meSize = 0, meHash = []\<rparr>" and ?e = "peChain sample_stake_env"
  obtain h where h: "Transaction_Hash ?e sample_stake = Some h" by (simp add: sample_stake_def)
  have "\<exists>tp' d. addTx ?e h sample_stake 3 f (TxPool_Init []) = Some (tp', d)" for f
    by (simp add: addTx_def Let_def sample_stake_def) (simp add: sample_tx_def TxNormalType_def TxCustomTokenType_def)
  then obtain tp' d where "addTx ?e h sample_stake 3 (txFee (baseTx sample_stake)) (TxPool_Init []) = Some (tp', d)"
    by blast
  then have acc: "MaybeAcceptTransaction sample_stake_env sample_stake (TxPool_Init []) = Some (tp', Inr (h, d))"
    using h sample_stake_checks isTxInPool_iff [of "TxPool_Init []" h]
    by (simp add: MaybeAcceptTransaction_def maybeAcceptTransaction_def Let_def sample_stake_db(3)) (simp add: TxPool_Init_def)
  obtain p where p: "txProof (baseTx sample_stake) = Some p" "ppInputCoins p = [sample_coin [1] [11] 9]"
    by (simp add: sample_stake_def sample_tx_def)
  have m: "txMetadata (baseTx sample_stake) = Some ?m" by (simp add: sample_stake_def)
  have sane: "ceMetaValidateSanityData ?e ?m = Staking_ValidateSanityData [8] ?m" by (subst sample_stake_db(1)) (simp add: sample_chain_def)
  show ?thesis
    using staking_burns [OF acc m _ sane _ p] by (simp add: is_staking_def m) (simp add: sample_stake_def BeaconStakingMeta_def ShardStakingMeta_def)
qed

section \<open>Removal\<close>

text \<open>
  Removing a transaction does not free its coins: after \<open>RemoveTx\<close> the serial numbers
  stay in \<open>poolSerialNumbers\<close>, so neither the removed transaction nor any other one that
  spends one of its coins is ever accepted again, whatever the chain says, until the pool
  is emptied.
\<close>

theorem removed_tx_locked_out:
  assumes acc: "MaybeAcceptTransaction pe t tp = Some (tp1, Inr (h, d))"
    and rem: "RemoveTx (peChain pe') t tp1 = Some (tp2, err)"
    and ok: "pool_reach E tp"
    and sn: "set (ListNullifiers (baseTx t)) \<inter> set (ListNullifiers (baseTx t')) \<noteq> {}"
    and again: "MaybeAcceptTransaction pe'' t' tp2 = Some (tp3, r)"
  shows "tp3 = tp2 \<and> (\<exists>err. r = Inl err)"
proof (cases r)
  case (Inl err)
  then show ?thesis using again maybeAccept_Inl by (auto simp: MaybeAcceptTransaction_def)
next
  case (Inr hd')
  have a: "maybeAcceptTransaction pe t tp = Some (tp1, Inr (h, d))"
    using acc by (simp add: MaybeAcceptTransaction_def)
  obtain h' d' where a': "maybeAcceptTransaction pe'' t' tp2 = Some (tp3, Inr (h', d'))"
    using again Inr by (cases hd') (simp add: MaybeAcceptTransaction_def)
  obtain bh where "addTx (peChain pe) h t bh (txFee (baseTx t)) tp = Some (tp1, d)" using maybeAccept_Inr [OF a] .
  note t1 = addTx_pool [OF this]
  obtain k where k: "tpPool tp2 = AList.delete k (tpPool tp1)" "tpPoolSerialNumbers tp2 = tpPoolSerialNumbers tp1"
    using RemoveTx_frame [OF rem] by blast
  have ok1: "pool_ok tp1" using accept_pool_ok [OF pool_reach_ok [OF ok] a] .
  have ok2: "pool_ok tp2"
    using ok1 by (rule smaller_pool_ok) (use ok1 in \<open>auto simp: k delete_conv' map_le_def pool_ok_def distinct_delete\<close>)
  have "map_of (tpPoolSerialNumbers tp2) h = Some (ListNullifiers (baseTx t))"
    by (simp add: k t1 update_conv')
  moreover have ck: "mempool_checks pe'' (GetShardIDFromLastByte (txPubKeyLastByteSender (baseTx t'))) t' tp2 = Some None"
    using maybeAccept_Inr [OF a'] .
  note p = mempool_checks_pass [OF ck]
  ultimately show ?thesis using mempool_pass(1) [OF ok2 p(3,4)] sn by blast
qed

theorem removed_tx_locked_out_witness:
  "\<exists>tp2. RemoveTx sample_chain (sample_spend 1235 [6]) sample_pool2 = Some (tp2, None) \<and>
     \<not> (\<exists>tp3 x. MaybeAcceptTransaction sample_pool_env (sample_spend 1235 [6]) tp2 = Some (tp3, Inr x))"
proof -
  obtain d' where a: "MaybeAcceptTransaction sample_pool_env (sample_spend 1235 [6]) sample_pool1 =
    Some (sample_pool2, Inr ([49, 49, 50, 51, 53], d'))"
    using sample_pool2 by (metis MaybeAcceptTransaction_def)
  have p1: "pool_reach {sample_pool_env} sample_pool1"
    using pool_maybe [OF pool_init, of sample_pool_env] sample_pool1 by (metis MaybeAcceptTransaction_def insertI1)
  have "isTxInPool sample_pool2 [49, 49, 50, 51, 53]" using sample_pool2 by (force simp: isTxInPool_iff)
  then obtain tp2 where r: "RemoveTx sample_chain (sample_spend 1235 [6]) sample_pool2 = Some (tp2, None)"
    by (simp add: RemoveTx_def sample_hash_1235 removeTx_def)
  have r': "RemoveTx (peChain sample_pool_env) (sample_spend 1235 [6]) sample_pool2 = Some (tp2, None)"
    using r by (simp add: sample_pool_env_def)
  have "set (ListNullifiers (baseTx (sample_spend 1235 [6]))) \<inter> set (ListNullifiers (baseTx (sample_spend 1235 [6]))) \<noteq> {}"
    by (simp add: sample_spend_def ListNullifiers_def)
  from removed_tx_locked_out [OF a r' p1 this] r show ?thesis by blast
qed

text \<open>
  \<open>RemoveCandidateList\<close> and \<open>RemoveTokenIDList\<close> do not remove their argument from the list:
  the new list is the part of the argument that was not in it. What stays of the old list is
  nothing, and removing something that was never added adds it.
\<close>

theorem remove_lists_inverted:
  "set (tpCandidateList (RemoveCandidateList cs tp)) = set cs - set (tpCandidateList tp) \<and>
   set (tpTokenIDList (RemoveTokenIDList ts tp)) = set ts - set (tpTokenIDList tp)"
  by (auto simp: RemoveCandidateList_def RemoveTokenIDList_def remove_list_def list_ex_iff)

section \<open>Coin hashes\<close>

lemma map_of_fold_update: "map_of (fold (\<lambda>c m. AList.update c True m) cs m) c = (if c \<in> set cs then Some True else map_of m c)"
  by (induction cs arbitrary: m) (auto simp: update_conv')

lemma map_of_fold_delete: "map_of (fold AList.delete cs m) c = (if c \<in> set cs then None else map_of m c)"
  by (induction cs arbitrary: m) (auto simp: delete_conv')

lemma addTx_coins:
  assumes "addTx e h t height fee tp = Some (tp', txD)"
  shows "tpTxCoinHashHPool tp' = tpTxCoinHashHPool tp"
    "tpCoinHashHPool tp' = (case map_of (tpTxCoinHashHPool tp) h of None \<Rightarrow> tpCoinHashHPool tp
       | Some cs \<Rightarrow> fold (\<lambda>c m. AList.update c True m) cs (tpCoinHashHPool tp))"
  using assms
  by (auto simp: addTx_def Let_def observe_fee_def AddTxCoinHashH_def AddCandiateToList_def AddTokenIDToList_def
      split: if_splits option.splits Transaction.Transaction.splits)

text \<open>
  Coins announced for a transaction are reserved exactly while it is in the pool: after
  \<open>PrePoolTxCoinHashH\<close> and acceptance, \<open>ValidateCoinHashH\<close> reports each of them in use and
  answers for every other coin as before; after \<open>RemoveTx\<close> they are free again, and coins
  not announced for the transaction are not touched.
\<close>

theorem coin_hash_lifecycle:
  assumes acc: "MaybeAcceptTransaction pe t (PrePoolTxCoinHashH h cs tp) = Some (tp1, Inr (h, d))"
    and rem: "RemoveTx (peChain pe) t tp1 = Some (tp2, err)"
  shows "(\<forall>c. ValidateCoinHashH c tp1 = (if c \<in> set cs then Some CoinInUse else ValidateCoinHashH c tp)) \<and>
    (\<forall>c. ValidateCoinHashH c tp2 = (if c \<in> set cs then None else ValidateCoinHashH c tp)) \<and>
    err = None \<and> \<not> HaveTransaction h tp2"
proof -
  have a: "maybeAcceptTransaction pe t (PrePoolTxCoinHashH h cs tp) = Some (tp1, Inr (h, d))"
    using acc by (simp add: MaybeAcceptTransaction_def)
  obtain bh where hh: "Transaction_Hash (peChain pe) t = Some h"
    and ad: "addTx (peChain pe) h t bh (txFee (baseTx t)) (PrePoolTxCoinHashH h cs tp) = Some (tp1, d)"
    using maybeAccept_Inr [OF a] .
  have 1: "map_of (tpTxCoinHashHPool tp1) h = Some cs"
    "map_of (tpCoinHashHPool tp1) c = (if c \<in> set cs then Some True else map_of (tpCoinHashHPool tp) c)" for c
    using addTx_coins [OF ad] by (simp_all add: PrePoolTxCoinHashH_def update_conv' map_of_fold_update)
  have inp: "isTxInPool tp1 h" using addTx_pool(1) [OF ad] by (simp add: isTxInPool_def update_conv')
  have 2: "tp2 = RemoveTxCoinHashH h (tp1\<lparr>tpPool := AList.delete h (tpPool tp1), tpLastUpdated := ceNow (peChain pe)\<rparr>)" "err = None"
    using rem hh inp by (auto simp: RemoveTx_def removeTx_def)
  show ?thesis
    using 1 2 by (auto simp: ValidateCoinHashH_def RemoveTxCoinHashH_def map_of_fold_delete HaveTransaction_def isTxInPool_def
        delete_conv' split: option.splits)
qed

theorem coin_hash_lifecycle_witness:
  "\<exists>tp1. ValidateCoinHashH [3] tp1 = Some CoinInUse \<and> ValidateCoinHashH [4] tp1 = None"
proof -
  let ?h = "[49, 49, 50, 51, 52]" and ?t = "sample_spend 1234 [7]"
  obtain tp1 d where a: "maybeAcceptTransaction sample_pool_env ?t (PrePoolTxCoinHashH ?h [[3]] (TxPool_Init [])) = Some (tp1, Inr (?h, d))"
    using sample_accept [of 1234 "PrePoolTxCoinHashH ?h [[3]] (TxPool_Init [])" "[7]", OF _ _ sample_hash_1234]
    by (auto simp: TxPool_Init_def isTxInPool_def PrePoolTxCoinHashH_def)
  obtain tp2 err where "RemoveTx (peChain sample_pool_env) ?t tp1 = Some (tp2, err)"
    by (cases "removeTx sample_chain ?h tp1") (simp add: RemoveTx_def sample_hash_1234 sample_pool_env_def)
  from coin_hash_lifecycle [OF a [folded MaybeAcceptTransaction_def] this]
  show ?thesis by (auto simp: ValidateCoinHashH_def TxPool_Init_def intro!: exI [of _ tp1])
qed

section \<open>Unsigned token issues\<close>

lemma maybeAccept_intro:
  assumes "Transaction_Hash (peChain pe) t = Some h" "\<not> isTxInPool tp h"
    and "peBestHeight pe (GetShardIDFromLastByte (txPubKeyLastByteSender (baseTx t))) = Some bh"
    and "mempool_checks pe (GetShardIDFromLastByte (txPubKeyLastByteSender (baseTx t))) t tp = Some None"
    and "addTx (peChain pe) h t bh (txFee (baseTx t)) tp = Some (tp', d)"
  shows "maybeAcceptTransaction pe t tp = Some (tp', Inr (h, d))"
  using assms by (simp add: maybeAcceptTransaction_def Let_def)

text \<open>
  The pool does not look at the signature or the proof of a transaction that issues a
  private token: replacing the two verifications by ones that refuse everything changes
  neither the verdict nor the pool, although the transaction's coin part spends coins.
\<close>

theorem private_issue_unsigned:
  assumes "pdType d = CustomTokenInit"
  shows "MaybeAcceptTransaction
      (pe\<lparr>peChain := (peChain pe)\<lparr>ceVerifySig := (\<lambda>_. False), ceVerifyProof := (\<lambda>_ _ _ _. False)\<rparr>\<rparr>)
      (TxCustomTokenPrivacy tx d) tp =
    MaybeAcceptTransaction pe (TxCustomTokenPrivacy tx d) tp"
proof -
  let ?e = "peChain pe" and ?e' = "(peChain pe)\<lparr>ceVerifySig := (\<lambda>_. False), ceVerifyProof := (\<lambda>_ _ _ _. False)\<rparr>"
  let ?t = "TxCustomTokenPrivacy tx d"
  have sh: "ceSha256 ?e' = ceSha256 ?e" and mf: "ceMetaCheckTransactionFee ?e' = ceMetaCheckTransactionFee ?e"
    and pc: "peChain (pe\<lparr>peChain := ?e'\<rparr>) = ?e'" "peFeePerKbTx (pe\<lparr>peChain := ?e'\<rparr>) = peFeePerKbTx pe"
      "peBestHeight (pe\<lparr>peChain := ?e'\<rparr>) = peBestHeight pe" by simp_all
  have h: "Transaction_Hash ?e' ?t = Transaction_Hash ?e ?t"
    unfolding Transaction_Hash.simps DoubleHashH_def Tx_Hash_def HashH_def Tx_String_def TxTokenPrivacyData_Hash_def sh ..
  have f: "CheckTransactionFee ?e' tx m = CheckTransactionFee ?e tx m" for m unfolding CheckTransactionFee_def mf ..
  have s: "ValidateSanityData ?e' ?t = ValidateSanityData ?e ?t" by (simp add: validateNormalTxSanityData_def)
  have b: "ValidateTxWithBlockChain ?e' s ?t = ValidateTxWithBlockChain ?e s ?t" for s
    by (simp add: ValidateConstDoubleSpendWithBlockchain_def)
  have i: "ValidateTxByItself e p s ?t = Some True" for e :: "'a ChainEnv" and p s
    by (simp add: TxCustomTokenPrivacy_ValidateTxByItself_def assms)
  have k: "staker_key ?e' tx = staker_key ?e tx" by (simp add: staker_key_def)
  have c: "mempool_checks (pe\<lparr>peChain := ?e'\<rparr>) s ?t tp = mempool_checks pe s ?t tp" for s
    unfolding mempool_checks_def Let_def pc baseTx.simps f s b i k ..
  have a: "addTx ?e' x ?t y z tp = addTx ?e x ?t y z tp" for x y z
    unfolding addTx_def Let_def baseTx.simps k by simp
  show ?thesis unfolding MaybeAcceptTransaction_def maybeAcceptTransaction_def pc h c a ..
qed

theorem private_issue_unsigned_witness:
  "\<exists>tp' h x. MaybeAcceptTransaction
     (sample_pool_env\<lparr>peChain := sample_chain\<lparr>ceVerifySig := (\<lambda>_. False), ceVerifyProof := (\<lambda>_ _ _ _. False)\<rparr>\<rparr>)
     (TxCustomTokenPrivacy ((sample_tx [sample_coin [1] [7] 9] [])\<lparr>txType := TxCustomTokenPrivacyType\<rparr>)
        \<lparr>pdTxNormal = sample_tx [] [], pdPropertyID = [], pdPropertyName = [], pdPropertySymbol = [], pdType = CustomTokenInit,
         pdAmount = 5\<rparr>) (TxPool_Init []) = Some (tp', Inr (h, x))"
proof -
  let ?tx = "(sample_tx [sample_coin [1] [7] 9] [])\<lparr>txType := TxCustomTokenPrivacyType\<rparr>"
  let ?d = "\<lparr>pdTxNormal = sample_tx [] [], pdPropertyID = [], pdPropertyName = [], pdPropertySymbol = [],
    pdType = CustomTokenInit, pdAmount = 5\<rparr>"
  let ?t = "TxCustomTokenPrivacy ?tx ?d"
  have g: "GetTxActualSize ?tx = 1" by (simp add: GetTxActualSize_def sample_tx_def TxCustomTokenPrivacyType_def Let_def)
  have f: "CheckTransactionFee sample_chain ?tx 2 = Some True"
    unfolding CheckTransactionFee_def Let_def g
    by (simp add: sample_tx_def IsSalaryTx_def TxCustomTokenPrivacyType_def TxSalaryType_def)
  have c: "mempool_checks sample_pool_env s ?t (TxPool_Init []) = Some None" for s
    using f
    by (simp add: mempool_checks_def sample_pool_env_def GetSerialNumbers_def Let_def TxPool_Init_def mempool_double_spend_iff
        TxCustomTokenPrivacy_ValidateTxByItself_def validateNormalTxSanityData_def ValidateConstDoubleSpendWithBlockchain_def)
      (simp add: sample_tx_def sample_chain_def CheckTxVersion_def MaxVersion_def TxVersion_def IsSalaryTx_def is_staking_def
        list_all_iff TxCustomTokenPrivacyType_def TxSalaryType_def)
  have "\<exists>tp' x. addTx (peChain sample_pool_env) h ?t 3 fee (TxPool_Init []) = Some (tp', x)" for h fee
    by (simp add: addTx_def Let_def) (simp add: sample_tx_def TxCustomTokenPrivacyType_def TxNormalType_def TxCustomTokenType_def)
  then obtain tp' x h where h: "Transaction_Hash (peChain sample_pool_env) ?t = Some h"
    and x: "addTx (peChain sample_pool_env) h ?t 3 (txFee (baseTx ?t)) (TxPool_Init []) = Some (tp', x)"
    by (metis Transaction_Hash.simps(3))
  have n: "\<not> isTxInPool (TxPool_Init []) h" by (simp add: isTxInPool_def TxPool_Init_def)
  have b: "peBestHeight sample_pool_env s = Some 3" for s by (simp add: sample_pool_env_def)
  have "MaybeAcceptTransaction sample_pool_env ?t (TxPool_Init []) = Some (tp', Inr (h, x))"
    unfolding MaybeAcceptTransaction_def by (rule maybeAccept_intro [OF h n b c x])
  then show ?thesis using private_issue_unsigned [of ?d sample_pool_env ?tx "TxPool_Init []"]
    by (simp add: sample_pool_env_def)
qed

end
