(* ===== verification/Token_Db.thy ===== *)
theory Token_Db
  imports Committee Lvdb_Tx Base58
begin

text \<open>
  The tables of the custom tokens (\<open>src/database/lvdb/customtoken.go\<close>) and the history of token outputs,
  \<open>StoreCustomTokenPaymentAddresstHistory\<close> of \<open>src/blockchain/blockchain.go\<close>. An output is kept
  under the key of its token, owner, transaction and index, as a text of three parts: its value, whether it is
  spent, whether it was rewarded. Iterating over the keys with a prefix is the argument \<open>it\<close>, whose
  contract is the locale \<open>leveldb_iter\<close>. Shown: what a stored transaction does to every output, that no
  output is spent twice, and that the balances read back are the unspent values.
\<close>

section \<open>Splitting at a separator\<close>

text \<open>\<open>strings.Split\<close> with a non-empty separator; \<open>acc\<close> holds the current part backwards.\<close>

function split_go :: "'a list \<Rightarrow> 'a list \<Rightarrow> 'a list \<Rightarrow> 'a list list" where
  "split_go sep acc [] = [rev acc]"
| "split_go sep acc (c # cs) =
    (if take (length sep) (c # cs) = sep then rev acc # split_go sep [] (drop (length sep - 1) cs)
     else split_go sep (c # acc) cs)"
  by pat_completeness auto

termination
  by (relation "measure (\<lambda>(sep, acc, s). length s)") auto

definition Splitter :: bytes where "Splitter = str_bytes ''-[-]-''"

definition split_parts :: "bytes \<Rightarrow> bytes list" where
  "split_parts s = split_go Splitter [] s"

section \<open>Running steps that may fail\<close>

text \<open>A step of the chain code on the database: its state afterwards, with an error or a result.\<close>

datatype chain_error =
    FromDb db_error | DoubleSpendDetected | UTXOAlreadyExist | BadTxType | BadKeyText | Panicked

type_synonym ('db, 'a) chm = "'db \<Rightarrow> 'db \<times> (chain_error + 'a)"

definition ch_return :: "'a \<Rightarrow> ('db, 'a) chm" where
  "ch_return x d = (d, Inr x)"

definition ch_fail :: "chain_error \<Rightarrow> ('db, 'a) chm" where
  "ch_fail e d = (d, Inl e)"

definition ch_bind :: "('db, 'a) chm \<Rightarrow> ('a \<Rightarrow> ('db, 'b) chm) \<Rightarrow> ('db, 'b) chm" where
  "ch_bind m f d = (case m d of (d', Inl e) \<Rightarrow> (d', Inl e) | (d', Inr x) \<Rightarrow> f x d')"

definition ch_then :: "('db, 'a) chm \<Rightarrow> ('db, 'b) chm \<Rightarrow> ('db, 'b) chm" where
  "ch_then m k = ch_bind m (\<lambda>_. k)"

definition from_db :: "('db, 'a) dbm \<Rightarrow> ('db, 'a) chm" where
  "from_db m d = (case m d of (d', Inl e) \<Rightarrow> (d', Inl (if e = GoPanic then Panicked else FromDb e)) | (d', Inr x) \<Rightarrow> (d', Inr x))"

text \<open>A loop over a list that stops at the first error.\<close>

fun ch_for :: "'x list \<Rightarrow> ('x \<Rightarrow> ('db, unit) chm) \<Rightarrow> ('db, unit) chm" where
  "ch_for [] f = ch_return ()"
| "ch_for (x # xs) f = ch_then (f x) (ch_for xs f)"

section \<open>customtoken.go\<close>

definition TokenPrefix :: bytes where "TokenPrefix = str_bytes ''token-''"
definition PrivacyTokenPrefix :: bytes where "PrivacyTokenPrefix = str_bytes ''privacy-token-''"
definition TokenPaymentAddressPrefix :: bytes where "TokenPaymentAddressPrefix = str_bytes ''token-paymentaddress-''"
definition tokenInitPrefix :: bytes where "tokenInitPrefix = str_bytes ''token-init-''"
definition privacyTokenInitPrefix :: bytes where "privacyTokenInitPrefix = str_bytes ''privacy-token-init-''"
definition rewared :: bytes where "rewared = str_bytes ''reward''"
definition Unreward :: bytes where "Unreward = str_bytes ''unreward''"
definition Spent :: bytes where "Spent = str_bytes ''spent''"
definition Unspent :: bytes where "Unspent = str_bytes ''unspent''"

definition StoreCustomToken :: "'db leveldb \<Rightarrow> hash \<Rightarrow> bytes \<Rightarrow> ('db, unit) dbm" where
  "StoreCustomToken l tokenID txHash = lvdb_Put l RawError (GetKey tokenInitPrefix tokenID) txHash"

definition StorePrivacyCustomToken :: "'db leveldb \<Rightarrow> hash \<Rightarrow> bytes \<Rightarrow> ('db, unit) dbm" where
  "StorePrivacyCustomToken l tokenID txHash = lvdb_Put l RawError (GetKey privacyTokenInitPrefix tokenID) txHash"

text \<open>Heights and indices are counted down from \<open>bigNumber\<close>, and wrap around below it.\<close>

definition tokenTxKey :: "bytes \<Rightarrow> hash \<Rightarrow> u8 \<Rightarrow> u64 \<Rightarrow> u32 \<Rightarrow> bytes" where
  "tokenTxKey p tokenID shardID blockHeight txIndex =
     GetKey p tokenID @ [shardID] @ Uint64ToBytes (999999999 - blockHeight) @ Uint32ToBytes (999999999 - txIndex)"

definition StoreCustomTokenTx :: "'db leveldb \<Rightarrow> hash \<Rightarrow> u8 \<Rightarrow> u64 \<Rightarrow> u32 \<Rightarrow> bytes \<Rightarrow> ('db, unit) dbm" where
  "StoreCustomTokenTx l tokenID shardID blockHeight txIndex txHash =
     lvdb_Put l RawError (tokenTxKey TokenPrefix tokenID shardID blockHeight txIndex) txHash"

definition StorePrivacyCustomTokenTx :: "'db leveldb \<Rightarrow> hash \<Rightarrow> u8 \<Rightarrow> u64 \<Rightarrow> u32 \<Rightarrow> bytes \<Rightarrow> ('db, unit) dbm" where
  "StorePrivacyCustomTokenTx l tokenID shardID blockHeight txIndex txHash =
     lvdb_Put l RawError (tokenTxKey PrivacyTokenPrefix tokenID shardID blockHeight txIndex) txHash"

type_synonym 'db prefix_iter = "'db \<Rightarrow> bytes \<Rightarrow> (bytes \<times> bytes) list"

definition ListCustomToken :: "'db prefix_iter \<Rightarrow> 'db \<Rightarrow> bytes list" where
  "ListCustomToken it d = map snd (it d tokenInitPrefix)"

definition ListPrivacyCustomToken :: "'db prefix_iter \<Rightarrow> 'db \<Rightarrow> bytes list" where
  "ListPrivacyCustomToken it d = map snd (it d privacyTokenInitPrefix)"

text \<open>The error of \<open>SetBytes\<close> is dropped: a value of another length gives the zero hash.\<close>

definition hash_or_zero :: "bytes \<Rightarrow> hash" where
  "hash_or_zero v = (case Hash_SetBytes v of Inr h \<Rightarrow> h | Inl _ \<Rightarrow> replicate HashSize 0)"

definition CustomTokenTxs :: "'db prefix_iter \<Rightarrow> hash \<Rightarrow> 'db \<Rightarrow> hash list" where
  "CustomTokenTxs it tokenID d = map (\<lambda>(k, v). hash_or_zero v) (it d (GetKey TokenPrefix tokenID))"

definition PrivacyCustomTokenTxs :: "'db prefix_iter \<Rightarrow> hash \<Rightarrow> 'db \<Rightarrow> hash list" where
  "PrivacyCustomTokenTxs it tokenID d = map (\<lambda>(k, v). hash_or_zero v) (it d (GetKey PrivacyTokenPrefix tokenID))"

definition nth_part :: "bytes \<Rightarrow> nat \<Rightarrow> bytes option" where
  "nth_part s i = (if i < length (split_parts s) then Some (split_parts s ! i) else None)"

text \<open>
  The listing asks for the token by its bytes, while the keys carry its text. The addresses are a set, here
  without repetitions; an index out of range is \<open>None\<close>.
\<close>

fun unspent_addresses :: "(bytes \<times> bytes) list \<Rightarrow> bytes list \<Rightarrow> bytes list option" where
  "unspent_addresses [] res = Some res"
| "unspent_addresses ((key, value) # kvs) res =
    (case nth_part value 1 of
       None \<Rightarrow> None
     | Some st \<Rightarrow>
         if st = Unspent then
           (case nth_part key 2 of None \<Rightarrow> None | Some a \<Rightarrow> unspent_addresses kvs (List.insert a res))
         else unspent_addresses kvs res)"

definition GetCustomTokenListPaymentAddress :: "'db prefix_iter \<Rightarrow> hash \<Rightarrow> 'db \<Rightarrow> bytes list option" where
  "GetCustomTokenListPaymentAddress it tokenID d =
     unspent_addresses (it d (TokenPaymentAddressPrefix @ Splitter @ tokenID)) []"

text \<open>\<open>balance, _ := strconv.Atoi(s)\<close>: zero for a text that is no number, the nearest bound for one out of range.\<close>

definition Atoi_or :: "bytes \<Rightarrow> int" where
  "Atoi_or b =
    (let s = map (\<lambda>x. char_of (unat x)) b;
         (neg, ds) = (case s of [] \<Rightarrow> (False, []) | c # cs \<Rightarrow>
           if c = CHR ''-'' then (True, cs) else if c = CHR ''+'' then (False, cs) else (False, s));
         v = (if neg then - int (digits_value ds) else int (digits_value ds))
     in if ds = [] \<or> \<not> list_all digit ds then 0 else max (- (2 ^ 63)) (min (2 ^ 63 - 1) v))"

definition PaymentAddress_Bytes :: "PaymentAddress \<Rightarrow> bytes" where
  "PaymentAddress_Bytes a = paPk a @ paTk a"

definition PaymentAddress_SetBytes :: "bytes \<Rightarrow> PaymentAddress option" where
  "PaymentAddress_SetBytes b = (if length b < 33 then None else Some \<lparr>paPk = take 33 b, paTk = drop 33 b\<rparr>)"

text \<open>The address text of a key, decoded and encoded again; a text that does not decode leaves no bytes.\<close>

definition address_text :: "(bytes \<Rightarrow> bytes) \<Rightarrow> bytes \<Rightarrow> bytes option" where
  "address_text sha k =
     map_option (\<lambda>a. str_bytes (Base58Check_Encode sha (PaymentAddress_Bytes a) 0))
       (PaymentAddress_SetBytes
         (case Base58Check_Decode sha (map (\<lambda>x. char_of (unat x)) k) of Inl _ \<Rightarrow> [] | Inr (b, v) \<Rightarrow> b))"

fun sum_balances ::
  "(bytes \<Rightarrow> bytes option) \<Rightarrow> (bytes \<Rightarrow> bool) \<Rightarrow> (bytes \<times> bytes) list \<Rightarrow> (bytes \<rightharpoonup> u64) \<Rightarrow> (bytes \<rightharpoonup> u64) option" where
  "sum_balances addr sel [] res = Some res"
| "sum_balances addr sel ((key, value) # kvs) res =
    (case nth_part value 1 of
       None \<Rightarrow> None
     | Some st \<Rightarrow>
         if st = Unspent \<and> sel value then
           (case Option.bind (nth_part key 2) addr of
              None \<Rightarrow> None
            | Some a \<Rightarrow>
                (case nth_part value 0 of
                   None \<Rightarrow> None
                 | Some b \<Rightarrow> sum_balances addr sel kvs (res(a \<mapsto> go_get 0 res a + word_of_int (Atoi_or b)))))
         else sum_balances addr sel kvs res)"

definition GetCustomTokenPaymentAddressesBalance ::
  "(bytes \<Rightarrow> bytes) \<Rightarrow> 'db prefix_iter \<Rightarrow> hash \<Rightarrow> 'db \<Rightarrow> (bytes \<rightharpoonup> u64) option" where
  "GetCustomTokenPaymentAddressesBalance sha it tokenID d =
     sum_balances (address_text sha) (\<lambda>_. True)
       (it d (TokenPaymentAddressPrefix @ Splitter @ str_bytes (Hash_String tokenID))) Map.empty"

text \<open>A value of two parts panics at the third only when it is unspent.\<close>

definition balance_unreward_ok :: "(bytes \<times> bytes) list \<Rightarrow> bool" where
  "balance_unreward_ok kvs = list_all (\<lambda>(k, v). nth_part v 1 = Some Unspent \<longrightarrow> nth_part v 2 \<noteq> None) kvs"

definition GetCustomTokenPaymentAddressesBalanceUnreward ::
  "'db prefix_iter \<Rightarrow> hash \<Rightarrow> 'db \<Rightarrow> (bytes \<rightharpoonup> u64) option" where
  "GetCustomTokenPaymentAddressesBalanceUnreward it tokenID d =
    (let kvs = it d (TokenPaymentAddressPrefix @ Splitter @ str_bytes (Hash_String tokenID))
     in if \<not> balance_unreward_ok kvs then None
        else sum_balances Some (\<lambda>v. nth_part v 2 = Some Unreward) kvs Map.empty)"

definition GetCustomTokenPaymentAddressUTXO ::
  "(bytes \<Rightarrow> bytes) \<Rightarrow> 'db prefix_iter \<Rightarrow> hash \<Rightarrow> bytes \<Rightarrow> 'db \<Rightarrow> (bytes \<rightharpoonup> bytes)" where
  "GetCustomTokenPaymentAddressUTXO sha it tokenID paymentAddress d =
     map_of (it d (TokenPaymentAddressPrefix @ Splitter @ str_bytes (Hash_String tokenID) @ Splitter @
       str_bytes (Base58Check_Encode sha paymentAddress 0)))"

text \<open>The key of a token output.\<close>

definition utxoKey :: "(bytes \<Rightarrow> bytes) \<Rightarrow> hash \<Rightarrow> bytes \<Rightarrow> hash \<Rightarrow> int \<Rightarrow> bytes" where
  "utxoKey sha tokenID paymentAddress txHash voutIndex =
     TokenPaymentAddressPrefix @ Splitter @ str_bytes (Hash_String tokenID) @ Splitter @
     str_bytes (Base58Check_Encode sha paymentAddress 0) @ Splitter @ str_bytes (Hash_String txHash) @ Splitter @
     [word_of_int voutIndex]"

text \<open>The new value joins the first two parts of the old one without the separators.\<close>

definition UpdateRewardAccountUTXO ::
  "(bytes \<Rightarrow> bytes) \<Rightarrow> 'db leveldb \<Rightarrow> hash \<Rightarrow> bytes \<Rightarrow> hash \<Rightarrow> int \<Rightarrow> ('db, unit) dbm" where
  "UpdateRewardAccountUTXO sha l tokenID paymentAddress txHash voutIndex =
    (let key = utxoKey sha tokenID paymentAddress txHash voutIndex
     in db_then (db_HasValue l key)
       (db_bind (db_Get l key) (\<lambda>res.
         case (nth_part res 0, nth_part res 1) of
           (Some a, Some b) \<Rightarrow> lvdb_Put l RawError key (a @ b @ rewared)
         | _ \<Rightarrow> db_fail GoPanic)))"

section \<open>The history of token outputs (blockchain.go)\<close>

definition spend_vin :: "(bytes \<Rightarrow> bytes) \<Rightarrow> 'db leveldb \<Rightarrow> hash \<Rightarrow> TxTokenVin \<Rightarrow> ('db, unit) chm" where
  "spend_vin sha l tokenID vin =
    (let paymentAddressKey =
           utxoKey sha tokenID (PaymentAddress_Bytes (viPaymentAddress vin)) (viTxCustomTokenID vin) (viVoutIndex vin)
     in ch_then (from_db (db_HasValue l paymentAddressKey))
       (ch_bind (from_db (db_Get l paymentAddressKey)) (\<lambda>value.
         case nth_part value 1 of
           None \<Rightarrow> ch_fail Panicked
         | Some st \<Rightarrow>
             if st \<noteq> Unspent then ch_fail DoubleSpendDetected
             else
               (case (nth_part value 0, nth_part value 2) of
                  (Some v0, Some v2) \<Rightarrow>
                    from_db (db_Put l paymentAddressKey (v0 @ Splitter @ Spent @ Splitter @ v2))
                | _ \<Rightarrow> ch_fail Panicked))))"

definition utxo_value :: "u64 \<Rightarrow> bytes" where
  "utxo_value v = str_bytes (Itoa (sint v)) @ Splitter @ Unspent @ Splitter @ Unreward"

definition store_vout :: "(bytes \<Rightarrow> bytes) \<Rightarrow> 'db leveldb \<Rightarrow> hash \<Rightarrow> hash \<Rightarrow> nat \<times> TxTokenVout \<Rightarrow> ('db, unit) chm" where
  "store_vout sha l tokenID txHash iv =
    (let paymentAddressKey = utxoKey sha tokenID (PaymentAddress_Bytes (voPaymentAddress (snd iv))) txHash (int (fst iv))
     in ch_bind (from_db (db_HasValue l paymentAddressKey)) (\<lambda>ok.
          if ok then ch_fail UTXOAlreadyExist
          else from_db (db_Put l paymentAddressKey (utxo_value (voValue (snd iv))))))"

definition StoreCustomTokenPaymentAddresstHistory ::
  "'db ChainEnv \<Rightarrow> Tx \<Rightarrow> TxTokenData \<Rightarrow> ('db, unit) chm" where
  "StoreCustomTokenPaymentAddresstHistory e tx td =
    (let sha = ceSha256 e; l = ceLdb e
     in ch_then (ch_for (tdVins td) (spend_vin sha l (tdPropertyID td)))
       (case Transaction_Hash e (TxCustomToken tx td) of
          None \<Rightarrow> if Vouts td = [] then ch_return () else ch_fail Panicked
        | Some h \<Rightarrow> ch_for (List.enumerate 0 (Vouts td)) (store_vout sha l (tdPropertyID td) h)))"


section \<open>Parts of keys and values\<close>

text \<open>The separator is found exactly where it was put when the parts have no opening bracket.\<close>

lemma Splitter_bytes: "Splitter = [45, 91, 45, 93, 45]"
  by (simp add: Splitter_def str_bytes_def)

lemma split_go_step:
  assumes "91 \<notin> set x"
  shows "split_go Splitter acc (x @ Splitter @ y) = (rev acc @ x) # split_go Splitter [] y"
  using assms
proof (induction x arbitrary: acc)
  case Nil
  show ?case by (simp add: Splitter_bytes)
next
  case (Cons c x)
  have "take (length Splitter) (c # x @ Splitter @ y) \<noteq> Splitter"
    using Cons.prems by (cases x) (auto simp: Splitter_bytes)
  then show ?case using Cons by simp
qed

lemma split_go_last: "91 \<notin> set x \<Longrightarrow> split_go Splitter acc x = [rev acc @ x]"
proof (induction x arbitrary: acc)
  case (Cons c x)
  have "take (length Splitter) (c # x) \<noteq> Splitter"
    using Cons.prems by (cases x) (auto simp: Splitter_bytes)
  then show ?case using Cons by simp
qed simp

lemma split_parts_step: "91 \<notin> set x \<Longrightarrow> split_parts (x @ Splitter @ y) = x # split_parts y"
  by (simp add: split_parts_def split_go_step)

lemma split_parts_last: "91 \<notin> set x \<Longrightarrow> split_parts x = [x]"
  by (simp add: split_parts_def split_go_last)

lemma bracket_str: "91 \<in> set (str_bytes s) \<longleftrightarrow> CHR ''['' \<in> set s"
proof -
  have "(91::u8) = of_char (CHR ''['')" by simp
  then show ?thesis using of_char_u8_inj [of "CHR ''[''"] by (auto simp: str_bytes_def image_iff)
qed

lemma nat_digits_bracket: "CHR ''['' \<notin> set (nat_digits n)" "CHR ''-'' \<notin> set (nat_digits n)"
  using nat_digits_value [of n] by (auto simp: list_all_iff digit_def)

lemma Itoa_bracket: "CHR ''['' \<notin> set (Itoa i)"
  by (simp add: Itoa_def nat_digits_bracket)

lemma hex_bracket: "CHR ''['' \<notin> set (hex_EncodeToString bs)"
proof -
  have "list_all (\<lambda>n. hex_digit n \<noteq> CHR ''['') [0..<16]" by code_simp
  then have h: "n < 16 \<Longrightarrow> hex_digit n \<noteq> CHR ''[''" for n by (simp add: list_all_iff)
  have "hex_digit (unat b div 16) \<noteq> CHR ''['' \<and> hex_digit (unat b mod 16) \<noteq> CHR ''[''" for b :: u8
    using h [of "unat b div 16"] h [of "unat b mod 16"] unsigned_less [of b, where ?'a = nat]
    by (simp add: less_mult_imp_div_less)
  then show ?thesis by (auto simp: hex_EncodeToString_def dest: sym)
qed

lemma Hash_String_bracket: "CHR ''['' \<notin> set (Hash_String h)"
  by (simp add: Hash_String_def hex_bracket)

lemma b58_bracket: "CHR ''['' \<notin> set (Base58_Encode b)"
proof -
  have "list_all (\<lambda>n. alphabet ! n \<noteq> CHR ''['') [0..<58]" by code_simp
  then have a: "alphabet ! (n mod 58) \<noteq> CHR ''[''" for n by (simp add: list_all_iff)
  have "CHR ''['' \<notin> set (b58_digits n)" for n
  proof (induction n rule: b58_digits.induct)
    case (1 x)
    then show ?case using a [of x] by (subst b58_digits.simps) (auto dest: sym)
  qed
  then show ?thesis by (auto simp: Base58_Encode_def alphabetIdx0_def)
qed

lemma b58check_bracket: "CHR ''['' \<notin> set (Base58Check_Encode sha b v)"
  by (simp add: Base58Check_Encode_def Let_def b58_bracket)

lemmas no_bracket = bracket_str Itoa_bracket Hash_String_bracket b58check_bracket

lemma Base58Check_Encode_inj:
  assumes "\<And>b. length (sha b) = 32"
  shows "Base58Check_Encode sha a v = Base58Check_Encode sha b w \<longleftrightarrow> a = b \<and> v = w"
proof
  assume "Base58Check_Encode sha a v = Base58Check_Encode sha b w"
  then have "(v # a) @ take 4 (sha (sha (v # a))) = (w # b) @ take 4 (sha (sha (w # b)))"
    by (metis Base58Check_Encode_def ChecksumFirst4Bytes_def DoubleHashB_def decode_of_encode)
  then show "a = b \<and> v = w" using assms by (auto simp: append_eq_append_conv)
qed simp

text \<open>A key determines the output: the lengths of the fixed parts leave one reading.\<close>

lemma utxoKey_inj:
  assumes "\<And>b. length (sha b) = 32"
    and "length t = HashSize" "length t' = HashSize" "length h = HashSize" "length h' = HashSize"
  shows "utxoKey sha t p h i = utxoKey sha t' p' h' i' \<longleftrightarrow>
    t = t' \<and> p = p' \<and> h = h' \<and> (word_of_int i :: u8) = word_of_int i'"
proof
  assume eq: "utxoKey sha t p h i = utxoKey sha t' p' h' i'"
  let ?b = "str_bytes (Base58Check_Encode sha p 0)" and ?b' = "str_bytes (Base58Check_Encode sha p' 0)"
  have len: "length ?b = length ?b'"
    using arg_cong [OF eq, of length] Hash_String_length assms by (simp add: utxoKey_def)
  have "str_bytes (Hash_String t) = str_bytes (Hash_String t') \<and> ?b = ?b' \<and>
      str_bytes (Hash_String h) = str_bytes (Hash_String h') \<and> (word_of_int i :: u8) = word_of_int i'"
    using eq len Hash_String_length assms by (auto simp: utxoKey_def)
  then show "t = t' \<and> p = p' \<and> h = h' \<and> (word_of_int i :: u8) = word_of_int i'"
    using Hash_String_inj assms Base58Check_Encode_inj [OF assms(1)] by (simp add: str_bytes_inj)
qed (simp add: utxoKey_def)

lemma utxoKey_parts:
  shows "nth_part (utxoKey sha t p h i) 2 = Some (str_bytes (Base58Check_Encode sha p 0))"
proof -
  have t: "91 \<notin> set TokenPaymentAddressPrefix"
    by (simp add: TokenPaymentAddressPrefix_def bracket_str)
  show ?thesis
    using t by (simp add: nth_part_def utxoKey_def split_parts_step no_bracket)
qed


section \<open>What the history means\<close>

text \<open>
  The abstract state: for each output (token, owner, transaction, index byte) its value and whether it is
  spent. A transaction spends its inputs one after the other, then creates its outputs.
\<close>

type_synonym utxo_id = "hash \<times> bytes \<times> hash \<times> u8"

fun spend_ids :: "utxo_id list \<Rightarrow> (utxo_id \<rightharpoonup> u64 \<times> bool) \<Rightarrow> (utxo_id \<rightharpoonup> u64 \<times> bool) option" where
  "spend_ids [] m = Some m"
| "spend_ids (i # is) m = (case m i of Some (v, False) \<Rightarrow> spend_ids is (m(i \<mapsto> (v, True))) | _ \<Rightarrow> None)"

fun create_ids :: "(utxo_id \<times> u64) list \<Rightarrow> (utxo_id \<rightharpoonup> u64 \<times> bool) \<Rightarrow> (utxo_id \<rightharpoonup> u64 \<times> bool) option" where
  "create_ids [] m = Some m"
| "create_ids ((i, v) # is) m = (case m i of None \<Rightarrow> create_ids is (m(i \<mapsto> (v, False))) | Some _ \<Rightarrow> None)"

definition vin_id :: "hash \<Rightarrow> TxTokenVin \<Rightarrow> utxo_id" where
  "vin_id t vin = (t, PaymentAddress_Bytes (viPaymentAddress vin), viTxCustomTokenID vin, word_of_int (viVoutIndex vin))"

definition vout_id :: "hash \<Rightarrow> hash \<Rightarrow> nat \<times> TxTokenVout \<Rightarrow> utxo_id \<times> u64" where
  "vout_id t h iv = ((t, PaymentAddress_Bytes (voPaymentAddress (snd iv)), h, word_of_nat (fst iv)), voValue (snd iv))"

definition token_step :: "hash \<Rightarrow> TxTokenData \<Rightarrow> (utxo_id \<rightharpoonup> u64 \<times> bool) \<Rightarrow> (utxo_id \<rightharpoonup> u64 \<times> bool) option" where
  "token_step h td m =
     Option.bind (spend_ids (map (vin_id (tdPropertyID td)) (tdVins td)) m)
       (create_ids (map (vout_id (tdPropertyID td) h) (List.enumerate 0 (Vouts td))))"

definition utxo_text :: "u64 \<times> bool \<Rightarrow> bytes" where
  "utxo_text u = str_bytes (Itoa (sint (fst u))) @ Splitter @ (if snd u then Spent else Unspent) @ Splitter @ Unreward"

text \<open>The database holds the abstract state: each output under its key, nothing under the keys of the others.\<close>

definition utxo_rel :: "(bytes \<Rightarrow> bytes) \<Rightarrow> 'db leveldb \<Rightarrow> 'db \<Rightarrow> (utxo_id \<rightharpoonup> u64 \<times> bool) \<Rightarrow> bool" where
  "utxo_rel sha l d m \<longleftrightarrow>
    (\<forall>t p h i. length t = HashSize \<longrightarrow> length h = HashSize \<longrightarrow>
       ldb_Get l d (utxoKey sha t p h (uint i)) =
         (case m (t, p, h, i) of None \<Rightarrow> Inl ErrNotFound | Some u \<Rightarrow> Inr (utxo_text u)))"

lemmas chm_defs = ch_return_def ch_fail_def ch_bind_def ch_then_def from_db_def

lemma status_bracket: "91 \<notin> set Spent" "91 \<notin> set Unspent" "91 \<notin> set Unreward"
  by (simp_all add: Spent_def Unspent_def Unreward_def bracket_str)

lemma Spent_neq [simp]: "Spent \<noteq> Unspent"
  by (simp add: Spent_def Unspent_def str_bytes_inj)

lemma utxo_text_parts:
  "split_parts (utxo_text u) = [str_bytes (Itoa (sint (fst u))), if snd u then Spent else Unspent, Unreward]"
  by (simp add: utxo_text_def split_parts_step split_parts_last no_bracket status_bracket)

lemma nth_utxo_text [simp]:
  "nth_part (utxo_text u) 0 = Some (str_bytes (Itoa (sint (fst u))))"
  "nth_part (utxo_text u) (Suc 0) = Some (if snd u then Spent else Unspent)"
  "nth_part (utxo_text u) 2 = Some Unreward"
  by (simp_all add: nth_part_def utxo_text_parts)

lemma utxo_text_spent: "str_bytes (Itoa (sint v)) @ Splitter @ Spent @ Splitter @ Unreward = utxo_text (v, True)"
  by (simp add: utxo_text_def)

lemma utxoKey_index: "utxoKey sha t p h i = utxoKey sha t p h (uint (word_of_int i :: u8))"
  by (simp add: utxoKey_def)

lemma utxo_value_text: "utxo_value v = utxo_text (v, False)"
  by (simp add: utxo_value_def utxo_text_def)

context leveldb_contract
begin

text \<open>Writing one output keeps the relation.\<close>

lemma utxo_rel_put:
  assumes sha: "\<And>b. length (sha b) = 32" and R: "utxo_rel sha l d m" and len: "length t = HashSize" "length h = HashSize"
    and put: "ldb_Put l d (utxoKey sha t p h i) (utxo_text u) = Inr d'"
  shows "utxo_rel sha l d' (m((t, p, h, word_of_int i) \<mapsto> u))"
  unfolding utxo_rel_def
proof (intro allI impI)
  fix t' p' h' :: bytes and i' :: u8
  assume l': "length t' = HashSize" "length h' = HashSize"
  have k: "utxoKey sha t' p' h' (uint i') = utxoKey sha t p h i \<longleftrightarrow> (t', p', h', i') = (t, p, h, word_of_int i)"
    using utxoKey_inj [OF sha l'(1) len(1) l'(2) len(2)] by auto
  show "ldb_Get l d' (utxoKey sha t' p' h' (uint i')) =
      (case (m((t, p, h, word_of_int i) \<mapsto> u)) (t', p', h', i') of None \<Rightarrow> Inl ErrNotFound | Some u \<Rightarrow> Inr (utxo_text u))"
  proof (cases "(t', p', h', i') = (t, p, h, word_of_int i)")
    case True
    then show ?thesis using put_get [OF put] k by simp
  next
    case False
    then show ?thesis using put_frame [OF put] k R l' by (auto simp: utxo_rel_def)
  qed
qed

lemma utxo_rel_get:
  assumes "utxo_rel sha l d m" "length t = HashSize" "length h = HashSize"
  shows "ldb_Get l d (utxoKey sha t p h i) =
    (case m (t, p, h, word_of_int i) of None \<Rightarrow> Inl ErrNotFound | Some u \<Rightarrow> Inr (utxo_text u))"
  using assms by (subst utxoKey_index) (simp add: utxo_rel_def)

lemma spend_vin_spec:
  assumes sha: "\<And>b. length (sha b) = 32" and R: "utxo_rel sha l d m" and len: "length t = HashSize" "length (viTxCustomTokenID vin) = HashSize"
    and s: "spend_vin sha l t vin d = (d', r)"
  shows "case m (vin_id t vin) of
      Some (v, False) \<Rightarrow> (r = Inr () \<and> utxo_rel sha l d' (m(vin_id t vin \<mapsto> (v, True)))) \<or> (\<exists>x. r = Inl (FromDb x))
    | Some (v, True) \<Rightarrow> r = Inl DoubleSpendDetected \<and> d' = d
    | None \<Rightarrow> r = Inl (FromDb LvDbNotFound) \<and> d' = d"
proof -
  let ?k = "utxoKey sha t (PaymentAddress_Bytes (viPaymentAddress vin)) (viTxCustomTokenID vin) (viVoutIndex vin)"
  note g = utxo_rel_get [OF R len, of "PaymentAddress_Bytes (viPaymentAddress vin)" "viVoutIndex vin", folded vin_id_def]
  show ?thesis
  proof (cases "m (vin_id t vin)")
    case None
    then have "ldb_Get l d ?k = Inl ErrNotFound" using g by simp
    from this has_missing [OF this] show ?thesis
      using s None by (simp add: spend_vin_def Let_def chm_defs dbm_defs)
  next
    case (Some u)
    obtain v b where u: "u = (v, b)" by (cases u)
    have "ldb_Get l d ?k = Inr (utxo_text u)" using g Some by simp
    note G = this has_found [OF this]
    show ?thesis
    proof (cases b)
      case True
      then show ?thesis using s G Some u by (simp add: spend_vin_def Let_def chm_defs dbm_defs)
    next
      case False
      have "spend_vin sha l t vin d = from_db (db_Put l ?k (utxo_text (v, True))) d"
        using G u False by (simp add: spend_vin_def Let_def chm_defs dbm_defs utxo_text_spent split: sum.split)
      then show ?thesis
        using s Some u False utxo_rel_put [OF sha R len, of _ _ "(v, True)"]
        by (auto simp: chm_defs dbm_defs vin_id_def split: sum.splits)
    qed
  qed
qed

lemma store_vout_spec:
  assumes sha: "\<And>b. length (sha b) = 32" and R: "utxo_rel sha l d m" and len: "length t = HashSize" "length h = HashSize"
    and s: "store_vout sha l t h iv d = (d', r)"
  shows "case m (fst (vout_id t h iv)) of
      None \<Rightarrow> (r = Inr () \<and> utxo_rel sha l d' (m(fst (vout_id t h iv) \<mapsto> (snd (vout_id t h iv), False)))) \<or> (\<exists>x. r = Inl (FromDb x))
    | Some u \<Rightarrow> r = Inl UTXOAlreadyExist \<and> d' = d"
proof -
  let ?k = "utxoKey sha t (PaymentAddress_Bytes (voPaymentAddress (snd iv))) h (int (fst iv))"
  note g = utxo_rel_get [OF R len, of "PaymentAddress_Bytes (voPaymentAddress (snd iv))" "int (fst iv)"]
  show ?thesis
  proof (cases "m (fst (vout_id t h iv))")
    case None
    then have "ldb_Get l d ?k = Inl ErrNotFound" using g by (simp add: vout_id_def)
    from has_missing [OF this] have "store_vout sha l t h iv d = from_db (db_Put l ?k (utxo_text (voValue (snd iv), False))) d"
      by (simp add: store_vout_def Let_def chm_defs dbm_defs utxo_value_text)
    then show ?thesis
      using s None utxo_rel_put [OF sha R len, of _ "int (fst iv)" "(voValue (snd iv), False)"]
      by (auto simp: chm_defs dbm_defs vout_id_def split: sum.splits)
  next
    case (Some u)
    then have "ldb_Get l d ?k = Inr (utxo_text u)" using g by (simp add: vout_id_def)
    from has_found [OF this] show ?thesis
      using s Some by (simp add: store_vout_def Let_def chm_defs dbm_defs)
  qed
qed

end


section \<open>The history refines its meaning\<close>

text \<open>A result of the history against the abstract step: done, an error of LevelDB, or a refusal.\<close>

definition step_result ::
  "(bytes \<Rightarrow> bytes) \<Rightarrow> 'db leveldb \<Rightarrow> 'db \<times> (chain_error + unit) \<Rightarrow> (utxo_id \<rightharpoonup> u64 \<times> bool) option \<Rightarrow> bool" where
  "step_result sha l res spec =
    (case spec of
       Some m' \<Rightarrow> (snd res = Inr () \<and> utxo_rel sha l (fst res) m') \<or> (\<exists>x. snd res = Inl (FromDb x))
     | None \<Rightarrow> (\<exists>err. snd res = Inl err \<and> (err = DoubleSpendDetected \<or> err = UTXOAlreadyExist \<or> (\<exists>x. err = FromDb x))))"

lemma ch_for_Cons_run:
  "ch_for (x # xs) f d = (case f x d of (d1, Inl e) \<Rightarrow> (d1, Inl e) | (d1, Inr _) \<Rightarrow> ch_for xs f d1)"
  by (auto simp: chm_defs split: prod.splits sum.splits)

context leveldb_contract
begin

lemma vins_spec:
  assumes sha: "\<And>b. length (sha b) = 32" and t: "length t = HashSize"
  shows "utxo_rel sha l d m \<Longrightarrow> \<forall>vin \<in> set vins. length (viTxCustomTokenID vin) = HashSize \<Longrightarrow>
    step_result sha l (ch_for vins (spend_vin sha l t) d) (spend_ids (map (vin_id t) vins) m)"
proof (induction vins arbitrary: d m)
  case Nil
  then show ?case by (simp add: step_result_def ch_return_def)
next
  case (Cons vin vins)
  obtain d1 r where s: "spend_vin sha l t vin d = (d1, r)" by (cases "spend_vin sha l t vin d")
  have len: "length (viTxCustomTokenID vin) = HashSize" using Cons.prems by simp
  note spec = spend_vin_spec [OF sha Cons.prems(1) t len s]
  note IH = Cons.IH [of d1]
  show ?case
    using spec IH Cons.prems(2)
    by (fastforce simp: ch_for_Cons_run s step_result_def simp del: ch_for.simps
        split: option.splits prod.splits bool.splits sum.splits)
qed

lemma vouts_spec:
  assumes sha: "\<And>b. length (sha b) = 32" and t: "length t = HashSize" "length h = HashSize"
  shows "utxo_rel sha l d m \<Longrightarrow>
    step_result sha l (ch_for ivs (store_vout sha l t h) d) (create_ids (map (vout_id t h) ivs) m)"
proof (induction ivs arbitrary: d m)
  case Nil
  then show ?case by (simp add: step_result_def ch_return_def)
next
  case (Cons iv ivs)
  obtain d1 r where s: "store_vout sha l t h iv d = (d1, r)" by (cases "store_vout sha l t h iv d")
  obtain i v where iv: "vout_id t h iv = (i, v)" by (cases "vout_id t h iv")
  note spec = store_vout_spec [OF sha Cons.prems t s, unfolded iv fst_conv snd_conv]
  note IH = Cons.IH [of d1]
  show ?case
    using spec IH
    by (fastforce simp: ch_for_Cons_run s step_result_def iv simp del: ch_for.simps
        split: option.splits prod.splits bool.splits sum.splits)
qed

end

text \<open>
  C26. The history of token outputs refines the abstract step. When the database holds an
  abstract state, storing a transaction either ends without error exactly when every input was
  unspent when it was reached and every output is new, and then the database holds the next abstract state, or it
  reports an error; a refused transaction is never stored as done, and an accepted one fails
  only with an error of the database. It never panics.
\<close>

theorem token_history_refines:
  assumes "leveldb_contract (ceLdb e)" "\<And>b. length (ceSha256 e b) = 32"
    and "utxo_rel (ceSha256 e) (ceLdb e) d m"
    and "length (tdPropertyID td) = HashSize" "length h = HashSize"
    and "\<forall>vin \<in> set (tdVins td). length (viTxCustomTokenID vin) = HashSize"
    and "Transaction_Hash e (TxCustomToken tx td) = Some h"
  shows "step_result (ceSha256 e) (ceLdb e) (StoreCustomTokenPaymentAddresstHistory e tx td d) (token_step h td m)"
proof -
  let ?vins = "ch_for (tdVins td) (spend_vin (ceSha256 e) (ceLdb e) (tdPropertyID td)) d"
  obtain d1 r where s: "?vins = (d1, r)" by (cases ?vins)
  note V = leveldb_contract.vins_spec [OF assms(1,2,4,3,6), unfolded s]
  note W = leveldb_contract.vouts_spec [OF assms(1,2,4,5), where d = d1 and ivs = "List.enumerate 0 (Vouts td)"]
  have run: "StoreCustomTokenPaymentAddresstHistory e tx td d =
      (case r of Inl e' \<Rightarrow> (d1, Inl e')
       | Inr _ \<Rightarrow> ch_for (List.enumerate 0 (Vouts td)) (store_vout (ceSha256 e) (ceLdb e) (tdPropertyID td) h) d1)"
    using assms(7) s by (simp add: StoreCustomTokenPaymentAddresstHistory_def Let_def ch_then_def ch_bind_def)
  show ?thesis
  proof (cases "spend_ids (map (vin_id (tdPropertyID td)) (tdVins td)) m")
    case None
    then show ?thesis using V by (auto simp: run token_step_def step_result_def)
  next
    case (Some m1)
    from V consider "r = Inr ()" "utxo_rel (ceSha256 e) (ceLdb e) d1 m1" | x where "r = Inl (FromDb x)"
      by (auto simp: step_result_def Some)
    then show ?thesis
    proof cases
      case 1
      then show ?thesis using W [where m = m1] by (simp add: run token_step_def Some)
    next
      case 2
      then show ?thesis by (auto simp: run step_result_def split: option.splits)
    qed
  qed
qed

section \<open>No output is spent twice\<close>

definition spent_ids :: "(utxo_id \<rightharpoonup> u64 \<times> bool) \<Rightarrow> utxo_id set" where
  "spent_ids m = {i. \<exists>v. m i = Some (v, True)}"

lemma spend_ids_spent:
  "spend_ids is m = Some m' \<Longrightarrow>
    distinct is \<and> set is \<inter> spent_ids m = {} \<and> spent_ids m' = spent_ids m \<union> set is"
proof (induction "is" arbitrary: m)
  case (Cons i "is")
  then obtain v where v: "m i = Some (v, False)" "spend_ids is (m(i \<mapsto> (v, True))) = Some m'"
    by (auto simp del: fun_upd_apply split: option.splits prod.splits bool.splits)
  have "spent_ids (m(i \<mapsto> (v, True))) = insert i (spent_ids m)" by (auto simp: spent_ids_def)
  moreover have "i \<notin> spent_ids m" using v(1) by (simp add: spent_ids_def)
  ultimately show ?case using Cons.IH [OF v(2)] by (auto simp del: fun_upd_apply)
qed simp

lemma create_ids_spent: "create_ids is m = Some m' \<Longrightarrow> spent_ids m' = spent_ids m"
proof (induction "is" m rule: create_ids.induct)
  case (2 i v "is" m)
  then have m: "m i = None" "create_ids is (m(i \<mapsto> (v, False))) = Some m'"
    by (auto simp del: fun_upd_apply split: option.splits)
  have "spent_ids (m(i \<mapsto> (v, False))) = spent_ids m" using m(1) by (auto simp: spent_ids_def)
  with 2(1) [OF m] show ?case by (simp del: fun_upd_apply)
qed simp

lemma token_step_spent:
  assumes "token_step h td m = Some m'"
  shows "distinct (map (vin_id (tdPropertyID td)) (tdVins td)) \<and>
    vin_id (tdPropertyID td) ` set (tdVins td) \<inter> spent_ids m = {} \<and>
    spent_ids m' = spent_ids m \<union> vin_id (tdPropertyID td) ` set (tdVins td)"
proof -
  obtain m1 where "spend_ids (map (vin_id (tdPropertyID td)) (tdVins td)) m = Some m1"
    "create_ids (map (vout_id (tdPropertyID td) h) (List.enumerate 0 (Vouts td))) m1 = Some m'"
    using assms by (auto simp: token_step_def bind_eq_Some_conv)
  from spend_ids_spent [OF this(1)] create_ids_spent [OF this(2)] show ?thesis by simp
qed

definition tx_ids :: "Tx \<times> TxTokenData \<Rightarrow> utxo_id list" where
  "tx_ids t = map (vin_id (tdPropertyID (snd t))) (tdVins (snd t))"

definition hashes_ok :: "'db ChainEnv \<Rightarrow> Tx \<times> TxTokenData \<Rightarrow> bool" where
  "hashes_ok e t \<longleftrightarrow> length (tdPropertyID (snd t)) = HashSize \<and>
     list_all (\<lambda>vin. length (viTxCustomTokenID vin) = HashSize) (tdVins (snd t)) \<and>
     (case Transaction_Hash e (TxCustomToken (fst t) (snd t)) of None \<Rightarrow> False | Some h \<Rightarrow> length h = HashSize)"

lemma history_run:
  assumes c: "leveldb_contract (ceLdb e)" and sha: "\<And>b. length (ceSha256 e b) = 32"
  shows "ch_for txs (\<lambda>(tx, td). StoreCustomTokenPaymentAddresstHistory e tx td) d = (d', Inr u) \<Longrightarrow>
    utxo_rel (ceSha256 e) (ceLdb e) d m \<Longrightarrow> list_all (hashes_ok e) txs \<Longrightarrow>
    \<exists>m'. utxo_rel (ceSha256 e) (ceLdb e) d' m' \<and> distinct (concat (map tx_ids txs)) \<and>
      set (concat (map tx_ids txs)) \<inter> spent_ids m = {} \<and> spent_ids m' = spent_ids m \<union> set (concat (map tx_ids txs))"
proof (induction txs arbitrary: d m)
  case Nil
  then show ?case by (auto simp: ch_return_def)
next
  case (Cons t txs)
  obtain tx td where t: "t = (tx, td)" by (cases t)
  obtain d1 where r: "StoreCustomTokenPaymentAddresstHistory e tx td d = (d1, Inr ())"
    "ch_for txs (\<lambda>(tx, td). StoreCustomTokenPaymentAddresstHistory e tx td) d1 = (d', Inr u)"
    using Cons.prems(1) unfolding ch_for_Cons_run t by (auto split: prod.splits sum.splits)
  obtain h where ok: "length (tdPropertyID td) = HashSize" "length h = HashSize"
    "\<forall>vin \<in> set (tdVins td). length (viTxCustomTokenID vin) = HashSize" "Transaction_Hash e (TxCustomToken tx td) = Some h"
    using Cons.prems(3) by (auto simp: t hashes_ok_def list_all_iff split: option.splits)
  obtain m1 where m1: "token_step h td m = Some m1" "utxo_rel (ceSha256 e) (ceLdb e) d1 m1"
    using token_history_refines [OF c sha Cons.prems(2) ok, unfolded r(1)] by (auto simp: step_result_def split: option.splits)
  have ids: "tx_ids (tx, td) = map (vin_id (tdPropertyID td)) (tdVins td)" by (simp add: tx_ids_def)
  note S = token_step_spent [OF m1(1)]
  obtain m' where "utxo_rel (ceSha256 e) (ceLdb e) d' m'" "distinct (concat (map tx_ids txs))"
    "set (concat (map tx_ids txs)) \<inter> spent_ids m1 = {}" "spent_ids m' = spent_ids m1 \<union> set (concat (map tx_ids txs))"
    using Cons.IH [OF r(2) m1(2)] Cons.prems(3) by auto
  then show ?case using S by (intro exI [of _ m']) (auto simp: t ids)
qed

text \<open>
  C29. No token output is spent twice. Let the database hold an abstract state and let a sequence
  of token transactions be stored, one after the other, without error. Then all their inputs
  together are distinct, none of them was spent before, and the database holds a state in which they all are.
\<close>

theorem token_inputs_spent_once:
  assumes "leveldb_contract (ceLdb e)" "\<And>b. length (ceSha256 e b) = 32"
    and "utxo_rel (ceSha256 e) (ceLdb e) d m" "list_all (hashes_ok e) txs"
    and "ch_for txs (\<lambda>(tx, td). StoreCustomTokenPaymentAddresstHistory e tx td) d = (d', Inr u)"
  shows "distinct (concat (map tx_ids txs)) \<and> set (concat (map tx_ids txs)) \<inter> spent_ids m = {} \<and>
    (\<exists>m'. utxo_rel (ceSha256 e) (ceLdb e) d' m' \<and> set (concat (map tx_ids txs)) \<subseteq> spent_ids m')"
  using history_run [OF assms(1,2,5,3,4)] by blast


section \<open>Balances\<close>

text \<open>What the code relies on when it iterates over a prefix: each key once, with its value, and no other key.\<close>

locale leveldb_iter = leveldb_contract l for l :: "'db leveldb" +
  fixes it :: "'db prefix_iter"
  assumes iter_set: "set (it d p) = {(k, v). take (length p) k = p \<and> ldb_Get l d k = Inr v}"
    and iter_distinct: "distinct (map fst (it d p))"

text \<open>An in-memory database as an association list with its iterator.\<close>

definition alist_leveldb :: "(bytes \<times> bytes) list leveldb" where
  "alist_leveldb =
    \<lparr>ldb_Get = (\<lambda>d k. case map_of d k of None \<Rightarrow> Inl ErrNotFound | Some v \<Rightarrow> Inr v),
     ldb_Has = (\<lambda>d k. Inr (map_of d k \<noteq> None)),
     ldb_Put = (\<lambda>d k v. Inr (AList.update k v d)),
     ldb_Delete = (\<lambda>d k. Inr (AList.delete k d))\<rparr>"

definition alist_iter :: "(bytes \<times> bytes) list prefix_iter" where
  "alist_iter d p = filter (\<lambda>(k, v). take (length p) k = p) (AList.clearjunk d)"

interpretation alist: leveldb_iter alist_leveldb alist_iter
proof unfold_locales
  show "set (alist_iter d p) = {(k, v). take (length p) k = p \<and> ldb_Get alist_leveldb d k = Inr v}" for d p
    by (auto simp: alist_iter_def alist_leveldb_def map_of_eq_Some_iff [symmetric] map_of_clearjunk split: option.splits)
  show "distinct (map fst (alist_iter d p))" for d p
    by (simp add: alist_iter_def distinct_map_filter)
qed (auto simp: alist_leveldb_def AList.update_conv' AList.delete_conv' split: option.splits)

text \<open>The texts of values and addresses survive being read back.\<close>

lemma char_of_str_bytes: "map (\<lambda>x. char_of (unat x)) (str_bytes s) = s"
proof -
  have "char_of (unat (of_char c :: u8)) = c" for c
  proof -
    have "unat (word_of_nat (of_char c) :: u8) = take_bit 8 (of_char c)" by (simp add: unsigned_of_nat)
    also have "\<dots> = of_char c" by (rule take_bit_nat_eq_self) (use nat_of_char_less_256 [of c] in simp)
    finally show ?thesis by (simp add: of_nat_of_char)
  qed
  then show ?thesis by (simp add: str_bytes_def comp_def)
qed

lemma sint_u64_bounds: "- (2 ^ 63) \<le> sint (v :: u64)" "sint (v :: u64) < 2 ^ 63"
  using sint_ge [of v] sint_lt [of v] by simp_all

lemma Atoi_or_Itoa: "- (2 ^ 63) \<le> i \<Longrightarrow> i < 2 ^ 63 \<Longrightarrow> Atoi_or (str_bytes (Itoa i)) = i"
proof -
  assume i: "- (2 ^ 63) \<le> i" "i < 2 ^ 63"
  obtain c cs where c: "nat_digits (nat i) = c # cs" "digit c" using nat_digits_hd by blast
  then have ne: "c \<noteq> CHR ''-''" "c \<noteq> CHR ''+''" by (auto simp: digit_def)
  show ?thesis
    using i nat_digits_value [of "nat i"] nat_digits_value [of "nat (- i)"] c ne
    unfolding Atoi_or_def char_of_str_bytes by (auto simp: Itoa_def Let_def)
qed

lemma utxo_amount: "word_of_int (Atoi_or (str_bytes (Itoa (sint (v :: u64))))) = v"
  by (simp only: Atoi_or_Itoa [OF sint_u64_bounds]) simp

lemma address_text_b58:
  assumes "\<And>b. length (sha b) = 32" "33 \<le> length p"
  shows "address_text sha (str_bytes (Base58Check_Encode sha p 0)) = Some (str_bytes (Base58Check_Encode sha p 0))"
  using Base58Check_roundtrip [of sha p 0, OF assms(1)] assms(2)
  by (simp add: address_text_def char_of_str_bytes PaymentAddress_SetBytes_def PaymentAddress_Bytes_def)

text \<open>The loop over the entries adds up, for each address, the values of its unspent outputs.\<close>

definition entry_amount :: "bytes \<Rightarrow> bytes \<times> bytes \<Rightarrow> u64" where
  "entry_amount a kv =
    (if nth_part (fst kv) 2 = Some a \<and> nth_part (snd kv) 1 = Some Unspent
     then word_of_int (Atoi_or (the (nth_part (snd kv) 0))) else 0)"

lemma sum_balances_total:
  assumes "\<forall>(k, v) \<in> set kvs. (\<exists>a. nth_part k 2 = Some a \<and> addr a = Some a) \<and> (\<exists>u. v = utxo_text u)"
  shows "\<exists>res'. sum_balances addr (\<lambda>_. True) kvs res = Some res' \<and>
    (\<forall>a. go_get 0 res' a = go_get 0 res a + sum_list (map (entry_amount a) kvs))"
  using assms
proof (induction kvs arbitrary: res)
  case (Cons kv kvs)
  obtain k v where kv: "kv = (k, v)" by (cases kv)
  obtain a u where a: "nth_part k 2 = Some a" "addr a = Some a" "v = utxo_text u" using Cons.prems kv by auto
  define res1 where "res1 = (if snd u then res else res(a \<mapsto> go_get 0 res a + fst u))"
  have step: "sum_balances addr (\<lambda>_. True) (kv # kvs) res = sum_balances addr (\<lambda>_. True) kvs res1"
    using a by (simp add: kv res1_def utxo_amount)
  have amt: "go_get 0 res1 b = go_get 0 res b + entry_amount b kv" for b
    using a by (auto simp: res1_def kv entry_amount_def go_get_def utxo_amount)
  show ?case unfolding step using Cons.IH [of res1] Cons.prems amt by (auto simp: add.assoc)
qed simp

definition utxo_only :: "(bytes \<Rightarrow> bytes) \<Rightarrow> 'db leveldb \<Rightarrow> 'db \<Rightarrow> hash \<Rightarrow> bool" where
  "utxo_only sha l d t \<longleftrightarrow>
    (\<forall>k v. take (length (TokenPaymentAddressPrefix @ Splitter @ str_bytes (Hash_String t))) k =
        TokenPaymentAddressPrefix @ Splitter @ str_bytes (Hash_String t) \<and> ldb_Get l d k = Inr v \<longrightarrow>
      (\<exists>p h i. 33 \<le> length p \<and> length h = HashSize \<and> k = utxoKey sha t p h (uint (i::u8))))"


lemma utxoKey_prefix:
  "take (length (TokenPaymentAddressPrefix @ Splitter @ str_bytes (Hash_String t))) (utxoKey sha t p h i) =
     TokenPaymentAddressPrefix @ Splitter @ str_bytes (Hash_String t)"
  by (simp add: utxoKey_def)

definition unspent_of :: "(utxo_id \<rightharpoonup> u64 \<times> bool) \<Rightarrow> hash \<Rightarrow> bytes \<Rightarrow> (hash \<times> u8) set" where
  "unspent_of m t p = {(h, i). length h = HashSize \<and> (\<exists>v. m (t, p, h, i) = Some (v, False))}"

text \<open>The entries that count for one owner are the keys of its unspent outputs.\<close>

lemma entries_of_owner:
  assumes it: "leveldb_iter l it" and sha: "\<And>b. length (sha b) = 32" and R: "utxo_rel sha l d m"
    and only: "utxo_only sha l d t" and t: "length t = HashSize"
  defines "kvs \<equiv> it d (TokenPaymentAddressPrefix @ Splitter @ str_bytes (Hash_String t))"
  shows "sum_list (map (entry_amount (str_bytes (Base58Check_Encode sha p 0))) kvs) =
      (\<Sum>(h, i) \<in> unspent_of m t p. fst (the (m (t, p, h, i))))"
proof -
  let ?a = "str_bytes (Base58Check_Encode sha p 0)"
  let ?g = "\<lambda>(h, i :: u8). (utxoKey sha t p h (uint i), utxo_text (the (m (t, p, h, i))))"
  have kvs: "set kvs = {(k, v). take (length (TokenPaymentAddressPrefix @ Splitter @ str_bytes (Hash_String t))) k =
      TokenPaymentAddressPrefix @ Splitter @ str_bytes (Hash_String t) \<and> ldb_Get l d k = Inr v}"
    unfolding kvs_def by (rule leveldb_iter.iter_set [OF it])
  have get: "length h = HashSize \<Longrightarrow> ldb_Get l d (utxoKey sha t q h (uint i)) =
      (case m (t, q, h, i) of None \<Rightarrow> Inl ErrNotFound | Some u \<Rightarrow> Inr (utxo_text u))" for q h i
    using R t by (simp add: utxo_rel_def)
  have sub: "?g ` unspent_of m t p \<subseteq> set kvs"
    using get utxoKey_prefix by (auto simp: kvs unspent_of_def simp del: length_append)
  have zero: "entry_amount ?a kv = 0" if kv: "kv \<in> set kvs - ?g ` unspent_of m t p" for kv
  proof -
    obtain q h i u where q: "kv = (utxoKey sha t q h (uint i), utxo_text u)" "length h = HashSize" "m (t, q, h, i) = Some u"
    proof -
      obtain k v where v: "kv = (k, v)" "ldb_Get l d k = Inr v" using kv kvs by (cases kv) auto
      then obtain q h i where "length h = HashSize" "k = utxoKey sha t q h (uint (i::u8))"
        using only kv kvs unfolding utxo_only_def by blast
      with v get [of h q i] that show thesis by (auto split: option.splits)
    qed
    have "\<not> (q = p \<and> \<not> snd u)"
    proof
      assume "q = p \<and> \<not> snd u"
      then have "(h, i) \<in> unspent_of m t p" "kv = ?g (h, i)" using q by (cases u; auto simp: unspent_of_def)+
      then show False using kv by blast
    qed
    then show ?thesis
      using q Base58Check_Encode_inj [OF sha] by (auto simp: entry_amount_def utxoKey_parts str_bytes_inj)
  qed
  have inj: "inj_on ?g (unspent_of m t p)"
    using utxoKey_inj [OF sha t t] by (auto simp: inj_on_def unspent_of_def)
  have "sum_list (map (entry_amount ?a) kvs) = (\<Sum>kv \<in> set kvs. entry_amount ?a kv)"
    using leveldb_iter.iter_distinct [OF it] by (simp add: kvs_def sum_list_distinct_conv_sum_set distinct_map)
  also have "\<dots> = (\<Sum>kv \<in> ?g ` unspent_of m t p. entry_amount ?a kv)"
    by (rule sum.mono_neutral_right) (use sub zero in auto)
  also have "\<dots> = (\<Sum>x \<in> unspent_of m t p. entry_amount ?a (?g x))"
    by (simp add: sum.reindex [OF inj])
  also have "\<dots> = (\<Sum>(h, i) \<in> unspent_of m t p. fst (the (m (t, p, h, i))))"
    by (rule sum.cong) (auto simp: entry_amount_def utxoKey_parts utxo_amount unspent_of_def)
  finally show ?thesis .
qed

text \<open>
  The balances of a token are its unspent outputs. When the database holds an abstract state and
  nothing else under the token's prefix, \<open>GetCustomTokenPaymentAddressesBalance\<close> does not panic, and
  the balance it reports for an owner is the sum, modulo \<open>2^64\<close>, of the values of the outputs of this owner that
  are not spent.
\<close>

theorem balance_is_unspent_sum:
  assumes "leveldb_iter l it" "\<And>b. length (sha b) = 32" "utxo_rel sha l d m"
    and "utxo_only sha l d t" "length t = HashSize"
  shows "\<exists>res. GetCustomTokenPaymentAddressesBalance sha it t d = Some res \<and>
    (\<forall>p. go_get 0 res (str_bytes (Base58Check_Encode sha p 0)) =
       (\<Sum>(h, i) \<in> unspent_of m t p. fst (the (m (t, p, h, i)))))"
proof -
  let ?kvs = "it d (TokenPaymentAddressPrefix @ Splitter @ str_bytes (Hash_String t))"
  have "(\<exists>a. nth_part k 2 = Some a \<and> address_text sha a = Some a) \<and> (\<exists>u. v = utxo_text u)"
    if kv: "(k, v) \<in> set ?kvs" for k v
  proof -
    have g: "ldb_Get l d k = Inr v" using kv leveldb_iter.iter_set [OF assms(1)] by simp
    obtain p h i where p: "33 \<le> length p" "length h = HashSize" "k = utxoKey sha t p h (uint (i::u8))"
      using assms(4) kv leveldb_iter.iter_set [OF assms(1)] unfolding utxo_only_def by blast
    have "\<exists>u. v = utxo_text u"
      using g assms(3,5) p by (auto simp: utxo_rel_def split: option.splits)
    then show ?thesis using address_text_b58 [OF assms(2) p(1)] by (simp add: p utxoKey_parts)
  qed
  then obtain res where "sum_balances (address_text sha) (\<lambda>_. True) ?kvs Map.empty = Some res"
    "\<forall>a. go_get 0 res a = go_get 0 Map.empty a + sum_list (map (entry_amount a) ?kvs)"
    using sum_balances_total [of ?kvs "address_text sha" Map.empty] by blast
  then show ?thesis
    using entries_of_owner [OF assms] by (simp add: GetCustomTokenPaymentAddressesBalance_def go_get_def)
qed

section \<open>Where the history goes wrong\<close>

lemma mem_spend_unspent:
  assumes "utxo_rel sha mem_leveldb d m" "length t = HashSize" "length (viTxCustomTokenID vin) = HashSize"
    and "m (vin_id t vin) = Some (v, False)"
  shows "\<exists>d1. spend_vin sha mem_leveldb t vin d = (d1, Inr ())"
proof -
  have "ldb_Get mem_leveldb d (utxoKey sha t (PaymentAddress_Bytes (viPaymentAddress vin)) (viTxCustomTokenID vin)
      (viVoutIndex vin)) = Inr (utxo_text (v, False))"
    using mem.utxo_rel_get [OF assms(1-3)] assms(4) by (simp add: vin_id_def)
  then show ?thesis
    using mem.has_found by (simp add: spend_vin_def Let_def chm_defs dbm_defs) (simp add: mem_leveldb_def)
qed

text \<open>
  A refused transaction loses its earlier inputs. When the first of two inputs is unspent and the second
  already spent, storing the transaction reports the double spend, and the first input is left marked as spent.
\<close>

theorem refused_tx_spends_inputs:
  assumes "utxo_rel (ceSha256 e) mem_leveldb d m" "ceLdb e = mem_leveldb" "\<And>b. length (ceSha256 e b) = 32"
    and "tdVins td = [a, b]" "length (tdPropertyID td) = HashSize"
    and "length (viTxCustomTokenID a) = HashSize" "length (viTxCustomTokenID b) = HashSize"
    and "m (vin_id (tdPropertyID td) a) = Some (v, False)" "m (vin_id (tdPropertyID td) b) = Some (w, True)"
  shows "\<exists>d'. StoreCustomTokenPaymentAddresstHistory e tx td d = (d', Inl DoubleSpendDetected) \<and>
    utxo_rel (ceSha256 e) mem_leveldb d' (m(vin_id (tdPropertyID td) a \<mapsto> (v, True)))"
proof -
  let ?s = "spend_vin (ceSha256 e) mem_leveldb (tdPropertyID td)"
  obtain d1 where s1: "?s a d = (d1, Inr ())"
    using mem_spend_unspent [OF assms(1,5,6,8)] by blast
  have R1: "utxo_rel (ceSha256 e) mem_leveldb d1 (m(vin_id (tdPropertyID td) a \<mapsto> (v, True)))"
    using mem.spend_vin_spec [OF assms(3,1,5,6) s1] assms(8) by simp
  obtain d2 r2 where s2: "?s b d1 = (d2, r2)" by (cases "?s b d1")
  have "(m(vin_id (tdPropertyID td) a \<mapsto> (v, True))) (vin_id (tdPropertyID td) b) = Some (w, True)"
    using assms(8,9) by (auto)
  then have "r2 = Inl DoubleSpendDetected" "d2 = d1"
    using mem.spend_vin_spec [OF assms(3) R1 assms(5,7) s2] by (simp_all del: fun_upd_apply)
  then have "StoreCustomTokenPaymentAddresstHistory e tx td d = (d1, Inl DoubleSpendDetected)"
    using s1 s2 assms(2,4) by (simp add: StoreCustomTokenPaymentAddresstHistory_def Let_def chm_defs)
  then show ?thesis using R1 by blast
qed


text \<open>
  Rewarding an output destroys its entry: after \<open>UpdateRewardAccountUTXO\<close> the text has no
  separators left, and the next transaction that spends the output panics.
\<close>

lemma rewared_bracket: "91 \<notin> set rewared"
  by (simp add: rewared_def bracket_str)

theorem rewarded_output_panics:
  assumes c: "leveldb_contract l" and "ldb_Get l d (utxoKey sha t p h i) = Inr (utxo_text u)"
    and "UpdateRewardAccountUTXO sha l t p h i d = (d', Inr x)"
    and vin: "PaymentAddress_Bytes (viPaymentAddress vin) = p" "viTxCustomTokenID vin = h" "viVoutIndex vin = i"
  shows "spend_vin sha l t vin d' = (d', Inl Panicked)"
proof -
  let ?k = "utxoKey sha t p h i"
  let ?v = "str_bytes (Itoa (sint (fst u))) @ (if snd u then Spent else Unspent) @ rewared"
  note has = leveldb_contract.has_found [OF c]
  have "ldb_Put l d ?k ?v = Inr d'"
    using assms(2,3) has [OF assms(2)]
    by (auto simp: UpdateRewardAccountUTXO_def Let_def dbm_defs split: sum.splits)
  from leveldb_contract.put_get [OF c this] have g: "ldb_Get l d' ?k = Inr ?v" .
  have "split_parts ?v = [?v]" by (rule split_parts_last) (simp add: no_bracket status_bracket rewared_bracket)
  then have "nth_part ?v 1 = None" by (simp add: nth_part_def)
  then show ?thesis using g has [OF g] vin by (simp add: spend_vin_def Let_def chm_defs dbm_defs)
qed

section \<open>Examples\<close>

definition sample_tid :: hash where
  "sample_tid = replicate 32 1"

definition sample_owner :: PaymentAddress where
  "sample_owner = \<lparr>paPk = replicate 33 2, paTk = replicate 33 3\<rparr>"

definition sample_vin :: "int \<Rightarrow> TxTokenVin" where
  "sample_vin i = \<lparr>viTxCustomTokenID = sample_hash, viVoutIndex = i, viSignature = [], viPaymentAddress = sample_owner\<rparr>"

definition sample_token :: "TxTokenVin list \<Rightarrow> TxTokenVout list \<Rightarrow> TxTokenData" where
  "sample_token vins vouts =
     \<lparr>tdPropertyID = sample_tid, tdPropertyName = ''a'', tdPropertySymbol = ''b'', tdType = 1, tdMintable = False,
      tdAmount = 0, tdVins = vins, tdVouts = Some vouts\<rparr>"

definition sample_utxo_key :: "int \<Rightarrow> bytes" where
  "sample_utxo_key i = utxoKey toy_sha sample_tid (PaymentAddress_Bytes sample_owner) sample_hash i"

definition sample_utxos :: "utxo_id \<rightharpoonup> u64 \<times> bool" where
  "sample_utxos = [vin_id sample_tid (sample_vin 0) \<mapsto> (5, False), vin_id sample_tid (sample_vin 1) \<mapsto> (6, True)]"

definition sample_utxo_db :: "bytes \<rightharpoonup> bytes" where
  "sample_utxo_db = [sample_utxo_key 0 \<mapsto> utxo_text (5, False), sample_utxo_key 1 \<mapsto> utxo_text (6, True)]"

lemma toy_sha_32: "length (toy_sha b) = 32"
  by (simp add: toy_sha_def)

lemma sample_sizes [simp]:
  "length (viTxCustomTokenID (sample_vin i)) = HashSize" "length sample_tid = HashSize"
  "tdPropertyID (sample_token vi vo) = sample_tid" "tdVins (sample_token vi vo) = vi" "Vouts (sample_token vi vo) = vo"
  "ceSha256 sample_env = toy_sha" "ceLdb sample_env = mem_leveldb"
  by (simp_all add: sample_vin_def sample_hash_def sample_tid_def HashSize_def sample_token_def Vouts_def sample_env_def)

lemma sample_rel: "utxo_rel toy_sha mem_leveldb sample_utxo_db sample_utxos"
proof -
  let ?p = "PaymentAddress_Bytes sample_owner"
  have p: "ldb_Put mem_leveldb d k v = Inr (d(k \<mapsto> v))" for d k v by (simp add: mem_leveldb_def)
  have t: "length sample_tid = HashSize" "length sample_hash = HashSize"
    by (simp_all add: sample_hash_def HashSize_def)
  have e: "utxo_rel toy_sha mem_leveldb Map.empty Map.empty" by (simp add: utxo_rel_def mem_leveldb_def)
  note one = mem.utxo_rel_put [OF toy_sha_32 e t, of ?p 0 "(5, False)"]
  from mem.utxo_rel_put [OF toy_sha_32 one t, of _ ?p 1 "(6, True)"]
  show ?thesis
    by (simp add: p sample_utxo_db_def sample_utxos_def vin_id_def sample_utxo_key_def sample_vin_def)
qed

lemma sample_utxos_at:
  "sample_utxos (vin_id sample_tid (sample_vin 0)) = Some (5, False)"
  "sample_utxos (vin_id sample_tid (sample_vin 1)) = Some (6, True)"
  by (simp_all add: sample_utxos_def vin_id_def sample_vin_def)

theorem refused_tx_spends_inputs_witness:
  "\<exists>d'. StoreCustomTokenPaymentAddresstHistory sample_env (sample_tx [] []) (sample_token [sample_vin 0, sample_vin 1] []) sample_utxo_db =
      (d', Inl DoubleSpendDetected) \<and> 
    utxo_rel toy_sha mem_leveldb d' (sample_utxos(vin_id sample_tid (sample_vin 0) \<mapsto> (5, True)))"
  using refused_tx_spends_inputs [of sample_env sample_utxo_db sample_utxos "sample_token [sample_vin 0, sample_vin 1] []"
      "sample_vin 0" "sample_vin 1" 5 6] sample_rel toy_sha_32 sample_utxos_at
  by (simp del: fun_upd_apply)

lemma sample_token_hash: "\<exists>h. Transaction_Hash sample_env (TxCustomToken (sample_tx [] []) (sample_token vi vo)) = Some h \<and> length h = HashSize"
  by (simp add: TxTokenData_Hash_def sample_token_def sample_tx_def HashH_def DoubleHashH_def sample_env_def toy_sha_def HashSize_def Let_def)

theorem token_history_refines_witness:
  "\<exists>h. step_result toy_sha mem_leveldb (StoreCustomTokenPaymentAddresstHistory sample_env (sample_tx [] [])
        (sample_token [sample_vin 0, sample_vin 0] []) sample_utxo_db) (token_step h (sample_token [sample_vin 0, sample_vin 0] []) sample_utxos)
     \<and> token_step h (sample_token [sample_vin 0, sample_vin 0] []) sample_utxos = None"
proof -
  let ?td = "sample_token [sample_vin 0, sample_vin 0] []"
  obtain h where h: "Transaction_Hash sample_env (TxCustomToken (sample_tx [] []) ?td) = Some h" "length h = HashSize"
    using sample_token_hash by blast
  have "token_step h ?td sample_utxos = None" by (simp add: token_step_def sample_utxos_at)
  then show ?thesis
    using token_history_refines [of sample_env sample_utxo_db sample_utxos ?td h "sample_tx [] []"] h sample_rel toy_sha_32
      mem.leveldb_contract_axioms by (intro exI [of _ h]) (simp del: Transaction_Hash.simps)
qed

theorem token_inputs_spent_once_witness:
  "\<exists>d'. ch_for [(sample_tx [] [], sample_token [sample_vin 0] [])]
      (\<lambda>(tx, td). StoreCustomTokenPaymentAddresstHistory sample_env tx td) sample_utxo_db = (d', Inr ()) \<and>
    (\<exists>m'. utxo_rel toy_sha mem_leveldb d' m' \<and> {vin_id sample_tid (sample_vin 0)} \<subseteq> spent_ids m')"
proof -
  let ?td = "sample_token [sample_vin 0] []"
  obtain h where h: "Transaction_Hash sample_env (TxCustomToken (sample_tx [] []) ?td) = Some h" "length h = HashSize"
    using sample_token_hash by blast
  obtain d1 where "spend_vin toy_sha mem_leveldb sample_tid (sample_vin 0) sample_utxo_db = (d1, Inr ())"
    using mem_spend_unspent [OF sample_rel, of sample_tid "sample_vin 0" 5] sample_utxos_at by auto
  then have r: "ch_for [(sample_tx [] [], ?td)] (\<lambda>(tx, td). StoreCustomTokenPaymentAddresstHistory sample_env tx td) sample_utxo_db = (d1, Inr ())"
    using h by (simp add: StoreCustomTokenPaymentAddresstHistory_def Let_def chm_defs del: Transaction_Hash.simps)
  have ok: "list_all (hashes_ok sample_env) [(sample_tx [] [], ?td)]"
    using h by (simp add: hashes_ok_def del: Transaction_Hash.simps)
  show ?thesis
    using token_inputs_spent_once [OF _ _ _ ok r] r sample_rel toy_sha_32 mem.leveldb_contract_axioms
    by (simp add: tx_ids_def del: ch_for.simps)
qed

theorem rewarded_output_panics_witness:
  "\<exists>d'. UpdateRewardAccountUTXO toy_sha mem_leveldb sample_tid (PaymentAddress_Bytes sample_owner) sample_hash 0
       [sample_utxo_key 0 \<mapsto> utxo_text (5, False)] = (d', Inr ()) \<and>
     spend_vin toy_sha mem_leveldb sample_tid (sample_vin 0) d' = (d', Inl Panicked)"
proof -
  let ?d = "[sample_utxo_key 0 \<mapsto> utxo_text (5, False)]"
  have g: "ldb_Get mem_leveldb ?d (utxoKey toy_sha sample_tid (PaymentAddress_Bytes sample_owner) sample_hash 0) =
      Inr (utxo_text (5, False))" by (simp add: mem_leveldb_def sample_utxo_key_def)
  have "\<exists>d'. UpdateRewardAccountUTXO toy_sha mem_leveldb sample_tid (PaymentAddress_Bytes sample_owner) sample_hash 0 ?d = (d', Inr ())"
    by (simp add: UpdateRewardAccountUTXO_def Let_def dbm_defs mem_leveldb_def sample_utxo_key_def)
  then obtain d' where u: "UpdateRewardAccountUTXO toy_sha mem_leveldb sample_tid (PaymentAddress_Bytes sample_owner) sample_hash 0 ?d = (d', Inr ())"
    by blast
  show ?thesis
    using u rewarded_output_panics [OF mem.leveldb_contract_axioms g u, of "sample_vin 0"] by (simp add: sample_vin_def)
qed

theorem balance_is_unspent_sum_witness:
  "\<exists>res. GetCustomTokenPaymentAddressesBalance toy_sha alist_iter sample_tid [(sample_utxo_key 0, utxo_text (5, False))] = Some res \<and>
     go_get 0 res (str_bytes (Base58Check_Encode toy_sha (PaymentAddress_Bytes sample_owner) 0)) = 5"
proof -
  let ?t = sample_tid and ?p = "PaymentAddress_Bytes sample_owner"
  let ?m = "[(?t, ?p, sample_hash, 0) \<mapsto> (5, False)] :: utxo_id \<rightharpoonup> u64 \<times> bool"
  let ?d = "[(sample_utxo_key 0, utxo_text (5, False))]"
  have t: "length ?t = HashSize" "length sample_hash = HashSize" by (simp_all add: sample_hash_def sample_tid_def HashSize_def)
  have e: "utxo_rel toy_sha alist_leveldb [] Map.empty" by (simp add: utxo_rel_def alist_leveldb_def)
  have put: "ldb_Put alist_leveldb [] (utxoKey toy_sha ?t ?p sample_hash 0) (utxo_text (5, False)) = Inr ?d"
    by (simp add: alist_leveldb_def sample_utxo_key_def)
  have R: "utxo_rel toy_sha alist_leveldb ?d ?m" using alist.utxo_rel_put [OF toy_sha_32 e t put] by simp
  have "33 \<le> length ?p" by (simp add: PaymentAddress_Bytes_def sample_owner_def)
  moreover have "k = sample_utxo_key 0" if "ldb_Get alist_leveldb ?d k = Inr v" for k v
    using that by (auto simp: alist_leveldb_def split: if_splits)
  ultimately have only: "utxo_only toy_sha alist_leveldb ?d ?t"
    unfolding utxo_only_def sample_utxo_key_def using t(2) by (metis unsigned_0)
  have set: "unspent_of ?m ?t ?p = {(sample_hash, 0)}" using t by (auto simp: unspent_of_def split: if_splits)
  show ?thesis
    using balance_is_unspent_sum [OF alist.leveldb_iter_axioms toy_sha_32 R only t(1)] by (auto simp: set dest!: spec [of _ ?p])
qed

end
