(* ===== verification/Token_Tx.thy ===== *)
theory Token_Tx
  imports Tx_Pool Token_Db
begin

text \<open>
  The token part of a new token transaction (\<open>Init\<close> of \<open>src/transaction/txcustomtoken.go\<close>) and what the pool
  and the chain check about it. Shown: the outputs of a transfer add up to the inputs in 64-bit arithmetic, so a payment
  above the inputs gives a huge refund; and no check of the pool looks at the amounts or the
  receivers of a token transfer, which no signature covers.
\<close>

section \<open>Building the token data\<close>

definition CustomTokenTransfer :: int where "CustomTokenTransfer = 1"

record CustomTokenParamTx =
  cpPropertyID :: string
  cpPropertyName :: string
  cpPropertySymbol :: string
  cpAmount :: u64
  cpTokenTxType :: int
  cpReceiver :: "TxTokenVout list option"
  cpVins :: "TxTokenVin list"
  cpVinsAmount :: u64

definition SetVins :: "TxTokenVin list \<Rightarrow> CustomTokenParamTx \<Rightarrow> CustomTokenParamTx" where
  "SetVins vins p = p\<lparr>cpVins := vins\<rparr>"

definition SetVinsAmount :: "u64 \<Rightarrow> CustomTokenParamTx \<Rightarrow> CustomTokenParamTx" where
  "SetVinsAmount vinsAmount p = p\<lparr>cpVinsAmount := vinsAmount\<rparr>"

datatype token_tx_error = UnexpectedErr | WrongTokenTxType | CustomTokenExisted

definition receivers :: "CustomTokenParamTx \<Rightarrow> TxTokenVout list" where
  "receivers p = (case cpReceiver p of None \<Rightarrow> [] | Some rs \<Rightarrow> rs)"

definition token_data :: "CustomTokenParamTx \<Rightarrow> TxTokenData" where
  "token_data p =
     \<lparr>tdPropertyID = replicate HashSize 0, tdPropertyName = cpPropertyName p, tdPropertySymbol = cpPropertySymbol p,
      tdType = cpTokenTxType p, tdMintable = False, tdAmount = 0, tdVins = [], tdVouts = None\<rparr>"

text \<open>
  The three kinds. \<open>None\<close> is a panic: no receiver of a new token, a token ID that is no hash, a refund without an
  input.
\<close>

definition cross_token_data :: "CustomTokenParamTx \<Rightarrow> token_tx_error + TxTokenData" where
  "cross_token_data p =
    (case NewHashFromStr (cpPropertyID p) of
       Inl _ \<Rightarrow> Inl UnexpectedErr
     | Inr propertyID \<Rightarrow>
         Inr ((token_data p)\<lparr>tdPropertyID := propertyID, tdAmount := cpAmount p, tdVouts := cpReceiver p\<rparr>))"

definition new_token_data :: "'db ChainEnv \<Rightarrow> u8 \<Rightarrow> hash list \<Rightarrow> CustomTokenParamTx \<Rightarrow> (token_tx_error + TxTokenData) option" where
  "new_token_data e shardID listCustomTokens p =
    (case receivers p of
       [] \<Rightarrow> None
     | receiver # _ \<Rightarrow>
         (let d = (token_data p)\<lparr>tdAmount := cpAmount p, tdVouts := Some [receiver]\<rparr>
          in case TxTokenData_Hash e d of
               None \<Rightarrow> Some (Inl WrongTokenTxType)
             | Some hashInitToken \<Rightarrow>
                 (let newHashInitToken = HashH e (hashInitToken @ [shardID])
                  in if list_ex (\<lambda>customTokenID. Hash_String newHashInitToken = Hash_String customTokenID) listCustomTokens
                     then Some (Inl CustomTokenExisted)
                     else Some (Inr (d\<lparr>tdPropertyID := newHashInitToken\<rparr>)))))"

definition transfer_vouts :: "CustomTokenParamTx \<Rightarrow> TxTokenVout list option" where
  "transfer_vouts p =
    (let paymentTokenAmount = fold (\<lambda>r sum. sum + voValue r) (receivers p) 0;
         refundTokenAmount = cpVinsAmount p - paymentTokenAmount
     in if refundTokenAmount > 0 then
          (case cpVins p of
             [] \<Rightarrow> None
           | vin # _ \<Rightarrow> Some (receivers p @ [\<lparr>voValue = refundTokenAmount, voPaymentAddress = viPaymentAddress vin\<rparr>]))
        else Some (receivers p))"

text \<open>No receivers and no refund leave the outputs nil.\<close>

definition transfer_token_data :: "hash list \<Rightarrow> CustomTokenParamTx \<Rightarrow> (token_tx_error + TxTokenData) option" where
  "transfer_token_data listCustomTokens p =
    (case NewHashFromStr (cpPropertyID p) of
       Inl _ \<Rightarrow> None
     | Inr propertyID \<Rightarrow>
         if propertyID \<notin> set listCustomTokens then Some (Inl UnexpectedErr)
         else map_option (\<lambda>vouts. Inr ((token_data p)
           \<lparr>tdPropertyID := propertyID, tdVins := cpVins p, tdVouts := (if vouts = [] then None else Some vouts)\<rparr>))
           (transfer_vouts p))"

text \<open>\<open>normalTx\<close> is the coin part as \<open>Tx.Init\<close> builds it.\<close>

definition TxCustomToken_Init ::
  "'db ChainEnv \<Rightarrow> (token_tx_error + Tx) \<Rightarrow> CustomTokenParamTx \<Rightarrow> hash list \<Rightarrow> u8 \<Rightarrow> (token_tx_error + Transaction) option" where
  "TxCustomToken_Init e normalTx p listCustomTokens shardID =
    (case normalTx of
       Inl _ \<Rightarrow> Some (Inl UnexpectedErr)
     | Inr tx \<Rightarrow>
         map_option (map_sum id (TxCustomToken (tx\<lparr>txType := TxCustomTokenType\<rparr>)))
           (if cpTokenTxType p = CustomTokenCrossShard then Some (cross_token_data p)
            else if cpTokenTxType p = CustomTokenInit then new_token_data e shardID listCustomTokens p
            else if cpTokenTxType p = CustomTokenTransfer then transfer_token_data listCustomTokens p
            else Some (Inl WrongTokenTxType)))"

section \<open>Amounts\<close>

lemma fold_values: "fold (\<lambda>r sum. sum + voValue r) rs a = a + sum_list (map voValue rs)"
  by (induction rs arbitrary: a) (auto simp: add.assoc)

lemma word_diff_unat: "unat (a - b :: u64) = (if unat b \<le> unat a then unat a - unat b else 2 ^ 64 + unat a - unat b)"
  by (auto simp: unat_sub_if')

text \<open>
  C25. The outputs of a transfer. Their amounts add up, as 64-bit words, to the amount of the inputs; a refund of
  \<open>2\<^sup>6\<^sup>4 + inputs - payments\<close> is written when the payments exceed the inputs, and of \<open>inputs - payments\<close> otherwise,
  unless this is zero.
\<close>

theorem transfer_refund_wraps:
  assumes "TxCustomToken_Init e (Inr tx) p tokens sid = Some (Inr (TxCustomToken tx' d))" "cpTokenTxType p = CustomTokenTransfer"
    and "pay = sum_list (map voValue (receivers p))"
  shows "sum_list (map voValue (Vouts d)) = cpVinsAmount p \<and>
    (if pay = cpVinsAmount p then Vouts d = receivers p
     else \<exists>refund. butlast (Vouts d) = receivers p \<and> voValue (last (Vouts d)) = refund \<and>
       unat refund = (if unat pay \<le> unat (cpVinsAmount p) then unat (cpVinsAmount p) - unat pay
         else 2 ^ 64 + unat (cpVinsAmount p) - unat pay))"
proof -
  have ty: "cpTokenTxType p \<noteq> CustomTokenCrossShard" "cpTokenTxType p \<noteq> CustomTokenInit"
    using assms(2) by (simp_all add: CustomTokenTransfer_def CustomTokenCrossShard_def CustomTokenInit_def)
  obtain vs where v: "transfer_vouts p = Some vs" "Vouts d = vs"
    using assms(1,2) ty by (auto simp: TxCustomToken_Init_def transfer_token_data_def Vouts_def split: sum.splits if_splits)
  have pay: "fold (\<lambda>r sum. sum + voValue r) (receivers p) 0 = pay" using assms(3) fold_values [of "receivers p" 0] by simp
  show ?thesis
  proof (cases "pay = cpVinsAmount p")
    case True
    then show ?thesis using v pay assms(3) by (auto simp: transfer_vouts_def)
  next
    case False
    then have "cpVinsAmount p - pay > 0" by (simp add: word_gt_0)
    then obtain a where "vs = receivers p @ [\<lparr>voValue = cpVinsAmount p - pay, voPaymentAddress = a\<rparr>]"
      using v(1) pay by (auto simp: transfer_vouts_def Let_def split: list.splits)
    then show ?thesis using v(2) False assms(3) word_diff_unat [of "cpVinsAmount p" pay] by simp
  qed
qed

section \<open>What the checks see\<close>

definition vouts_sane :: "TxTokenData \<Rightarrow> bool" where
  "vouts_sane d \<longleftrightarrow> list_all (\<lambda>v. paPk (voPaymentAddress v) \<noteq> [] \<and> voValue v \<noteq> 0) (Vouts d)"

text \<open>
  C24. The outputs of a token transfer are covered by nothing. Take a token transaction without metadata that issues no token and whose
  outputs all have receivers and amounts other than zero, and replace these outputs by any others that have them too. Every check
  of the pool gives the same verdict: neither the signature of the coin part nor those of the inputs cover the outputs, and the amounts of the
  outputs are never compared with those of the inputs.
\<close>

theorem token_outputs_unsigned:
  assumes "txMetadata tx = None" "tdType d \<noteq> CustomTokenInit" "vouts_sane d" "vouts_sane (d\<lparr>tdVouts := vs\<rparr>)"
  shows "mempool_checks pe shardID (TxCustomToken tx (d\<lparr>tdVouts := vs\<rparr>)) tp = mempool_checks pe shardID (TxCustomToken tx d) tp"
proof -
  let ?d = "d\<lparr>tdVouts := vs\<rparr>"
  have s: "ValidateSanityData e (TxCustomToken tx ?d) = ValidateSanityData e (TxCustomToken tx d)" for e :: "'a ChainEnv"
    using assms(1,3,4)
    by (auto simp: meta_sanity_first_def validateCustomTokenTxSanityData_def vouts_sane_def list_ex_iff list_all_iff Vouts_def
        split: prod.split)
  have dl: "double_spend_loop ?d ts = double_spend_loop d ts" for ts
  proof (induction ts)
    case (Cons t ts)
    have "validateDoubleSpendCustomTokenOnTx ?d t = validateDoubleSpendCustomTokenOnTx d t"
      by (cases t) (simp_all add: vins_conflict_def)
    then show ?case using Cons by (simp split: option.split bool.split)
  qed simp
  have m: "ValidateTxWithCurrentMempool (TxCustomToken tx ?d) sns ts = ValidateTxWithCurrentMempool (TxCustomToken tx d) sns ts" for sns ts
    by (simp add: dl)
  have b: "ValidateTxWithBlockChain e n (TxCustomToken tx ?d) = ValidateTxWithBlockChain e n (TxCustomToken tx d)" for e :: "'a ChainEnv" and n
    using assms(1) by (auto simp: validateDoubleSpendCustomTokenWithBlockchain_def dl split: option.split)
  have i: "ValidateTxByItself e p n (TxCustomToken tx ?d) = ValidateTxByItself e p n (TxCustomToken tx d)" for e :: "'a ChainEnv" and p n
  proof -
    have tv: "TxCustomToken_ValidateTransaction e u p n t tx ?d = TxCustomToken_ValidateTransaction e u p n t tx d" for u t
      by (simp add: TxCustomToken_ValidateTransaction_def)
    have gl: "getListUTXOFromTxCustomToken e ?d = getListUTXOFromTxCustomToken e d" by (simp add: getListUTXOFromTxCustomToken_def)
    show ?thesis using assms(2) unfolding ValidateTxByItself.simps TxCustomToken_ValidateTxByItself_def tv gl by simp
  qed
  have k: "ValidateType (TxCustomToken tx ?d) = ValidateType (TxCustomToken tx d)"
    "IsPrivacy (TxCustomToken tx ?d) = IsPrivacy (TxCustomToken tx d)" by simp_all
  show ?thesis
    unfolding mempool_checks_def Let_def baseTx.simps Transaction.Transaction.case s m b i k using assms(2) by simp
qed

section \<open>Examples\<close>

definition sample_param :: CustomTokenParamTx where
  "sample_param =
    \<lparr>cpPropertyID = Hash_String sample_tid, cpPropertyName = ''a'', cpPropertySymbol = ''b'', cpAmount = 0, cpTokenTxType = 1,
     cpReceiver = Some [\<lparr>voValue = 5, voPaymentAddress = sample_owner\<rparr>], cpVins = [sample_vin 0], cpVinsAmount = 3\<rparr>"

theorem transfer_refund_wraps_witness:
  "\<exists>tx' d. TxCustomToken_Init sample_env (Inr (sample_tx [] [])) sample_param [sample_tid] 0 = Some (Inr (TxCustomToken tx' d)) \<and>
     sum_list (map voValue (Vouts d)) = 3 \<and> unat (voValue (last (Vouts d))) = 2 ^ 64 - 2"
proof -
  have "NewHashFromStr (Hash_String sample_tid) = Inr sample_tid"
    by (rule NewHashFromStr_String) (simp add: sample_tid_def HashSize_def)
  then obtain tx' d where i: "TxCustomToken_Init sample_env (Inr (sample_tx [] [])) sample_param [sample_tid] 0 = Some (Inr (TxCustomToken tx' d))"
    by (auto simp: TxCustomToken_Init_def transfer_token_data_def transfer_vouts_def sample_param_def receivers_def word_gt_0
        CustomTokenTransfer_def CustomTokenCrossShard_def CustomTokenInit_def)
  have "cpTokenTxType sample_param = CustomTokenTransfer" "cpVinsAmount sample_param = 3" "sum_list (map voValue (receivers sample_param)) = 5"
    by (simp_all add: sample_param_def CustomTokenTransfer_def receivers_def)
  then show ?thesis using i transfer_refund_wraps [OF i _ refl] by auto
qed

text \<open>A token that claims to come from another shard enters the pool with any amount.\<close>

definition sample_mint :: "u64 \<Rightarrow> TxTokenData" where
  "sample_mint v = (sample_token [] [\<lparr>voValue = v, voPaymentAddress = sample_owner\<rparr>])\<lparr>tdType := 2\<rparr>"

theorem token_outputs_unsigned_witness:
  "mempool_checks (sample_pool_env\<lparr>peChain := sample_chain\<lparr>ceGetCustomTokenTxs := (\<lambda>_. Some [])\<rparr>\<rparr>) 0
     (TxCustomToken ((sample_tx [] [])\<lparr>txType := TxCustomTokenType\<rparr>) (sample_mint 1000000)) (TxPool_Init []) = Some None"
proof -
  let ?tx = "(sample_tx [] [])\<lparr>txType := TxCustomTokenType\<rparr>"
  let ?e = "sample_chain\<lparr>ceGetCustomTokenTxs := (\<lambda>_. Some [])\<rparr>"
  let ?pe = "sample_pool_env\<lparr>peChain := ?e\<rparr>"
  have g: "GetTxActualSize ?tx = 1" by (simp add: GetTxActualSize_def sample_tx_def TxCustomTokenType_def Let_def)
  have f: "CheckTransactionFee ?e ?tx 2 = Some True"
    unfolding CheckTransactionFee_def Let_def g
    by (simp add: sample_tx_def IsSalaryTx_def TxCustomTokenType_def TxSalaryType_def)
  let ?t = "TxCustomToken ?tx (sample_mint 1)"
  have ty: "txType ?tx = TxCustomTokenType" "txMetadata ?tx = None" "tdType (sample_mint 1) = 2" "tdVins (sample_mint 1) = []"
    "Vouts (sample_mint 1) = [\<lparr>voValue = 1, voPaymentAddress = sample_owner\<rparr>]"
    by (simp_all add: sample_mint_def sample_token_def Vouts_def sample_tx_def)
  have sane: "Tx_ValidateSanityData ?e ?tx = (True, True)"
    by (simp add: Tx_ValidateSanityData_def meta_sanity_first_def validateNormalTxSanityData_def TxVersion_def sample_tx_def sample_chain_def)
  have v: "CheckTxVersion ?tx MaxVersion" "IsSalaryTx ?tx = Some False" "\<not> is_staking ?tx" "ListNullifiers ?tx = []"
    by (simp_all add: CheckTxVersion_def MaxVersion_def TxVersion_def IsSalaryTx_def is_staking_def ListNullifiers_def
        sample_tx_def TxCustomTokenType_def TxSalaryType_def)
  have s: "ValidateSanityData ?e ?t = (True, True)"
    using sane ty by (simp add: meta_sanity_first_def validateCustomTokenTxSanityData_def sample_owner_def)
  have m: "ValidateTxWithCurrentMempool ?t [] [] = Some True"
    using ty v by (simp add: Tx_ValidateTxWithCurrentMempool_def mempool_double_spend_iff TxCustomTokenType_def TxSalaryType_def)
  have b: "ValidateTxWithBlockChain ?e 0 ?t = Some True"
    using ty v by (simp add: ValidateConstDoubleSpendWithBlockchain_def validateDoubleSpendCustomTokenWithBlockchain_def
        CustomTokenCrossShard_def TxCustomTokenType_def TxSalaryType_def)
  have i: "ValidateTxByItself ?e p 0 ?t = Some True" for p
    using ty by (simp add: TxCustomToken_ValidateTxByItself_def CustomTokenCrossShard_def CustomTokenInit_def
        Tx_ValidateTransaction_def CheckDuplicateBigIntArray_def sample_chain_def sample_tx_def TxCustomTokenType_def TxSalaryType_def)
  have p: "GetSerialNumbers (TxPool_Init []) = []" "GetTxsInMem (TxPool_Init []) = []" "peChain ?pe = ?e" "peFeePerKbTx ?pe = 2"
    by (simp_all add: GetSerialNumbers_def GetTxsInMem_def TxPool_Init_def sample_pool_env_def)
  have "mempool_checks ?pe 0 ?t (TxPool_Init []) = Some None"
    unfolding mempool_checks_def Let_def p baseTx.simps f list.map s m b i using v ty by (simp add: CustomTokenInit_def)
  then show ?thesis
    using token_outputs_unsigned [of ?tx "sample_mint 1" "Some [\<lparr>voValue = 1000000, voPaymentAddress = sample_owner\<rparr>]" ?pe 0 "TxPool_Init []"]
    by (simp add: sample_mint_def sample_token_def vouts_sane_def Vouts_def CustomTokenInit_def sample_tx_def sample_owner_def)
qed

end
