(* ===== verification/Tx_View.thy ===== *)
theory Tx_View
  imports Token_Db Block_Pool "HOL-Library.List_Lexorder" "HOL-Library.Char_ord"
begin

text \<open>
  What a stored shard block adds to the database: \<open>src/blockchain/txviewpoint.go\<close> collects the serial
  numbers, commitments, output coins and derivators of the transactions, and the \<open>Store...\<close> and
  \<open>CreateAndSave...\<close> functions of \<open>src/blockchain/blockchain.go\<close> write them, with the index of
  transactions (\<open>src/database/lvdb/tx.go\<close>) and its look-ups. A Go map with text keys is an association list without
  repeated keys; the order in which Go iterates over the token transactions of a block is the argument
  \<open>order\<close>. Shown: serial numbers of a stored block are found afterwards, derivators never are, and
  what goes wrong with token transactions of one block.
\<close>

section \<open>The view of a block\<close>

record 'sub View =
  vwTokenID :: hash
  vwShardID :: u8
  vwListSerialNumbers :: "bytes list"
  vwMapSnD :: "(string \<times> nat list) list"
  vwMapCommitments :: "(string \<times> bytes list) list"
  vwMapOutputCoins :: "(string \<times> Coin list) list"
  vwCustomTokenTxs :: "(u32 \<times> Tx \<times> TxTokenData) list"
  vwPrivacyCustomTokens :: "(u32 \<times> 'sub \<times> Tx \<times> TxTokenPrivacyData) list"

text \<open>The view of a privacy token transaction has no token transactions of its own.\<close>

type_synonym SubView = "unit View"
type_synonym TxViewPoint = "SubView View"

definition NewTxViewPoint :: "u8 \<Rightarrow> 'sub View" where
  "NewTxViewPoint shardID =
     \<lparr>vwTokenID = ConstantID, vwShardID = shardID, vwListSerialNumbers = [], vwMapSnD = [], vwMapCommitments = [],
      vwMapOutputCoins = [], vwCustomTokenTxs = [], vwPrivacyCustomTokens = []\<rparr>"

text \<open>\<open>m[k] = append(m[k], xs...)\<close>.\<close>

definition append_at :: "'k \<Rightarrow> 'x list \<Rightarrow> ('k \<times> 'x list) list \<Rightarrow> ('k \<times> 'x list) list" where
  "append_at k xs m = AList.update k ((case map_of m k of None \<Rightarrow> [] | Some ys \<Rightarrow> ys) @ xs) m"

definition merge_lists :: "('k \<times> 'x list) list \<Rightarrow> ('k \<times> 'x list) list \<Rightarrow> ('k \<times> 'x list) list" where
  "merge_lists new m = fold (\<lambda>(k, xs). append_at k xs) new m"

type_synonym fetched = "(string \<times> bytes list) list \<times> (string \<times> Coin list) list \<times> (string \<times> nat list) list"

text \<open>
  One output coin. \<open>wallet\<close> is the local wallet of a light node, as the test for its public keys; the
  callers pass none. The look-ups of the tables give no errors.
\<close>

definition fetch_output ::
  "(bytes \<Rightarrow> bytes) \<Rightarrow> 'db leveldb \<Rightarrow> 'db \<Rightarrow> u8 \<Rightarrow> hash \<Rightarrow> (bytes \<Rightarrow> bool) option \<Rightarrow> Coin \<Rightarrow> fetched \<Rightarrow> db_error + fetched" where
  "fetch_output sha l d shardID tokenID wallet item acc =
    (let (cms, ocs, snds) = acc;
         pubkeyStr = Base58Check_Encode sha (coPublicKey item) 0
     in case snd (HasCommitment l tokenID (coCoinCommitment item) shardID d) of
          Inl err \<Rightarrow> Inl err
        | Inr ok \<Rightarrow>
            (let cms' = (if ok then cms else append_at pubkeyStr [coCoinCommitment item] cms);
                 keep = (case wallet of None \<Rightarrow> True | Some contains \<Rightarrow> contains (coPublicKey item));
                 ocs' = (if \<not> ok \<and> keep then append_at pubkeyStr [item] ocs else ocs);
                 snds' = (case snd (HasSNDerivator l tokenID (coSNDerivator item) shardID d) of
                            Inr False \<Rightarrow> append_at pubkeyStr [coSNDerivator item] snds
                          | _ \<Rightarrow> snds)
             in Inr (cms', ocs', snds')))"

fun fetch_outputs ::
  "(bytes \<Rightarrow> bytes) \<Rightarrow> 'db leveldb \<Rightarrow> 'db \<Rightarrow> u8 \<Rightarrow> hash \<Rightarrow> (bytes \<Rightarrow> bool) option \<Rightarrow> Coin list \<Rightarrow> fetched \<Rightarrow> db_error + fetched" where
  "fetch_outputs sha l d shardID tokenID wallet [] acc = Inr acc"
| "fetch_outputs sha l d shardID tokenID wallet (c # cs) acc =
    (case fetch_output sha l d shardID tokenID wallet c acc of
       Inl err \<Rightarrow> Inl err
     | Inr acc' \<Rightarrow> fetch_outputs sha l d shardID tokenID wallet cs acc')"

fun new_serials :: "'db leveldb \<Rightarrow> 'db \<Rightarrow> u8 \<Rightarrow> hash \<Rightarrow> Coin list \<Rightarrow> bytes list \<Rightarrow> db_error + bytes list" where
  "new_serials l d shardID tokenID [] acc = Inr acc"
| "new_serials l d shardID tokenID (c # cs) acc =
    (case snd (HasSerialNumber l tokenID (coSerialNumber c) shardID d) of
       Inl err \<Rightarrow> Inl err
     | Inr ok \<Rightarrow> new_serials l d shardID tokenID cs (if ok then acc else acc @ [coSerialNumber c]))"

definition processFetchTxViewPoint ::
  "(bytes \<Rightarrow> bytes) \<Rightarrow> 'db leveldb \<Rightarrow> u8 \<Rightarrow> 'db \<Rightarrow> PaymentProof option \<Rightarrow> hash \<Rightarrow> (bytes \<Rightarrow> bool) option \<Rightarrow>
   db_error + bytes list \<times> fetched" where
  "processFetchTxViewPoint sha l shardID d prf tokenID wallet =
    (case prf of
       None \<Rightarrow> Inr ([], [], [], [])
     | Some p \<Rightarrow>
         (case new_serials l d shardID tokenID (ppInputCoins p) [] of
            Inl err \<Rightarrow> Inl err
          | Inr sns \<Rightarrow>
              (case fetch_outputs sha l d shardID tokenID wallet (ppOutputCoins p) ([], [], []) of
                 Inl err \<Rightarrow> Inl err
               | Inr f \<Rightarrow> Inr (sns, f))))"

text \<open>
  One transaction of the block. The derivators of the coin part are appended to themselves and dropped:
  what the block accumulates has no entry for them. An unexpected kind of transaction panics in the
  type assertion, an unknown type is an error.
\<close>

definition view_base ::
  "'db ChainEnv \<Rightarrow> 'db \<Rightarrow> u8 \<Rightarrow> (bytes \<Rightarrow> bool) option \<Rightarrow> Tx \<Rightarrow> TxViewPoint \<Rightarrow> chain_error + TxViewPoint" where
  "view_base e d shardID wallet tx vw =
    (case processFetchTxViewPoint (ceSha256 e) (ceLdb e) shardID d (txProof tx) ConstantID wallet of
       Inl err \<Rightarrow> Inl (FromDb err)
     | Inr (sns, cms, ocs, snds) \<Rightarrow>
         Inr (vw\<lparr>vwListSerialNumbers := vwListSerialNumbers vw @ sns,
                vwMapCommitments := merge_lists cms (vwMapCommitments vw),
                vwMapOutputCoins := merge_lists ocs (vwMapOutputCoins vw)\<rparr>))"

definition sub_view ::
  "'db ChainEnv \<Rightarrow> 'db \<Rightarrow> u8 \<Rightarrow> (bytes \<Rightarrow> bool) option \<Rightarrow> TxTokenPrivacyData \<Rightarrow> chain_error + SubView" where
  "sub_view e d shardID wallet pd =
    (case processFetchTxViewPoint (ceSha256 e) (ceLdb e) shardID d (txProof (pdTxNormal pd)) (pdPropertyID pd) wallet of
       Inl err \<Rightarrow> Inl (FromDb err)
     | Inr (sns, cms, ocs, snds) \<Rightarrow>
         Inr ((NewTxViewPoint shardID)
           \<lparr>vwTokenID := pdPropertyID pd, vwListSerialNumbers := sns, vwMapCommitments := merge_lists cms [],
            vwMapOutputCoins := merge_lists ocs [], vwMapSnD := merge_lists snds []\<rparr>))"

definition view_tx ::
  "'db ChainEnv \<Rightarrow> 'db \<Rightarrow> u8 \<Rightarrow> (bytes \<Rightarrow> bool) option \<Rightarrow> nat \<times> Transaction \<Rightarrow> TxViewPoint \<Rightarrow> chain_error + TxViewPoint" where
  "view_tx e d shardID wallet it vw =
    (let (indexTx, t) = it; ty = txType (baseTx t)
     in if ty = TxNormalType \<or> ty = TxSalaryType then
          (case t of NormalTx tx \<Rightarrow> view_base e d shardID wallet tx vw | _ \<Rightarrow> Inl Panicked)
        else if ty = TxCustomTokenType then
          (case t of
             TxCustomToken tx td \<Rightarrow>
               (case view_base e d shardID wallet tx vw of
                  Inl err \<Rightarrow> Inl err
                | Inr vw \<Rightarrow> Inr (vw\<lparr>vwCustomTokenTxs := vwCustomTokenTxs vw @ [(word_of_nat indexTx, tx, td)]\<rparr>))
           | _ \<Rightarrow> Inl Panicked)
        else if ty = TxCustomTokenPrivacyType then
          (case t of
             TxCustomTokenPrivacy tx pd \<Rightarrow>
               (case view_base e d shardID wallet tx vw of
                  Inl err \<Rightarrow> Inl err
                | Inr vw \<Rightarrow>
                    (case sub_view e d shardID wallet pd of
                       Inl err \<Rightarrow> Inl err
                     | Inr sub \<Rightarrow>
                         Inr (vw\<lparr>vwPrivacyCustomTokens := vwPrivacyCustomTokens vw @ [(word_of_nat indexTx, sub, tx, pd)]\<rparr>)))
           | _ \<Rightarrow> Inl Panicked)
        else Inl BadTxType)"

fun view_txs ::
  "'db ChainEnv \<Rightarrow> 'db \<Rightarrow> u8 \<Rightarrow> (bytes \<Rightarrow> bool) option \<Rightarrow> (nat \<times> Transaction) list \<Rightarrow> TxViewPoint \<Rightarrow> chain_error + TxViewPoint" where
  "view_txs e d shardID wallet [] vw = Inr vw"
| "view_txs e d shardID wallet (t # ts) vw =
    (case view_tx e d shardID wallet t vw of Inl err \<Rightarrow> Inl err | Inr vw' \<Rightarrow> view_txs e d shardID wallet ts vw')"

definition fetchTxViewPointFromBlock ::
  "'db ChainEnv \<Rightarrow> 'db \<Rightarrow> ShardBody ShardBlock \<Rightarrow> (bytes \<Rightarrow> bool) option \<Rightarrow> TxViewPoint \<Rightarrow> chain_error + TxViewPoint" where
  "fetchTxViewPointFromBlock e d block wallet vw =
     view_txs e d (shShardID (sHeader block)) wallet (List.enumerate 0 (sbTransactions (sBody block))) vw"

text \<open>
  The coins that came from other shards. Go iterates over the shards in no fixed order; the association list of the
  block stands for one such order.
\<close>

definition processFetchCrossOutputViewPoint ::
  "(bytes \<Rightarrow> bytes) \<Rightarrow> 'db leveldb \<Rightarrow> u8 \<Rightarrow> 'db \<Rightarrow> Coin list \<Rightarrow> hash \<Rightarrow> (bytes \<Rightarrow> bool) option \<Rightarrow> db_error + fetched" where
  "processFetchCrossOutputViewPoint sha l shardID d outputCoins tokenID wallet =
     fetch_outputs sha l d shardID tokenID wallet outputCoins ([], [], [])"

fun cross_view ::
  "'db ChainEnv \<Rightarrow> 'db \<Rightarrow> u8 \<Rightarrow> (bytes \<Rightarrow> bool) option \<Rightarrow> CrossOutputCoin list \<Rightarrow> SubView \<Rightarrow> chain_error + SubView" where
  "cross_view e d shardID wallet [] vw = Inr vw"
| "cross_view e d shardID wallet (c # cs) vw =
    (case processFetchCrossOutputViewPoint (ceSha256 e) (ceLdb e) shardID d (cocOutputCoin c) ConstantID wallet of
       Inl err \<Rightarrow> Inl (FromDb err)
     | Inr (cms, ocs, snds) \<Rightarrow>
         cross_view e d shardID wallet cs
           (vw\<lparr>vwMapCommitments := merge_lists cms (vwMapCommitments vw),
              vwMapOutputCoins := merge_lists ocs (vwMapOutputCoins vw)\<rparr>))"

definition fetchCrossOutputViewPointFromBlock ::
  "'db ChainEnv \<Rightarrow> 'db \<Rightarrow> ShardBody ShardBlock \<Rightarrow> (bytes \<Rightarrow> bool) option \<Rightarrow> SubView \<Rightarrow> chain_error + SubView" where
  "fetchCrossOutputViewPointFromBlock e d block wallet vw =
     cross_view e d (shShardID (sHeader block)) wallet (concat (map snd (sbCrossOutputCoin (sBody block)))) vw"


section \<open>Storing the view (blockchain.go)\<close>

text \<open>\<open>json.Marshal\<close> and \<open>json.Unmarshal\<close> on byte slices and on texts, \<open>OutputCoin.Bytes\<close>, and the decoder of blocks.\<close>

record Codecs =
  cdMarshal :: "bytes list \<Rightarrow> bytes option"
  cdUnmarshal :: "bytes \<Rightarrow> bytes list option"
  cdMarshalS :: "bytes list \<Rightarrow> bytes option"
  cdUnmarshalS :: "bytes \<Rightarrow> bytes list option"
  cdCoin :: "Coin \<Rightarrow> bytes"
  cdParseBlock :: "bytes \<Rightarrow> ShardBody ShardBlock option"

definition StoreSerialNumbersFromTxViewPoint :: "'db ChainEnv \<Rightarrow> Codecs \<Rightarrow> 'sub View \<Rightarrow> ('db, unit) chm" where
  "StoreSerialNumbersFromTxViewPoint e cd view =
     ch_for (vwListSerialNumbers view) (\<lambda>item1.
       from_db (StoreSerialNumbers (ceLdb e) (cdMarshal cd) (cdUnmarshal cd) (vwTokenID view) item1 (vwShardID view)))"

definition at_key :: "('k \<times> 'x list) list \<Rightarrow> 'k \<Rightarrow> 'x list" where
  "at_key m k = (case map_of m k of None \<Rightarrow> [] | Some xs \<Rightarrow> xs)"

definition StoreSNDerivatorsFromTxViewPoint :: "'db ChainEnv \<Rightarrow> Codecs \<Rightarrow> 'sub View \<Rightarrow> ('db, unit) chm" where
  "StoreSNDerivatorsFromTxViewPoint e cd view =
     ch_for (concat (map (at_key (vwMapSnD view)) (sort (map fst (vwMapCommitments view))))) (\<lambda>snd1.
       from_db (StoreSNDerivators (ceLdb e) (cdMarshalS cd) (cdUnmarshalS cd) (vwTokenID view) snd1 (vwShardID view)))"

text \<open>The entries of one public key are stored when the key belongs to the shard of the block.\<close>

definition store_of_key ::
  "'db ChainEnv \<Rightarrow> u8 \<Rightarrow> (string \<Rightarrow> 'x list) \<Rightarrow> (bytes \<Rightarrow> u8 \<Rightarrow> 'x \<Rightarrow> ('db, unit) dbm) \<Rightarrow> string \<Rightarrow> ('db, unit) chm" where
  "store_of_key e shardID items store k =
    (case Base58Check_Decode (ceSha256 e) k of
       Inl _ \<Rightarrow> ch_fail BadKeyText
     | Inr (pubkeyBytes, _) \<Rightarrow>
         if pubkeyBytes = [] then ch_fail Panicked
         else
           (let pubkeyShardID = GetShardIDFromLastByte (last pubkeyBytes)
            in if pubkeyShardID = shardID then ch_for (items k) (\<lambda>x. from_db (store pubkeyBytes pubkeyShardID x))
               else ch_return ()))"

definition StoreCommitmentsFromTxViewPoint :: "'db ChainEnv \<Rightarrow> Codecs \<Rightarrow> 'sub View \<Rightarrow> u8 \<Rightarrow> ('db, unit) chm" where
  "StoreCommitmentsFromTxViewPoint e cd view shardID =
     ch_then
       (ch_for (sort (map fst (vwMapCommitments view)))
         (store_of_key e shardID (at_key (vwMapCommitments view)) (\<lambda>pk _ com.
           StoreCommitments (ceLdb e) (cdMarshal cd) (cdUnmarshal cd) (vwTokenID view) pk com (vwShardID view))))
       (ch_for (sort (map fst (vwMapOutputCoins view)))
         (store_of_key e shardID (at_key (vwMapOutputCoins view)) (\<lambda>pk s outcoin.
           StoreOutputCoins (ceLdb e) (cdMarshal cd) (cdUnmarshal cd) (vwTokenID view) pk (cdCoin cd outcoin) s)))"

section \<open>The index of transactions (lvdb/tx.go) and look-ups\<close>

definition transactionKeyPrefix :: bytes where "transactionKeyPrefix = str_bytes ''tx-''"

definition StoreTransactionIndex :: "'db leveldb \<Rightarrow> hash \<Rightarrow> hash \<Rightarrow> nat \<Rightarrow> ('db, unit) dbm" where
  "StoreTransactionIndex l txId blockHash index =
     lvdb_Put l RawError (transactionKeyPrefix @ str_bytes (Hash_String txId))
       (str_bytes (Hash_String blockHash) @ Splitter @ str_bytes (Itoa (int index)))"

definition bytes_text :: "bytes \<Rightarrow> string" where
  "bytes_text b = map (\<lambda>x. char_of (unat x)) b"

definition GetTransactionIndexById :: "'db leveldb \<Rightarrow> hash \<Rightarrow> ('db, hash \<times> int) dbm" where
  "GetTransactionIndexById l txId =
    (let key = transactionKeyPrefix @ str_bytes (Hash_String txId)
     in (\<lambda>d. case db_then (db_HasValue l key) (db_Get l key) d of
          (d, Inl _) \<Rightarrow> (d, Inl ErrUnexpected)
        | (d, Inr res) \<Rightarrow>
            (case nth_part res 0 of
               None \<Rightarrow> (d, Inl GoPanic)
             | Some r0 \<Rightarrow>
                 (case NewHashFromStr (bytes_text r0) of
                    Inl _ \<Rightarrow> (d, Inl ErrUnexpected)
                  | Inr h \<Rightarrow>
                      (case nth_part res 1 of
                         None \<Rightarrow> (d, Inl GoPanic)
                       | Some r1 \<Rightarrow>
                           (case Atoi (bytes_text r1) of None \<Rightarrow> (d, Inl ErrUnexpected) | Some i \<Rightarrow> (d, Inr (h, i))))))))"

definition GetShardBlockByHash :: "'db ChainEnv \<Rightarrow> Codecs \<Rightarrow> hash \<Rightarrow> ('db, ShardBody ShardBlock) chm" where
  "GetShardBlockByHash e cd h =
     ch_bind (from_db (FetchBlock (ceLdb e) h)) (\<lambda>b.
       case cdParseBlock cd b of None \<Rightarrow> ch_fail (FromDb JsonError) | Some blk \<Rightarrow> ch_return blk)"

text \<open>A block that cannot be read panics: the message of the error reads the missing block.\<close>

definition GetTransactionByHash :: "'db ChainEnv \<Rightarrow> Codecs \<Rightarrow> hash \<Rightarrow> ('db, u8 \<times> hash \<times> int \<times> Transaction) chm" where
  "GetTransactionByHash e cd txHash =
     ch_bind (from_db (GetTransactionIndexById (ceLdb e) txHash)) (\<lambda>(blockHash, index) d.
       case GetShardBlockByHash e cd blockHash d of
         (d, Inl _) \<Rightarrow> (d, Inl Panicked)
       | (d, Inr blk) \<Rightarrow>
           if index < 0 \<or> index \<ge> int (length (sbTransactions (sBody blk))) then (d, Inl Panicked)
           else (d, Inr (shShardID (sHeader blk), blockHash, index, sbTransactions (sBody blk) ! nat index)))"

fun token_list :: "'db ChainEnv \<Rightarrow> Codecs \<Rightarrow> bytes list \<Rightarrow> hash list \<Rightarrow> ('db, hash list) chm" where
  "token_list e cd [] ids = ch_return ids"
| "token_list e cd (txData # ts) ids =
     ch_bind (GetTransactionByHash e cd (hash_or_zero txData)) (\<lambda>(_, _, _, tx).
       case tx of TxCustomToken _ td \<Rightarrow> token_list e cd ts (List.insert (tdPropertyID td) ids) | _ \<Rightarrow> ch_fail Panicked)"

text \<open>The keys of the map that \<open>ListCustomToken\<close> returns.\<close>

definition Chain_ListCustomToken :: "'db ChainEnv \<Rightarrow> Codecs \<Rightarrow> 'db prefix_iter \<Rightarrow> ('db, hash list) chm" where
  "Chain_ListCustomToken e cd it d = token_list e cd (ListCustomToken it d) [] d"

fun token_txs :: "'db ChainEnv \<Rightarrow> Codecs \<Rightarrow> hash list \<Rightarrow> Transaction list \<Rightarrow> ('db, Transaction list) chm" where
  "token_txs e cd [] txs = ch_return txs"
| "token_txs e cd (h # hs) txs =
     ch_bind (GetTransactionByHash e cd h) (\<lambda>(_, _, _, tx).
       case Transaction_Hash e tx of None \<Rightarrow> ch_fail Panicked | Some _ \<Rightarrow> token_txs e cd hs (txs @ [tx]))"

definition GetCustomTokenTxs :: "'db ChainEnv \<Rightarrow> Codecs \<Rightarrow> 'db prefix_iter \<Rightarrow> hash \<Rightarrow> ('db, Transaction list) chm" where
  "GetCustomTokenTxs e cd it tokenID d = token_txs e cd (CustomTokenTxs it tokenID d) [] d"

text \<open>The unspent outputs of an owner, each with its transaction and index.\<close>

fun unspent_vouts :: "PaymentAddress \<Rightarrow> (bytes \<times> bytes) list \<Rightarrow> (chain_error + (TxTokenVout \<times> hash \<times> nat) list)" where
  "unspent_vouts owner [] = Inr []"
| "unspent_vouts owner ((key, value) # kvs) =
    (case nth_part value 1 of
       None \<Rightarrow> Inl Panicked
     | Some st \<Rightarrow>
         if st = Unspent then
           (case nth_part key 3 of
              None \<Rightarrow> Inl Panicked
            | Some k3 \<Rightarrow>
                (case NewHashFromStr (bytes_text k3) of
                   Inl _ \<Rightarrow> Inl BadKeyText
                 | Inr txHash \<Rightarrow>
                     (case nth_part key 4 of
                        Some (voutIndexByte # _) \<Rightarrow>
                          (case Option.bind (nth_part value 0) (\<lambda>v. Atoi (bytes_text v)) of
                             None \<Rightarrow> Inl BadKeyText
                           | Some v \<Rightarrow>
                               (case unspent_vouts owner kvs of
                                  Inl err \<Rightarrow> Inl err
                                | Inr vs \<Rightarrow>
                                    Inr ((\<lparr>voValue = word_of_int v, voPaymentAddress = owner\<rparr>, txHash, unat voutIndexByte) # vs)))
                      | _ \<Rightarrow> Inl Panicked)))
         else unspent_vouts owner kvs)"

definition GetUnspentTxCustomTokenVout ::
  "(bytes \<Rightarrow> bytes) \<Rightarrow> 'db prefix_iter \<Rightarrow> PaymentAddress \<Rightarrow> hash \<Rightarrow> 'db \<Rightarrow> chain_error + (TxTokenVout \<times> hash \<times> nat) list" where
  "GetUnspentTxCustomTokenVout sha it owner tokenID d =
     unspent_vouts owner (it d (TokenPaymentAddressPrefix @ Splitter @ str_bytes (Hash_String tokenID) @ Splitter @
       str_bytes (Base58Check_Encode sha (PaymentAddress_Bytes owner) 0)))"

section \<open>Saving the view of a block\<close>

text \<open>Transaction hashes as bytes; a nil hash panics.\<close>

definition with_hash :: "'db ChainEnv \<Rightarrow> Transaction \<Rightarrow> (hash \<Rightarrow> ('db, 'a) chm) \<Rightarrow> ('db, 'a) chm" where
  "with_hash e t f = (case Transaction_Hash e t of None \<Rightarrow> ch_fail Panicked | Some h \<Rightarrow> f h)"

text \<open>
  One token transaction. In the cross shard case the variable of the error is a new one: an error of the look-up
  panics, an error of the store is dropped.
\<close>

definition register_token ::
  "'db ChainEnv \<Rightarrow> Codecs \<Rightarrow> 'db prefix_iter \<Rightarrow> Tx \<Rightarrow> TxTokenData \<Rightarrow> ('db, unit) chm" where
  "register_token e cd it tx td =
    (if tdType td = CustomTokenInit then
       with_hash e (TxCustomToken tx td) (\<lambda>h. from_db (StoreCustomToken (ceLdb e) (tdPropertyID td) h))
     else if tdType td = CustomTokenCrossShard then
       (\<lambda>d. case Chain_ListCustomToken e cd it d of
          (d, Inl _) \<Rightarrow> (d, Inl Panicked)
        | (d, Inr ids) \<Rightarrow>
            if tdPropertyID td \<in> set ids then (d, Inr ())
            else with_hash e (TxCustomToken tx td) (\<lambda>h d. (fst (StoreCustomToken (ceLdb e) (tdPropertyID td) h d), Inr ())) d)
     else ch_return ())"

definition save_token_tx ::
  "'db ChainEnv \<Rightarrow> Codecs \<Rightarrow> 'db prefix_iter \<Rightarrow> ShardHeader \<Rightarrow> u32 \<times> Tx \<times> TxTokenData \<Rightarrow> ('db, unit) chm" where
  "save_token_tx e cd it hdr itx =
    (let (indexTx, tx, td) = itx
     in ch_then (register_token e cd it tx td)
       (ch_then (StoreCustomTokenPaymentAddresstHistory e tx td)
       (ch_then (with_hash e (TxCustomToken tx td) (\<lambda>h.
          from_db (StoreCustomTokenTx (ceLdb e) (tdPropertyID td) (shShardID hdr) (shHeight hdr) indexTx h)))
       (if shHeight hdr mod 1000 = 0 then
          (\<lambda>d. case GetCustomTokenPaymentAddressesBalance (ceSha256 e) it (tdPropertyID td) d of
             None \<Rightarrow> (d, Inl Panicked)
           | Some snapshot \<Rightarrow> (d, Inr ()))
        else ch_return ()))))"

definition save_view :: "'db ChainEnv \<Rightarrow> Codecs \<Rightarrow> 'sub View \<Rightarrow> u8 \<Rightarrow> ('db, unit) chm" where
  "save_view e cd view shardID =
     ch_then (StoreSerialNumbersFromTxViewPoint e cd view)
       (ch_then (StoreCommitmentsFromTxViewPoint e cd view shardID) (StoreSNDerivatorsFromTxViewPoint e cd view))"

definition save_privacy_tx ::
  "'db ChainEnv \<Rightarrow> Codecs \<Rightarrow> ShardHeader \<Rightarrow> u32 \<times> SubView \<times> Tx \<times> TxTokenPrivacyData \<Rightarrow> ('db, unit) chm" where
  "save_privacy_tx e cd hdr itx =
    (let (indexTx, sub, tx, pd) = itx; t = TxCustomTokenPrivacy tx pd
     in ch_then
       (if pdType pd = CustomTokenInit then
          with_hash e t (\<lambda>h. from_db (StorePrivacyCustomToken (ceLdb e) (pdPropertyID pd) h))
        else ch_return ())
       (ch_then (with_hash e t (\<lambda>h.
          from_db (StorePrivacyCustomTokenTx (ceLdb e) (pdPropertyID pd) (shShardID hdr) (shHeight hdr) indexTx h)))
       (save_view e cd sub (shShardID hdr))))"

text \<open>Go visits the token transactions of the view, kept in maps, in any order: \<open>order\<close> and \<open>orderP\<close>.\<close>

definition CreateAndSaveTxViewPointFromBlock ::
  "'db ChainEnv \<Rightarrow> Codecs \<Rightarrow> 'db prefix_iter \<Rightarrow>
   ((u32 \<times> Tx \<times> TxTokenData) list \<Rightarrow> (u32 \<times> Tx \<times> TxTokenData) list) \<Rightarrow>
   ((u32 \<times> SubView \<times> Tx \<times> TxTokenPrivacyData) list \<Rightarrow> (u32 \<times> SubView \<times> Tx \<times> TxTokenPrivacyData) list) \<Rightarrow>
   ShardBody ShardBlock \<Rightarrow> ('db, unit) chm" where
  "CreateAndSaveTxViewPointFromBlock e cd it order orderP block d =
    (case fetchTxViewPointFromBlock e d block None (NewTxViewPoint (shShardID (sHeader block))) of
       Inl err \<Rightarrow> (d, Inl err)
     | Inr view \<Rightarrow>
         ch_then (ch_for (order (vwCustomTokenTxs view)) (save_token_tx e cd it (sHeader block)))
           (ch_then (ch_for (orderP (vwPrivacyCustomTokens view)) (save_privacy_tx e cd (sHeader block)))
             (save_view e cd view (shShardID (sHeader block)))) d)"

text \<open>The error of the fetch is overwritten: the view is then the empty one it started as.\<close>

definition CreateAndSaveCrossOutputCoinViewPointFromBlock ::
  "'db ChainEnv \<Rightarrow> Codecs \<Rightarrow> ShardBody ShardBlock \<Rightarrow> ('db, unit) chm" where
  "CreateAndSaveCrossOutputCoinViewPointFromBlock e cd block d =
    (let shardID = shShardID (sHeader block);
         view = (case fetchCrossOutputViewPointFromBlock e d block None (NewTxViewPoint shardID) of
                   Inl _ \<Rightarrow> NewTxViewPoint shardID | Inr view \<Rightarrow> view)
     in ch_then (StoreCommitmentsFromTxViewPoint e cd view shardID) (StoreSNDerivatorsFromTxViewPoint e cd view) d)"

text \<open>\<open>fetchCrossTxTokenDataViewPointFromBlock\<close> fetches nothing, so this stores the empty view.\<close>

definition CreateAndSaveCrossTxTokenDataViewPointFromBlock ::
  "'db ChainEnv \<Rightarrow> Codecs \<Rightarrow> ShardBody ShardBlock \<Rightarrow> ('db, unit) chm" where
  "CreateAndSaveCrossTxTokenDataViewPointFromBlock e cd block =
    (let view = (NewTxViewPoint (shShardID (sHeader block)) :: SubView)
     in ch_then (StoreCommitmentsFromTxViewPoint e cd view (shShardID (sHeader block)))
          (StoreSNDerivatorsFromTxViewPoint e cd view))"


section \<open>What the writes leave alone\<close>

text \<open>
  A relation between the database before and after a step that holds for every write to an admitted key,
  and so for every sequence of such writes.
\<close>

locale db_frame =
  fixes l :: "'db leveldb" and R :: "'db \<Rightarrow> 'db \<Rightarrow> bool" and ok :: "bytes \<Rightarrow> bool"
  assumes R_refl: "R d d" and R_trans: "R a b \<Longrightarrow> R b c \<Longrightarrow> R a c"
    and R_put: "ok k \<Longrightarrow> ldb_Put l d k v = Inr d' \<Longrightarrow> R d d'"
begin

definition db_R :: "('db, 'a) dbm \<Rightarrow> bool" where
  "db_R m \<longleftrightarrow> (\<forall>d. R d (fst (m d)))"

definition ch_R :: "('db, 'a) chm \<Rightarrow> bool" where
  "ch_R m \<longleftrightarrow> (\<forall>d. R d (fst (m d)))"

lemma db_R_return: "db_R (db_return x)" "db_R (db_fail err)"
  by (simp_all add: db_R_def db_return_def db_fail_def R_refl)

lemma db_R_bind: "db_R m \<Longrightarrow> (\<And>x. db_R (f x)) \<Longrightarrow> db_R (db_bind m f)"
  unfolding db_R_def
proof
  fix d
  assume m: "\<forall>d. R d (fst (m d))" and f: "\<And>x. \<forall>d. R d (fst (f x d))"
  obtain d1 r where d1: "m d = (d1, r)" by (cases "m d")
  have "R d d1" using m d1 by (metis fst_conv)
  then show "R d (fst (db_bind m f d))"
    using f R_trans by (cases r) (auto simp: db_bind_def d1)
qed

lemma db_R_then: "db_R m \<Longrightarrow> db_R k \<Longrightarrow> db_R (db_then m k)"
  by (simp add: db_then_def db_R_bind)

lemma db_R_put: "ok k \<Longrightarrow> db_R (lvdb_Put l err k v)"
  by (auto simp: db_R_def lvdb_Put_def R_refl split: sum.split intro: R_put)

lemma db_R_read: "db_R (lvdb_Get l err k)" "db_R (lvdb_Has l err k)" "db_R (fetch_array l ju err2 k)"
  by (auto simp: db_R_def lvdb_Get_def lvdb_Has_def fetch_array_def R_refl
      split: sum.split ldb_error.split option.split)

lemma db_R_put_array: "ok k \<Longrightarrow> db_R (put_array l jm err k xs)"
  by (auto simp: put_array_def db_R_return db_R_put split: option.split)

lemma ch_R_return: "ch_R (ch_return x)" "ch_R (ch_fail err)"
  by (simp_all add: ch_R_def ch_return_def ch_fail_def R_refl)

lemma ch_R_bind: "ch_R m \<Longrightarrow> (\<And>x. ch_R (f x)) \<Longrightarrow> ch_R (ch_bind m f)"
  unfolding ch_R_def
proof
  fix d
  assume m: "\<forall>d. R d (fst (m d))" and f: "\<And>x. \<forall>d. R d (fst (f x d))"
  obtain d1 r where d1: "m d = (d1, r)" by (cases "m d")
  have "R d d1" using m d1 by (metis fst_conv)
  then show "R d (fst (ch_bind m f d))"
    using f R_trans by (cases r) (auto simp: ch_bind_def d1)
qed

lemma ch_R_then: "ch_R m \<Longrightarrow> ch_R k \<Longrightarrow> ch_R (ch_then m k)"
  by (simp add: ch_then_def ch_R_bind)

lemma ch_R_from_db: "db_R m \<Longrightarrow> ch_R (from_db m)"
  unfolding ch_R_def db_R_def
proof
  fix d
  assume m: "\<forall>d. R d (fst (m d))"
  obtain d1 r where d1: "m d = (d1, r)" by (cases "m d")
  then show "R d (fst (from_db m d))" using m by (cases r) (auto simp: from_db_def d1 dest: spec [of _ d])
qed

lemma ch_R_for: "(\<And>x. x \<in> set xs \<Longrightarrow> ch_R (f x)) \<Longrightarrow> ch_R (ch_for xs f)"
  by (induction xs) (auto intro: ch_R_return ch_R_then)

lemmas db_R_intros = db_R_return db_R_bind db_R_then db_R_put db_R_read db_R_put_array
lemmas ch_R_intros = ch_R_return ch_R_bind ch_R_then ch_R_from_db ch_R_for

lemma Store_tables_R:
  "(\<And>x. ok (tableKey serialNumbersPrefix t s @ x)) \<Longrightarrow> db_R (StoreSerialNumbers l jm ju t sn s)"
  "(\<And>x. ok (tableKey commitmentsPrefix t s @ x)) \<Longrightarrow> db_R (StoreCommitments l jm ju t pk cm s)"
  "(\<And>x. ok (tableKey outcoinsPrefix t s @ x)) \<Longrightarrow> db_R (StoreOutputCoins l jm ju t pk oc s)"
  unfolding StoreSerialNumbers_def StoreCommitments_def StoreOutputCoins_def Let_def
  by (intro db_R_intros; metis append_Nil2)+

lemma StoreSNDerivators_R:
  assumes "\<And>x. ok (tableKey snderivatorsPrefix t s @ x)"
  shows "db_R (StoreSNDerivators l jm ju t n s)"
proof -
  have k: "ok (tableKey snderivatorsPrefix t s)" using assms [of "[]"] by simp
  have m: "db_R f \<Longrightarrow> db_R (db_then (lvdb_Put l RawError (tableKey snderivatorsPrefix t s @ be_write n) (be_write n))
      (db_bind f (\<lambda>arrData. put_array l jm UnexpectedError (tableKey snderivatorsPrefix t s) (arrData @ [be_write n]))))"
    for f by (intro db_R_then db_R_bind db_R_put db_R_put_array assms k)
  have read: "db_R (\<lambda>d. case res of Inl _ \<Rightarrow> (d, Inr [])
      | Inr r \<Rightarrow> if length r > 0 then (case ju r of None \<Rightarrow> (d, Inl UnexpectedError) | Some xs \<Rightarrow> (d, Inr xs)) else (d, Inr []))"
    for res :: "ldb_error + bytes"
    by (auto simp: db_R_def R_refl split: sum.split option.split)
  show ?thesis
    unfolding db_R_def
  proof
    fix d
    show "R d (fst (StoreSNDerivators l jm ju t n s d))"
    proof (cases "ldb_Get l d (tableKey snderivatorsPrefix t s) = Inl ErrIO")
      case True
      then show ?thesis by (simp add: StoreSNDerivators_def Let_def R_refl)
    next
      case False
      show ?thesis
        using m [OF read, of "ldb_Get l d (tableKey snderivatorsPrefix t s)"] False
        unfolding db_R_def StoreSNDerivators_def Let_def
        by (cases "ldb_Get l d (tableKey snderivatorsPrefix t s)") (auto split: ldb_error.splits)
    qed
  qed
qed

end


text \<open>The look-ups read the database only.\<close>

lemma GetTransactionIndexById_state: "fst (GetTransactionIndexById l h d) = d"
  by (auto simp: GetTransactionIndexById_def Let_def dbm_defs split: sum.splits option.splits prod.splits)

lemma GetShardBlockByHash_state: "fst (GetShardBlockByHash e cd h d) = d"
  by (auto simp: GetShardBlockByHash_def FetchBlock_def lvdb_Get_def dbm_defs chm_defs split: sum.splits option.splits prod.splits if_splits)

lemma GetTransactionByHash_state: "fst (GetTransactionByHash e cd h d) = d"
proof -
  obtain d1 r where i: "GetTransactionIndexById (ceLdb e) h d = (d1, r)" by (cases "GetTransactionIndexById (ceLdb e) h d")
  have d1: "d1 = d" using GetTransactionIndexById_state [of "ceLdb e" h d] i by simp
  show ?thesis
  proof (cases r)
    case (Inr p)
    obtain b ix where p: "p = (b, ix)" by (cases p)
    obtain d2 r2 where g: "GetShardBlockByHash e cd b d = (d2, r2)" by (cases "GetShardBlockByHash e cd b d")
    have "d2 = d" using GetShardBlockByHash_state [of e cd b d] g by simp
    then show ?thesis by (cases r2) (auto simp: GetTransactionByHash_def chm_defs i d1 Inr p g)
  qed (simp add: GetTransactionByHash_def chm_defs i d1)
qed

lemma token_list_state: "fst (token_list e cd ts ids d) = d"
proof (induction ts arbitrary: ids)
  case (Cons t ts)
  obtain d1 r where g: "GetTransactionByHash e cd (hash_or_zero t) d = (d1, r)" by (cases "GetTransactionByHash e cd (hash_or_zero t) d")
  have d1: "d1 = d" using GetTransactionByHash_state [of e cd "hash_or_zero t" d] g by simp
  show ?case
    using Cons.IH by (auto simp: ch_bind_def ch_fail_def g d1 split: sum.split prod.split Transaction.Transaction.split)
qed (simp add: ch_return_def)

lemma Chain_ListCustomToken_state: "fst (Chain_ListCustomToken e cd it d) = d"
  by (simp add: Chain_ListCustomToken_def token_list_state)

context db_frame
begin

lemma with_hash_R: "(\<And>h. ch_R (f h)) \<Longrightarrow> ch_R (with_hash e t f)"
  by (auto simp: with_hash_def ch_R_return split: option.split)

lemma save_view_R:
  assumes e: "ceLdb e = l"
    and ok: "\<And>p t s x. p \<in> {serialNumbersPrefix, commitmentsPrefix, outcoinsPrefix} \<Longrightarrow> ok (tableKey p t s @ x)"
    and snd: "vwMapSnD view = [] \<or> (\<forall>t s x. ok (tableKey snderivatorsPrefix t s @ x))"
  shows "ch_R (save_view e cd view shardID)"
proof -
  have key: "ch_R (store_of_key e shardID items store k)" if "\<And>pk s x. db_R (store pk s x)"
    for items :: "string \<Rightarrow> 'x list" and store k
    using that by (auto simp: store_of_key_def Let_def ch_R_return split: sum.split intro!: ch_R_for ch_R_from_db)
  have tabs: "db_R (StoreSerialNumbers l jm ju t sn s)" "db_R (StoreCommitments l jm ju t pk cm s)"
    "db_R (StoreOutputCoins l jm ju t pk oc s)" for jm ju t sn s pk cm oc
    using ok by (auto intro!: Store_tables_R)
  have "ch_R (StoreSNDerivatorsFromTxViewPoint e cd view)"
    using snd
  proof
    assume "vwMapSnD view = []"
    then have "concat (map (at_key (vwMapSnD view)) ks) = []" for ks by (induction ks) (auto simp: at_key_def)
    then show ?thesis by (simp only: StoreSNDerivatorsFromTxViewPoint_def ch_for.simps ch_R_return)
  next
    assume "\<forall>t s x. ok (tableKey snderivatorsPrefix t s @ x)"
    then show ?thesis unfolding StoreSNDerivatorsFromTxViewPoint_def e
      by (intro ch_R_for ch_R_from_db StoreSNDerivators_R) simp
  qed
  then show ?thesis
    unfolding save_view_def StoreSerialNumbersFromTxViewPoint_def StoreCommitmentsFromTxViewPoint_def e
    by (intro ch_R_then ch_R_for ch_R_from_db key tabs)
qed

lemma history_R:
  assumes e: "ceLdb e = l" and ok: "\<And>sha t p h i. ok (utxoKey sha t p h i)"
  shows "ch_R (StoreCustomTokenPaymentAddresstHistory e tx td)"
proof -
  have put: "db_R (db_Put l k v)" "db_R (db_Get l k')" "db_R (db_HasValue l k')" if "ok k" for k k' v
    using that by (simp_all add: db_Put_def db_R_put db_Get_def db_HasValue_def db_R_read)
  have vin: "ch_R (spend_vin sha l t vin)" for sha t vin
    unfolding spend_vin_def Let_def
    by (intro ch_R_then ch_R_bind ch_R_from_db put [OF ok])
      (auto intro: ch_R_return ch_R_from_db put [OF ok] split: option.split)
  have vout: "ch_R (store_vout sha l t h iv)" for sha t h iv
    unfolding store_vout_def Let_def
    by (intro ch_R_bind ch_R_from_db put [OF ok]) (auto intro: ch_R_return ch_R_from_db put [OF ok])
  show ?thesis
    unfolding StoreCustomTokenPaymentAddresstHistory_def Let_def e
    by (intro ch_R_then ch_R_for vin) (auto intro: ch_R_return ch_R_for vout split: option.split)
qed

lemma save_token_tx_R:
  assumes e: "ceLdb e = l" and ok: "\<And>sha t p h i. ok (utxoKey sha t p h i)" "\<And>t. ok (GetKey tokenInitPrefix t)"
    "\<And>t s h i. ok (tokenTxKey TokenPrefix t s h i)"
  shows "ch_R (save_token_tx e cd it hdr itx)"
proof -
  have sct: "db_R (StoreCustomToken l t h)" for t h by (simp add: StoreCustomToken_def db_R_put ok)
  have "ch_R (register_token e cd it tx td)" for tx td
  proof -
    have "R d (fst (register_token e cd it tx td d))" if "tdType td = CustomTokenCrossShard" "tdType td \<noteq> CustomTokenInit" for d
    proof -
      obtain r where g: "Chain_ListCustomToken e cd it d = (d, r)"
        using Chain_ListCustomToken_state [of e cd it d] by (cases "Chain_ListCustomToken e cd it d") auto
      show ?thesis
        using sct [unfolded db_R_def] that
        by (cases r) (auto simp: register_token_def g with_hash_def ch_fail_def R_refl e split: option.split)
    qed
    then have "ch_R (register_token e cd it tx td)" if "tdType td = CustomTokenCrossShard" "tdType td \<noteq> CustomTokenInit"
      using that by (simp add: ch_R_def)
    moreover have "ch_R (register_token e cd it tx td)" if "tdType td \<noteq> CustomTokenCrossShard \<or> tdType td = CustomTokenInit"
      using that by (auto simp: register_token_def e intro!: ch_R_return with_hash_R ch_R_from_db sct)
    ultimately show ?thesis by blast
  qed
  moreover have "ch_R (\<lambda>d. case GetCustomTokenPaymentAddressesBalance sha it t d of None \<Rightarrow> (d, Inl Panicked) | Some snapshot \<Rightarrow> (d, Inr ()))" for sha t
    by (auto simp: ch_R_def R_refl split: option.split)
  moreover have "db_R (StoreCustomTokenTx l t s h i x)" for t s h i x by (simp add: StoreCustomTokenTx_def db_R_put ok)
  ultimately show ?thesis
    unfolding save_token_tx_def Let_def e
    by (auto intro!: ch_R_then with_hash_R ch_R_from_db ch_R_return history_R [OF e ok(1)] split: prod.split)
qed

lemma save_privacy_tx_R:
  assumes e: "ceLdb e = l" and ok: "\<And>p t s x. p \<in> {serialNumbersPrefix, commitmentsPrefix, outcoinsPrefix, snderivatorsPrefix} \<Longrightarrow> ok (tableKey p t s @ x)"
    "\<And>t. ok (GetKey privacyTokenInitPrefix t)" "\<And>t s h i. ok (tokenTxKey PrivacyTokenPrefix t s h i)"
  shows "ch_R (save_privacy_tx e cd hdr itx)"
proof -
  have "db_R (StorePrivacyCustomToken l t h)" "db_R (StorePrivacyCustomTokenTx l t s ht i h)" for t h s ht i
    by (simp_all add: StorePrivacyCustomToken_def StorePrivacyCustomTokenTx_def db_R_put ok)
  then show ?thesis
    unfolding save_privacy_tx_def Let_def e
    by (auto intro!: ch_R_then with_hash_R ch_R_from_db ch_R_return save_view_R [OF e] ok split: prod.split)
qed

end


section \<open>A stored block spends its coins\<close>

text \<open>Keys that are found stay found; the keys with \<open>P\<close> stay as they are.\<close>

definition grows :: "'db leveldb \<Rightarrow> 'db \<Rightarrow> 'db \<Rightarrow> bool" where
  "grows l d d' \<longleftrightarrow> (\<forall>k v. ldb_Get l d k = Inr v \<longrightarrow> (\<exists>v'. ldb_Get l d' k = Inr v'))"

definition keeps_on :: "(bytes \<Rightarrow> bool) \<Rightarrow> 'db leveldb \<Rightarrow> 'db \<Rightarrow> 'db \<Rightarrow> bool" where
  "keeps_on P l d d' \<longleftrightarrow> (\<forall>k. P k \<longrightarrow> ldb_Get l d' k = ldb_Get l d k)"

sublocale leveldb_contract < grow: db_frame l "grows l" "\<lambda>_. True"
proof
  show "grows l d d" for d by (simp add: grows_def)
  show "grows l a b \<Longrightarrow> grows l b c \<Longrightarrow> grows l a c" for a b c by (meson grows_def)
  show "ldb_Put l d k v = Inr d' \<Longrightarrow> grows l d d'" for d k v d' using put_get put_frame by (metis grows_def)
qed

sublocale leveldb_contract < pre: db_frame l "keeps_on P l" "\<lambda>k. \<not> P k" for P
proof
  show "keeps_on P l d d" for d by (simp add: keeps_on_def)
  show "keeps_on P l a b \<Longrightarrow> keeps_on P l b c \<Longrightarrow> keeps_on P l a c" for a b c by (simp add: keeps_on_def)
  show "\<not> P k \<Longrightarrow> ldb_Put l d k v = Inr d' \<Longrightarrow> keeps_on P l d d'" for d k v d'
    using put_frame by (metis keeps_on_def)
qed

lemma new_serials_collect:
  "new_serials l d s t cs acc = Inr r \<Longrightarrow>
    set acc \<subseteq> set r \<and> (\<forall>c \<in> set cs. coSerialNumber c \<in> set r \<or> snd (HasSerialNumber l t (coSerialNumber c) s d) = Inr True)"
proof (induction cs arbitrary: acc)
  case (Cons c cs)
  obtain ok where ok: "snd (HasSerialNumber l t (coSerialNumber c) s d) = Inr ok"
    "new_serials l d s t cs (if ok then acc else acc @ [coSerialNumber c]) = Inr r"
    using Cons.prems by (auto split: sum.splits)
  show ?case using Cons.IH [OF ok(2)] ok(1) by (cases ok) auto
qed simp

text \<open>The view of a block has every serial number that the database does not have yet.\<close>

definition serials_covered :: "'db ChainEnv \<Rightarrow> 'db \<Rightarrow> u8 \<Rightarrow> 'sub View \<Rightarrow> bytes list \<Rightarrow> bool" where
  "serials_covered e d s vw sns \<longleftrightarrow>
    (\<forall>sn \<in> set sns. sn \<in> set (vwListSerialNumbers vw) \<or> snd (HasSerialNumber (ceLdb e) ConstantID sn s d) = Inr True)"

lemma view_base_covers:
  assumes "view_base e d s w tx vw = Inr vw'"
  shows "serials_covered e d s vw' (ListNullifiers tx) \<and> set (vwListSerialNumbers vw) \<subseteq> set (vwListSerialNumbers vw') \<and>
    vwMapSnD vw' = vwMapSnD vw \<and> vwTokenID vw' = vwTokenID vw \<and> vwShardID vw' = vwShardID vw \<and>
    vwPrivacyCustomTokens vw' = vwPrivacyCustomTokens vw"
proof (cases "txProof tx")
  case None
  then show ?thesis
    using assms by (auto simp: view_base_def processFetchTxViewPoint_def serials_covered_def ListNullifiers_def)
next
  case (Some p)
  then obtain sns cms ocs snds where n: "new_serials (ceLdb e) d s ConstantID (ppInputCoins p) [] = Inr sns"
    "vwListSerialNumbers vw' = vwListSerialNumbers vw @ sns" and "vwMapSnD vw' = vwMapSnD vw" "vwTokenID vw' = vwTokenID vw"
    "vwShardID vw' = vwShardID vw" "vwPrivacyCustomTokens vw' = vwPrivacyCustomTokens vw"
    using assms by (auto simp: view_base_def processFetchTxViewPoint_def split: sum.splits prod.splits)
  then show ?thesis
    using new_serials_collect [OF n(1)] Some by (auto simp: serials_covered_def ListNullifiers_def)
qed

lemma view_tx_covers:
  assumes "view_tx e d s w (i, t) vw = Inr vw'"
  shows "serials_covered e d s vw' (ListNullifiers (baseTx t)) \<and> set (vwListSerialNumbers vw) \<subseteq> set (vwListSerialNumbers vw') \<and>
    vwMapSnD vw' = vwMapSnD vw \<and> vwTokenID vw' = vwTokenID vw \<and> vwShardID vw' = vwShardID vw \<and>
    (txType (baseTx t) \<noteq> TxCustomTokenPrivacyType \<longrightarrow> vwPrivacyCustomTokens vw' = vwPrivacyCustomTokens vw)"
proof -
  have types: "TxNormalType \<noteq> TxCustomTokenPrivacyType" "TxSalaryType \<noteq> TxCustomTokenPrivacyType"
    by (simp_all add: TxNormalType_def TxSalaryType_def TxCustomTokenPrivacyType_def)
  obtain vw1 where vw1: "view_base e d s w (baseTx t) vw = Inr vw1" "vwListSerialNumbers vw' = vwListSerialNumbers vw1"
    "vwMapSnD vw' = vwMapSnD vw1" "vwTokenID vw' = vwTokenID vw1" "vwShardID vw' = vwShardID vw1"
    "txType (baseTx t) \<noteq> TxCustomTokenPrivacyType \<longrightarrow> vwPrivacyCustomTokens vw' = vwPrivacyCustomTokens vw1"
    using assms types
    by (auto simp: view_tx_def Let_def split: if_splits Transaction.Transaction.splits sum.splits)
  then show ?thesis using view_base_covers [OF vw1(1)] by (simp add: serials_covered_def)
qed

lemma view_txs_covers:
  "view_txs e d s w its vw = Inr vw' \<Longrightarrow>
    (\<forall>(i, t) \<in> set its. serials_covered e d s vw' (ListNullifiers (baseTx t))) \<and>
    set (vwListSerialNumbers vw) \<subseteq> set (vwListSerialNumbers vw') \<and>
    vwMapSnD vw' = vwMapSnD vw \<and> vwTokenID vw' = vwTokenID vw \<and> vwShardID vw' = vwShardID vw \<and>
    ((\<forall>(i, t) \<in> set its. txType (baseTx t) \<noteq> TxCustomTokenPrivacyType) \<longrightarrow> vwPrivacyCustomTokens vw' = vwPrivacyCustomTokens vw)"
proof (induction its arbitrary: vw)
  case (Cons it its)
  obtain i t where it: "it = (i, t)" by (cases it)
  obtain vw1 where vw1: "view_tx e d s w (i, t) vw = Inr vw1" "view_txs e d s w its vw1 = Inr vw'"
    using Cons.prems by (auto simp: it split: sum.splits)
  have "serials_covered e d s vw' (ListNullifiers (baseTx t))"
    using view_tx_covers [OF vw1(1)] Cons.IH [OF vw1(2)] by (auto simp: serials_covered_def)
  then show ?case using view_tx_covers [OF vw1(1)] Cons.IH [OF vw1(2)] by (auto simp: it)
qed simp

lemma ch_then_ok: "ch_then m k d = (d', Inr x) \<longleftrightarrow> (\<exists>d1 y. m d = (d1, Inr y) \<and> k d1 = (d', Inr x))"
  by (auto simp: ch_then_def ch_bind_def split: prod.splits sum.splits)

lemma ch_bind_ok: "ch_bind m f d = (d', Inr x) \<longleftrightarrow> (\<exists>d1 y. m d = (d1, Inr y) \<and> f y d1 = (d', Inr x))"
  by (auto simp: ch_bind_def split: prod.splits sum.splits)

lemma from_db_ok: "from_db m d = (d', Inr x) \<longleftrightarrow> m d = (d', Inr x)"
  by (auto simp: from_db_def split: prod.splits sum.splits)

context leveldb_contract
begin

lemma grow_any: "grow.ch_R m \<Longrightarrow> m d = (d', r) \<Longrightarrow> grows l d d'"
  by (metis grow.ch_R_def fst_conv)

lemma grows_found: "grows l d d' \<Longrightarrow> snd (HasSerialNumber l t sn s d) = Inr True \<Longrightarrow> snd (HasSerialNumber l t sn s d') = Inr True"
  by (auto simp: HasSerialNumber_def db_found_eq grows_def)

lemma StoreSerialNumbers_found:
  assumes "StoreSerialNumbers l jm ju t sn s d = (d', Inr u)"
  shows "snd (HasSerialNumber l t sn s d') = Inr True"
proof -
  obtain d1 arr where "ldb_Put l d (tableKey serialNumbersPrefix t s @ sn) (newIndexBytes (length arr)) = Inr d1"
    "put_array l jm UnexpectedError (tableKey serialNumbersPrefix t s) (arr @ [sn]) d1 = (d', Inr u)"
    using assms by (auto simp: StoreSerialNumbers_def Let_def db_bind_ok db_then_ok lvdb_Put_ok fetch_array_ok)
  moreover from this(2) have "grows l d1 d'"
    using grow.db_R_put_array by (metis grow.db_R_def fst_conv)
  ultimately show ?thesis using put_get by (fastforce simp: HasSerialNumber_def db_found_eq grows_def)
qed

lemma stored_serials:
  assumes "ch_for sns (\<lambda>sn. from_db (StoreSerialNumbers l jm ju t sn s)) d = (d', Inr u)" "sn \<in> set sns"
  shows "snd (HasSerialNumber l t sn s d') = Inr True"
  using assms
proof (induction sns arbitrary: d)
  case (Cons x xs)
  obtain d1 where d1: "StoreSerialNumbers l jm ju t x s d = (d1, Inr ())"
    "ch_for xs (\<lambda>sn. from_db (StoreSerialNumbers l jm ju t sn s)) d1 = (d', Inr u)"
    using Cons.prems(1) by (auto simp: ch_then_ok from_db_ok)
  have "grows l d1 d'"
    using d1(2) by (rule grow_any [rotated]) (auto intro!: grow.ch_R_for grow.ch_R_from_db grow.Store_tables_R)
  then show ?case
    using StoreSerialNumbers_found [OF d1(1)] grows_found Cons.IH [OF d1(2)] Cons.prems(2) by (cases "sn = x") auto
qed simp

lemma save_view_grows: "ceLdb e = l \<Longrightarrow> grow.ch_R (save_view e cd view s)"
  by (rule grow.save_view_R) simp_all

end


lemma view_new [simp]:
  "vwListSerialNumbers (NewTxViewPoint s) = []" "vwMapSnD (NewTxViewPoint s) = []" "vwTokenID (NewTxViewPoint s) = ConstantID"
  "vwShardID (NewTxViewPoint s) = s" "vwPrivacyCustomTokens (NewTxViewPoint s) = []"
  by (simp_all add: NewTxViewPoint_def)

lemma CreateAndSave_parts:
  assumes "CreateAndSaveTxViewPointFromBlock e cd it order orderP block d = (d', Inr u)"
  obtains view d1 d2 where
    "view_txs e d (shShardID (sHeader block)) None (List.enumerate 0 (sbTransactions (sBody block)))
       (NewTxViewPoint (shShardID (sHeader block))) = Inr view"
    "ch_for (order (vwCustomTokenTxs view)) (save_token_tx e cd it (sHeader block)) d = (d1, Inr ())"
    "ch_for (orderP (vwPrivacyCustomTokens view)) (save_privacy_tx e cd (sHeader block)) d1 = (d2, Inr ())"
    "save_view e cd view (shShardID (sHeader block)) d2 = (d', Inr u)"
  using assms that
  by (auto simp: CreateAndSaveTxViewPointFromBlock_def fetchTxViewPointFromBlock_def ch_then_ok split: sum.splits)

lemma enumerate_covers: "t \<in> set ts \<Longrightarrow> \<exists>i. (i, t) \<in> set (List.enumerate n ts)"
  by (induction ts arbitrary: n) auto

lemma prefix_two:
  "take 2 (tableKey serialNumbersPrefix t s @ x) = str_bytes ''se''" "take 2 (tableKey commitmentsPrefix t s @ x) = str_bytes ''co''"
  "take 2 (tableKey outcoinsPrefix t s @ x) = str_bytes ''ou''" "take 2 (tableKey snderivatorsPrefix t s @ x) = str_bytes ''sn''"
  by (simp_all add: tableKey_eq table_prefixes str_bytes_def)

lemma token_key_eq:
  "GetKey tokenInitPrefix t = tokenInitPrefix @ str_bytes (Hash_String t)"
  "GetKey TokenPrefix t = TokenPrefix @ str_bytes (Hash_String t)"
  by (simp_all add: GetKey_def tokenInitPrefix_def TokenPrefix_def blockKeyPrefix_def blockKeyIdxPrefix_def str_bytes_inj)

lemma token_two:
  "take 2 (utxoKey sha t p h i) = str_bytes ''to''" "take 2 (GetKey tokenInitPrefix t) = str_bytes ''to''"
  "take 2 (tokenTxKey TokenPrefix t s hh ix) = str_bytes ''to''"
  unfolding utxoKey_def tokenTxKey_def token_key_eq
  by (simp_all add: TokenPaymentAddressPrefix_def tokenInitPrefix_def TokenPrefix_def str_bytes_def)

context leveldb_contract
begin

lemma block_serials_found:
  assumes e: "ceLdb e = l" and "CreateAndSaveTxViewPointFromBlock e cd it order orderP block d = (d', Inr u)"
    and t: "t \<in> set (sbTransactions (sBody block))" "sn \<in> set (ListNullifiers (baseTx t))"
  shows "snd (HasSerialNumber l ConstantID sn (shShardID (sHeader block)) d') = Inr True"
proof (rule CreateAndSave_parts [OF assms(2)])
  let ?s = "shShardID (sHeader block)"
  fix view d1 d2
  assume v: "view_txs e d ?s None (List.enumerate 0 (sbTransactions (sBody block))) (NewTxViewPoint ?s) = Inr view"
    and r: "ch_for (order (vwCustomTokenTxs view)) (save_token_tx e cd it (sHeader block)) d = (d1, Inr ())"
      "ch_for (orderP (vwPrivacyCustomTokens view)) (save_privacy_tx e cd (sHeader block)) d1 = (d2, Inr ())"
      "save_view e cd view ?s d2 = (d', Inr u)"
  have "grows l d d1" using r(1) by (rule grow_any [rotated]) (intro grow.ch_R_for grow.save_token_tx_R e TrueI)
  moreover have "grows l d1 d2" using r(2) by (rule grow_any [rotated]) (intro grow.ch_R_for grow.save_privacy_tx_R e TrueI)
  ultimately have g: "grows l d d2" by (rule grow.R_trans)
  obtain d3 where s: "ch_for (vwListSerialNumbers view) (\<lambda>sn. from_db (StoreSerialNumbers l (cdMarshal cd) (cdUnmarshal cd)
      (vwTokenID view) sn (vwShardID view))) d2 = (d3, Inr ())"
    and r3: "ch_then (StoreCommitmentsFromTxViewPoint e cd view ?s) (StoreSNDerivatorsFromTxViewPoint e cd view) d3 = (d', Inr u)"
    using r(3) by (auto simp: save_view_def StoreSerialNumbersFromTxViewPoint_def e ch_then_ok)
  have g': "grows l d2 d'" using r(3) by (rule grow_any [OF save_view_grows [OF e]])
  have g3: "grows l d3 d'"
  proof -
    have "grow.ch_R (save_view e cd (view\<lparr>vwListSerialNumbers := []\<rparr>) ?s)" by (rule save_view_grows [OF e])
    moreover have "save_view e cd (view\<lparr>vwListSerialNumbers := []\<rparr>) ?s d3 = (d', Inr u)"
      using r3 by (simp add: save_view_def StoreSerialNumbersFromTxViewPoint_def StoreCommitmentsFromTxViewPoint_def
          StoreSNDerivatorsFromTxViewPoint_def ch_then_ok ch_return_def)
    ultimately show ?thesis by (rule grow_any)
  qed
  have "serials_covered e d ?s view (ListNullifiers (baseTx t))" "vwTokenID view = ConstantID" "vwShardID view = ?s"
    using view_txs_covers [OF v] enumerate_covers [OF t(1), of 0] by auto
  then show ?thesis
    using t(2) stored_serials [OF s] grows_found [OF g3] grows_found [OF g'] grows_found [OF g]
    by (auto simp: serials_covered_def e)
qed

lemma keeps_any: "pre.ch_R P m \<Longrightarrow> m d = (d', r) \<Longrightarrow> keeps_on P l d d'"
  by (metis pre.ch_R_def fst_conv)

lemma block_derivators_kept:
  assumes e: "ceLdb e = l" and "CreateAndSaveTxViewPointFromBlock e cd it order orderP block d = (d', Inr u)"
    and t: "\<forall>t \<in> set (sbTransactions (sBody block)). txType (baseTx t) \<noteq> TxCustomTokenPrivacyType"
    and orders: "orderP [] = []"
  shows "keeps_on (\<lambda>k. take 2 k = str_bytes ''sn'') l d d'"
proof (rule CreateAndSave_parts [OF assms(2)])
  let ?s = "shShardID (sHeader block)"
  fix view d1 d2
  assume v: "view_txs e d ?s None (List.enumerate 0 (sbTransactions (sBody block))) (NewTxViewPoint ?s) = Inr view"
    and r: "ch_for (order (vwCustomTokenTxs view)) (save_token_tx e cd it (sHeader block)) d = (d1, Inr ())"
      "ch_for (orderP (vwPrivacyCustomTokens view)) (save_privacy_tx e cd (sHeader block)) d1 = (d2, Inr ())"
      "save_view e cd view ?s d2 = (d', Inr u)"
  have "\<forall>(i, t) \<in> set (List.enumerate 0 (sbTransactions (sBody block))). txType (baseTx t) \<noteq> TxCustomTokenPrivacyType"
    using t by (auto simp: in_set_enumerate_eq)
  then have view: "vwMapSnD view = []" "vwPrivacyCustomTokens view = []" using view_txs_covers [OF v] by simp_all
  have neq: "str_bytes ''to'' \<noteq> str_bytes ''sn''" "str_bytes ''se'' \<noteq> str_bytes ''sn''" "str_bytes ''co'' \<noteq> str_bytes ''sn''"
    "str_bytes ''ou'' \<noteq> str_bytes ''sn''" by (simp_all add: str_bytes_inj)
  have "keeps_on (\<lambda>k. take 2 k = str_bytes ''sn'') l d d1"
    using r(1) by (rule keeps_any [rotated]) (intro pre.ch_R_for pre.save_token_tx_R e; simp add: token_two neq)
  moreover have "d2 = d1" using r(2) by (simp add: view orders ch_return_def)
  moreover have "keeps_on (\<lambda>k. take 2 k = str_bytes ''sn'') l d2 d'"
    using r(3) by (rule keeps_any [rotated]) (rule pre.save_view_R [OF e]; auto simp: view prefix_two neq simp del: take_append)
  ultimately show ?thesis by (simp add: keeps_on_def)
qed

end

text \<open>
  C27. A stored block spends its coins. When \<open>CreateAndSaveTxViewPointFromBlock\<close> ends without error, the serial
  number of every input coin of every transaction of the block is found in the database of the block's
  shard, whatever order Go visits the token transactions in.
\<close>

theorem stored_block_spends_coins:
  assumes "leveldb_contract (ceLdb e)" "CreateAndSaveTxViewPointFromBlock e cd it order orderP block d = (d', Inr u)"
    and "t \<in> set (sbTransactions (sBody block))" "sn \<in> set (ListNullifiers (baseTx t))"
  shows "snd (HasSerialNumber (ceLdb e) ConstantID sn (shShardID (sHeader block)) d') = Inr True"
  by (rule leveldb_contract.block_serials_found [OF assms(1) refl assms(2-4)])

text \<open>
  The derivators of coins are never stored. A block without privacy token transactions leaves every answer of
  \<open>HasSNDerivator\<close> as it was: the code appends the derivators to the map they came from instead of
  the one it stores. So \<open>CheckSNDerivatorExistence\<close>, which transaction building and checking rely on to keep
  derivators unique, answers false for every coin of the chain.
\<close>

theorem coin_derivators_not_stored:
  assumes "leveldb_contract (ceLdb e)" "CreateAndSaveTxViewPointFromBlock e cd it order orderP block d = (d', Inr u)"
    and "list_all (\<lambda>t. txType (baseTx t) \<noteq> TxCustomTokenPrivacyType) (sbTransactions (sBody block))" "orderP [] = []"
  shows "snd (HasSNDerivator (ceLdb e) t n s d') = snd (HasSNDerivator (ceLdb e) t n s d)"
proof -
  have "keeps_on (\<lambda>k. take 2 k = str_bytes ''sn'') (ceLdb e) d d'"
    using leveldb_contract.block_derivators_kept [OF assms(1) refl assms(2) _ assms(4)] assms(3) by (simp add: list_all_iff)
  then have "ldb_Get (ceLdb e) d' (tableKey snderivatorsPrefix t s @ be_write n) = ldb_Get (ceLdb e) d (tableKey snderivatorsPrefix t s @ be_write n)"
    unfolding keeps_on_def using prefix_two(4) by blast
  then show ?thesis by (simp add: HasSNDerivator_def db_found_eq)
qed


section \<open>Tokens issued and received in one block\<close>

lemma tx_key_two: "take 2 (transactionKeyPrefix @ x) = str_bytes ''tx''"
  by (simp add: transactionKeyPrefix_def str_bytes_def)

lemma GetTransactionByHash_unindexed:
  assumes "leveldb_contract (ceLdb e)"
    and "ldb_Get (ceLdb e) d (transactionKeyPrefix @ str_bytes (Hash_String h)) = Inl ErrNotFound"
  shows "GetTransactionByHash e cd h d = (d, Inl (FromDb ErrUnexpected))"
  using assms(2) leveldb_contract.has_missing [OF assms]
  by (simp add: GetTransactionByHash_def GetTransactionIndexById_def Let_def chm_defs dbm_defs)

lemma token_list_fails:
  assumes "GetTransactionByHash e cd (hash_or_zero x) d = (d, Inl err)" "x \<in> set ts"
  shows "\<exists>err'. token_list e cd ts ids d = (d, Inl err')"
  using assms(2)
proof (induction ts arbitrary: ids)
  case (Cons t ts)
  obtain r where g: "GetTransactionByHash e cd (hash_or_zero t) d = (d, r)"
    using GetTransactionByHash_state [of e cd "hash_or_zero t" d] by (cases "GetTransactionByHash e cd (hash_or_zero t) d") auto
  show ?case
    using Cons assms(1) g
    by (auto simp: ch_bind_def ch_fail_def split: sum.split prod.split Transaction.Transaction.split)
qed simp

text \<open>
  A block that issues a token and receives any token from another shard stops the node. When the issuing
  transaction has been stored before the receiving one is reached, \<open>ListCustomToken\<close> looks up the
  issuing transaction, which is not indexed until the whole view of the block is stored; the
  look-up fails and the code panics.
\<close>

lemma issued_token_listed:
  assumes it: "leveldb_iter l it" and "ldb_Get l d (GetKey tokenInitPrefix t) = Inr v"
  shows "v \<in> set (ListCustomToken it d)"
proof -
  have "(GetKey tokenInitPrefix t, v) \<in> set (it d tokenInitPrefix)"
    using assms(2) leveldb_iter.iter_set [OF it] by (simp add: token_key_eq)
  then show ?thesis by (force simp: ListCustomToken_def)
qed

context leveldb_contract
begin

lemma save_token_keeps_tx:
  "ceLdb e = l \<Longrightarrow> save_token_tx e cd it hdr itx d = (d1, r) \<Longrightarrow> keeps_on (\<lambda>k. take 2 k = str_bytes ''tx'') l d d1"
  by (rule keeps_any [rotated], assumption) (rule pre.save_token_tx_R; simp add: token_two str_bytes_inj)

text \<open>The entry of an issued token survives the rest of the transaction's own writes.\<close>

lemma issue_recorded:
  assumes e: "ceLdb e = l" and s: "save_token_tx e cd it hdr (i, tx, td) d = (d1, Inr u)"
    and td: "tdType td = CustomTokenInit" and h: "Transaction_Hash e (TxCustomToken tx td) = Some h"
    and len: "length (tdPropertyID td) = HashSize"
  shows "ldb_Get l d1 (GetKey tokenInitPrefix (tdPropertyID td)) = Inr h"
proof -
  let ?k = "GetKey tokenInitPrefix (tdPropertyID td)"
  obtain d0 where d0: "ldb_Put l d ?k h = Inr d0"
    and rest: "ch_then (StoreCustomTokenPaymentAddresstHistory e tx td)
      (ch_then (with_hash e (TxCustomToken tx td) (\<lambda>h.
          from_db (StoreCustomTokenTx (ceLdb e) (tdPropertyID td) (shShardID hdr) (shHeight hdr) i h)))
       (if shHeight hdr mod 1000 = 0 then
          (\<lambda>d. case GetCustomTokenPaymentAddressesBalance (ceSha256 e) it (tdPropertyID td) d of
             None \<Rightarrow> (d, Inl Panicked) | Some snapshot \<Rightarrow> (d, Inr ()))
        else ch_return ())) d0 = (d1, Inr u)"
    using s td h
    by (auto simp: save_token_tx_def register_token_def with_hash_def ch_then_ok from_db_ok e StoreCustomToken_def lvdb_Put_ok
        simp del: Transaction_Hash.simps)
  have key: "utxoKey sha t p hh j \<noteq> ?k" for sha t p hh j
    unfolding utxoKey_def token_key_eq by (simp add: TokenPaymentAddressPrefix_def tokenInitPrefix_def str_bytes_def)
  have key2: "tokenTxKey TokenPrefix (tdPropertyID td) sh ht j \<noteq> ?k" for sh ht j
  proof
    assume "tokenTxKey TokenPrefix (tdPropertyID td) sh ht j = ?k"
    then have "length (tokenTxKey TokenPrefix (tdPropertyID td) sh ht j) = length ?k" by simp
    then show False
      unfolding tokenTxKey_def token_key_eq using Hash_String_length [OF len]
      by (simp add: TokenPrefix_def tokenInitPrefix_def Uint64ToBytes_def Uint32ToBytes_def)
  qed
  have bal: "pre.ch_R (\<lambda>k. k = ?k) (\<lambda>d. case GetCustomTokenPaymentAddressesBalance (ceSha256 e) it (tdPropertyID td) d of
             None \<Rightarrow> (d, Inl Panicked) | Some snapshot \<Rightarrow> (d, Inr ()))"
    by (auto simp: pre.ch_R_def keeps_on_def split: option.split)
  have hist: "pre.ch_R (\<lambda>k. k = ?k) (StoreCustomTokenPaymentAddresstHistory e tx td)"
    by (rule pre.history_R [OF e]) (rule key)
  have store: "pre.ch_R (\<lambda>k. k = ?k) (with_hash e (TxCustomToken tx td) (\<lambda>h.
      from_db (StoreCustomTokenTx (ceLdb e) (tdPropertyID td) (shShardID hdr) (shHeight hdr) i h)))"
    unfolding e StoreCustomTokenTx_def by (intro pre.with_hash_R pre.ch_R_from_db pre.db_R_put key2)
  have "keeps_on (\<lambda>k. k = ?k) l d0 d1"
    using rest by (rule keeps_any [rotated]) (use hist store bal in \<open>auto intro!: pre.ch_R_then pre.ch_R_return\<close>)
  then show ?thesis using put_get [OF d0] by (simp add: keeps_on_def)
qed

end

text \<open>
  Issuing and receiving tokens in one block. After the step of a block that stores an issued token, whose
  transaction is not indexed yet, every step of the same block for a token that came from another shard panics:
  the list of tokens contains the new one, and its transaction cannot be found.
\<close>

theorem issue_and_receive_panics:
  assumes "leveldb_iter (ceLdb e) it" "save_token_tx e cd it hdr (i, tx, td) d = (d1, Inr u)"
    and "tdType td = CustomTokenInit" "length (tdPropertyID td) = HashSize"
    and "Transaction_Hash e (TxCustomToken tx td) = Some h" "length h = HashSize"
    and "ldb_Get (ceLdb e) d (transactionKeyPrefix @ str_bytes (Hash_String h)) = Inl ErrNotFound"
    and "tdType td2 = CustomTokenCrossShard"
  shows "save_token_tx e cd it hdr (j, tx2, td2) d1 = (d1, Inl Panicked)"
proof -
  have c: "leveldb_contract (ceLdb e)" using assms(1) by (simp add: leveldb_iter_def)
  have listed: "h \<in> set (ListCustomToken it d1)"
    using issued_token_listed [OF assms(1) leveldb_contract.issue_recorded [OF c refl assms(2,3,5,4)]] .
  have "keeps_on (\<lambda>k. take 2 k = str_bytes ''tx'') (ceLdb e) d d1"
    using assms(2) by (rule leveldb_contract.save_token_keeps_tx [OF c refl])
  then have "ldb_Get (ceLdb e) d1 (transactionKeyPrefix @ str_bytes (Hash_String h)) = Inl ErrNotFound"
    using assms(7) tx_key_two by (simp add: keeps_on_def del: take_append)
  note g = GetTransactionByHash_unindexed [OF c this]
  have "hash_or_zero h = h" using assms(6) by (simp add: hash_or_zero_def Hash_SetBytes_def)
  then obtain err where "Chain_ListCustomToken e cd it d1 = (d1, Inl err)"
    using token_list_fails [OF _ listed, of e cd d1 _ "[]"] g by (auto simp: Chain_ListCustomToken_def)
  moreover have "tdType td2 \<noteq> CustomTokenInit" using assms(8) by (simp add: CustomTokenCrossShard_def CustomTokenInit_def)
  ultimately show ?thesis
    using assms(8) by (simp add: save_token_tx_def register_token_def ch_then_def ch_bind_def)
qed

section \<open>Examples\<close>

definition sample_codecs :: Codecs where
  "sample_codecs =
     \<lparr>cdMarshal = (\<lambda>_. Some [1]), cdUnmarshal = (\<lambda>_. Some []), cdMarshalS = (\<lambda>_. Some [1]), cdUnmarshalS = (\<lambda>_. Some []),
      cdCoin = coCoinCommitment, cdParseBlock = (\<lambda>_. None)\<rparr>"

definition sample_view_block :: "Transaction list \<Rightarrow> ShardBody ShardBlock" where
  "sample_view_block txs =
     \<lparr>sAggregatedSig = [], sR = [], sValidatorsIdx = [], sProducerSig = [],
      sBody = \<lparr>sbInstructions = [], sbCrossOutputCoin = [], sbTransactions = txs\<rparr>, sHeader = sample_shard_header 1 5\<rparr>"

lemma sample_view_stored:
  "\<exists>d'. CreateAndSaveTxViewPointFromBlock sample_env sample_codecs (\<lambda>_ _. []) id id
     (sample_view_block [NormalTx (sample_tx [sample_coin [1] [9] 3] [])]) Map.empty = (d', Inr ())"
  by (simp add: CreateAndSaveTxViewPointFromBlock_def fetchTxViewPointFromBlock_def sample_view_block_def view_tx_def
      view_base_def processFetchTxViewPoint_def sample_tx_def sample_coin_def sample_env_def sample_codecs_def
      HasSerialNumber_def db_found_eq mem_leveldb_def save_view_def StoreSerialNumbersFromTxViewPoint_def NewTxViewPoint_def
      StoreCommitmentsFromTxViewPoint_def StoreSNDerivatorsFromTxViewPoint_def StoreSerialNumbers_def put_array_def
      fetch_array_def merge_lists_def chm_defs dbm_defs Let_def)

theorem stored_block_spends_coins_witness:
  "\<exists>d'. CreateAndSaveTxViewPointFromBlock sample_env sample_codecs (\<lambda>_ _. []) id id
       (sample_view_block [NormalTx (sample_tx [sample_coin [1] [9] 3] [])]) Map.empty = (d', Inr ()) \<and>
     snd (HasSerialNumber mem_leveldb ConstantID [9] 1 d') = Inr True"
proof -
  obtain d' where d': "CreateAndSaveTxViewPointFromBlock sample_env sample_codecs (\<lambda>_ _. []) id id
       (sample_view_block [NormalTx (sample_tx [sample_coin [1] [9] 3] [])]) Map.empty = (d', Inr ())"
    using sample_view_stored by blast
  have "[9] \<in> set (ListNullifiers (sample_tx [sample_coin [1] [9] 3] []))"
    by (simp add: ListNullifiers_def sample_tx_def sample_coin_def)
  then show ?thesis
    using stored_block_spends_coins [OF _ d', of "NormalTx (sample_tx [sample_coin [1] [9] 3] [])" "[9]"] d' mem.leveldb_contract_axioms
    by (simp add: sample_view_block_def sample_shard_header_def)
qed

theorem coin_derivators_not_stored_witness:
  "\<exists>d'. CreateAndSaveTxViewPointFromBlock sample_env sample_codecs (\<lambda>_ _. []) id id
       (sample_view_block [NormalTx (sample_tx [sample_coin [1] [9] 3] [])]) Map.empty = (d', Inr ()) \<and>
     snd (HasSNDerivator mem_leveldb ConstantID 7 1 d') = Inr False"
proof -
  obtain d' where d': "CreateAndSaveTxViewPointFromBlock sample_env sample_codecs (\<lambda>_ _. []) id id
       (sample_view_block [NormalTx (sample_tx [sample_coin [1] [9] 3] [])]) Map.empty = (d', Inr ())"
    using sample_view_stored by blast
  have "snd (HasSNDerivator mem_leveldb ConstantID 7 1 Map.empty) = Inr False"
    by (simp add: HasSNDerivator_def db_found_eq mem_leveldb_def)
  then show ?thesis
    using coin_derivators_not_stored [OF _ d', of ConstantID 7 1] d' mem.leveldb_contract_axioms
    by (simp add: sample_view_block_def sample_tx_def TxNormalType_def TxCustomTokenPrivacyType_def)
qed


definition sample_alist_env :: "(bytes \<times> bytes) list ChainEnv" where
  "sample_alist_env =
     \<lparr>ceSha256 = toy_sha, ceMetaCheckTransactionFee = (\<lambda>_ _ _. True),
      ceMetaValidateSanityData = (\<lambda>_ _. (True, True, True)), ceMetaValidateByItself = (\<lambda>_. True),
      ceMetaValidateTxWithBlockChain = (\<lambda>_ _ _. (True, True)), ceMetaVerifyMultiSigs = (\<lambda>_ _. True),
      ceVerifySig = (\<lambda>_. True), ceMultiSigsRegistration = (\<lambda>_. None), ceVerifyProof = (\<lambda>_ _ _ _. True),
      ceValidateTxSalary = (\<lambda>_. True), ceKeySetVerify = (\<lambda>_ _ _. True), ceGetTransactionByHash = (\<lambda>_. None),
      ceGetCustomTokenTxs = (\<lambda>_. None), ceNow = 0, ceLdb = alist_leveldb, ceDb = []\<rparr>"

theorem issue_and_receive_panics_witness:
  "\<exists>d1. save_token_tx sample_alist_env sample_codecs alist_iter (sample_shard_header 1 5)
       (0, sample_tx [] [], (sample_token [] [])\<lparr>tdType := 0\<rparr>) [] = (d1, Inr ()) \<and>
     save_token_tx sample_alist_env sample_codecs alist_iter (sample_shard_header 1 5)
       (1, sample_tx [] [], (sample_token [] [])\<lparr>tdType := 2\<rparr>) d1 = (d1, Inl Panicked)"
proof -
  let ?e = sample_alist_env and ?td = "(sample_token [] [])\<lparr>tdType := 0\<rparr>"
  have vouts: "Vouts ?td = []" "tdVins ?td = []" by (simp_all add: Vouts_def sample_token_def)
  obtain h where h: "Transaction_Hash ?e (TxCustomToken (sample_tx [] []) ?td) = Some h" "length h = HashSize"
    by (simp add: TxTokenData_Hash_def sample_token_def sample_tx_def HashH_def DoubleHashH_def sample_alist_env_def toy_sha_def HashSize_def Let_def)
  have "\<exists>d1. save_token_tx ?e sample_codecs alist_iter (sample_shard_header 1 5) (0, sample_tx [] [], ?td) [] = (d1, Inr ())"
    using h(1) vouts
    by (simp add: save_token_tx_def register_token_def with_hash_def StoreCustomTokenPaymentAddresstHistory_def StoreCustomToken_def
        StoreCustomTokenTx_def CustomTokenInit_def chm_defs dbm_defs Let_def sample_shard_header_def del: Transaction_Hash.simps)
      (simp add: sample_alist_env_def alist_leveldb_def)
  then obtain d1 where s: "save_token_tx ?e sample_codecs alist_iter (sample_shard_header 1 5) (0, sample_tx [] [], ?td) [] = (d1, Inr ())"
    by blast
  have l: "ceLdb ?e = alist_leveldb" by (simp add: sample_alist_env_def)
  have "ldb_Get (ceLdb ?e) [] k = Inl ErrNotFound" for k by (simp add: l alist_leveldb_def)
  then show ?thesis
    using issue_and_receive_panics [OF _ s _ _ h, where ?td2.0 = "(sample_token [] [])\<lparr>tdType := 2\<rparr>" and j = 1 and ?tx2.0 = "sample_tx [] []"]
      s alist.leveldb_iter_axioms by (simp add: l CustomTokenInit_def CustomTokenCrossShard_def)
qed

end
