(* ===== verification/Cross_Block.thy ===== *)
theory Cross_Block
  imports Merkle_Root
begin

text \<open>
  Cross shard blocks: how a shard groups the outputs of a block by receiving shard, the Merkle
  tree over the groups whose root is in the header, the path that goes with the outputs of one
  shard and its verification (\<open>src/blockchain/shardutils.go\<close>, \<open>shardblock.go\<close>,
  \<open>shardcross_process.go\<close>). A panic is \<open>None\<close>; \<open>ob\<close> gives the bytes of an output coin.
\<close>

section \<open>Grouping the outputs of a block by shard (shardutils.go)\<close>

text \<open>\<open>GetPubKeyLastByte\<close>, and the same expression on the \<open>Pk\<close> of an address; no byte, a panic.\<close>

definition last_byte :: "bytes \<Rightarrow> u8 option" where
  "last_byte pk = (if pk = [] then None else Some (last pk))"

definition GetPubKeyLastByte :: "Coin \<Rightarrow> u8 option" where
  "GetPubKeyLastByte coin = last_byte (coPublicKey coin)"

definition cloneTxTokenDataForCrossShard :: "TxTokenData \<Rightarrow> TxTokenData" where
  "cloneTxTokenDataForCrossShard d =
     \<lparr>tdPropertyID = tdPropertyID d, tdPropertyName = tdPropertyName d, tdPropertySymbol = tdPropertySymbol d,
      tdType = CustomTokenCrossShard, tdMintable = tdMintable d, tdAmount = tdAmount d, tdVins = [], tdVouts = Some []\<rparr>"

text \<open>
  One entry per token ID. The order of the association list does not matter: whoever reads
  it sorts it by the text of the ID first.
\<close>

type_synonym token_map = "(hash \<times> TxTokenData) list"

definition add_vout :: "TxTokenData \<Rightarrow> TxTokenVout \<Rightarrow> token_map \<Rightarrow> token_map" where
  "add_vout d vout m =
    (let m = (if map_of m (tdPropertyID d) = None then (tdPropertyID d, cloneTxTokenDataForCrossShard d) # m else m)
     in AList.map_entry (tdPropertyID d) (\<lambda>t. t\<lparr>tdVouts := Some (Vouts t @ [vout])\<rparr>) m)"

fun group_coins :: "Coin list \<Rightarrow> Coin list list \<Rightarrow> Coin list list option" where
  "group_coins [] outCoinEachShard = Some outCoinEachShard"
| "group_coins (c # cs) outCoinEachShard =
    (case GetPubKeyLastByte c of
       None \<Rightarrow> None
     | Some lastByte \<Rightarrow>
         (let shardID = unat (GetShardIDFromLastByte lastByte)
          in group_coins cs (outCoinEachShard[shardID := outCoinEachShard ! shardID @ [c]])))"

fun group_vouts :: "TxTokenData \<Rightarrow> TxTokenVout list \<Rightarrow> token_map list \<Rightarrow> token_map list option" where
  "group_vouts d [] txTokenDataEachShard = Some txTokenDataEachShard"
| "group_vouts d (v # vs) txTokenDataEachShard =
    (case last_byte (paPk (voPaymentAddress v)) of
       None \<Rightarrow> None
     | Some lastByte \<Rightarrow>
         (let shardID = unat (GetShardIDFromLastByte lastByte)
          in group_vouts d vs (txTokenDataEachShard[shardID := add_vout d v (txTokenDataEachShard ! shardID)])))"

text \<open>\<open>tx.GetProof()\<close> is the proof of the coin part for every kind of transaction.\<close>

definition proof_outputs :: "Transaction \<Rightarrow> Coin list" where
  "proof_outputs t = (case txProof (baseTx t) of None \<Rightarrow> [] | Some p \<Rightarrow> ppOutputCoins p)"

definition group_tx :: "Transaction \<Rightarrow> Coin list list \<times> token_map list \<Rightarrow> (Coin list list \<times> token_map list) option" where
  "group_tx t s =
    (if txType (baseTx t) = TxNormalType \<or> txType (baseTx t) = TxSalaryType then
       map_option (\<lambda>cs. (cs, snd s)) (group_coins (proof_outputs t) (fst s))
     else if txType (baseTx t) = TxCustomTokenType then
       (case t of
          TxCustomToken tx d \<Rightarrow>
            (case group_coins (proof_outputs t) (fst s) of
               None \<Rightarrow> None
             | Some cs \<Rightarrow> map_option (\<lambda>ms. (cs, ms)) (group_vouts d (Vouts d) (snd s)))
        | _ \<Rightarrow> None)
     else Some s)"

fun group_txs :: "Transaction list \<Rightarrow> Coin list list \<times> token_map list \<Rightarrow> (Coin list list \<times> token_map list) option" where
  "group_txs [] s = Some s"
| "group_txs (t # ts) s = (case group_tx t s of None \<Rightarrow> None | Some s' \<Rightarrow> group_txs ts s')"

definition calHashOutCoinCrossShard :: "'db ChainEnv \<Rightarrow> (Coin \<Rightarrow> bytes) \<Rightarrow> Coin list \<Rightarrow> hash" where
  "calHashOutCoinCrossShard e ob outCoins =
    (if length outCoins \<noteq> 0 then HashH e (concat (map ob outCoins)) else HashH e [])"

text \<open>\<open>TxTokenData.Hash\<close> gives nil for nil \<open>Vouts\<close>, and \<open>GetBytes\<close> of nil panics.\<close>

definition calHashTxTokenDataHashList :: "'db ChainEnv \<Rightarrow> TxTokenData list \<Rightarrow> hash option" where
  "calHashTxTokenDataHashList e txTokenDataList =
     map_option (\<lambda>hs. HashH e (concat hs)) (those (map (TxTokenData_Hash e) txTokenDataList))"

definition sort_tokens :: "token_map \<Rightarrow> TxTokenData list" where
  "sort_tokens m = sort_key (\<lambda>d. Hash_String (tdPropertyID d)) (map snd m)"

definition calHashTxTokenDataHashFromMap :: "'db ChainEnv \<Rightarrow> token_map \<Rightarrow> hash option" where
  "calHashTxTokenDataHashFromMap e txTokenDataMap =
    (if length txTokenDataMap = 0 then Some (HashH e [])
     else calHashTxTokenDataHashList e (sort_tokens txTokenDataMap))"

definition getCrossShardDataHash :: "'db ChainEnv \<Rightarrow> (Coin \<Rightarrow> bytes) \<Rightarrow> Transaction list \<Rightarrow> hash list option" where
  "getCrossShardDataHash e ob txList =
    (case group_txs txList (replicate MAX_SHARD_NUMBER [], replicate MAX_SHARD_NUMBER []) of
       None \<Rightarrow> None
     | Some (outCoinEachShard, txTokenDataEachShard) \<Rightarrow>
         (case those (map (calHashTxTokenDataHashFromMap e) txTokenDataEachShard) of
            None \<Rightarrow> None
          | Some txTokenOutHash \<Rightarrow>
              (let outputCoinHash = map (calHashOutCoinCrossShard e ob) outCoinEachShard
               in Some (map2 (\<lambda>h t. HashH e (h @ t)) outputCoinHash txTokenOutHash))))"

text \<open>The outputs for one shard, as \<open>CreateCrossShardBlock\<close> collects them.\<close>

definition getOutCoinCrossShard :: "Transaction list \<Rightarrow> u8 \<Rightarrow> Coin list option" where
  "getOutCoinCrossShard txList shardID =
    (let coins = concat (map proof_outputs txList)
     in if list_ex (\<lambda>c. GetPubKeyLastByte c = None) coins then None
        else Some (filter (\<lambda>c. GetPubKeyLastByte c = Some shardID) coins))"

fun shard_vouts :: "u8 \<Rightarrow> TxTokenData \<Rightarrow> TxTokenVout list \<Rightarrow> token_map \<Rightarrow> token_map option" where
  "shard_vouts shardID d [] txTokenDataMap = Some txTokenDataMap"
| "shard_vouts shardID d (v # vs) txTokenDataMap =
    (case last_byte (paPk (voPaymentAddress v)) of
       None \<Rightarrow> None
     | Some b \<Rightarrow>
         shard_vouts shardID d vs
           (if GetShardIDFromLastByte b = shardID then add_vout d v txTokenDataMap else txTokenDataMap))"

fun shard_tokens :: "u8 \<Rightarrow> Transaction list \<Rightarrow> token_map \<Rightarrow> token_map option" where
  "shard_tokens shardID [] m = Some m"
| "shard_tokens shardID (t # ts) m =
    (if txType (baseTx t) = TxCustomTokenType then
       (case t of
          TxCustomToken tx d \<Rightarrow>
            (case shard_vouts shardID d (Vouts d) m of None \<Rightarrow> None | Some m' \<Rightarrow> shard_tokens shardID ts m')
        | _ \<Rightarrow> None)
     else shard_tokens shardID ts m)"

definition getTxTokenDataCrossShard :: "Transaction list \<Rightarrow> u8 \<Rightarrow> TxTokenData list option" where
  "getTxTokenDataCrossShard txList shardID = map_option sort_tokens (shard_tokens shardID txList [])"

section \<open>The shard transaction root\<close>

text \<open>The loop of \<open>CreateShardTxRoot\<close> appends parents until the cursor meets the end.\<close>

function root_loop :: "'db ChainEnv \<Rightarrow> nat \<Rightarrow> hash list \<Rightarrow> hash list option" where
  "root_loop e cursor merkleData =
    (if cursor + 1 < length merkleData then
       (let merkleData' = merkleData @ [HashH e (merkleData ! cursor @ merkleData ! (cursor + 1))];
            cursor' = cursor + 2
        in if cursor' \<ge> length merkleData' - 1 then Some merkleData' else root_loop e cursor' merkleData')
     else None)"
  by auto

termination
  by (relation "measure (\<lambda>(e, cursor, merkleData). length merkleData - cursor)") auto

declare root_loop.simps [simp del]

definition CreateShardTxRoot ::
  "'db ChainEnv \<Rightarrow> (Coin \<Rightarrow> bytes) \<Rightarrow> Transaction list \<Rightarrow> (hash list \<times> hash list) option" where
  "CreateShardTxRoot e ob txList =
    (case getCrossShardDataHash e ob txList of
       None \<Rightarrow> None
     | Some crossShardDataHash \<Rightarrow>
         map_option (\<lambda>merkleData. (crossShardDataHash, merkleData)) (root_loop e 0 crossShardDataHash))"

text \<open>
  The loop of \<open>GetMerklePathCrossShard\<close>: \<open>n\<close> is the number of leaves. An index out of range
  is \<open>None\<close>, as is running out of fuel.
\<close>

fun path_loop :: "nat \<Rightarrow> nat \<Rightarrow> hash list \<Rightarrow> nat \<Rightarrow> nat \<Rightarrow> nat \<Rightarrow> nat \<Rightarrow> hash list \<Rightarrow> hash list option" where
  "path_loop 0 n merkleData cursor lastCursor i time path = None"
| "path_loop (Suc fuel) n merkleData cursor lastCursor i time path =
    (if cursor + 2 \<ge> length merkleData then Some path
     else
       (let j = (if i mod 2 = 0 then cursor + i + 1 else cursor + i - 1)
        in if j \<ge> length merkleData then None
           else if time = 0 then
             path_loop fuel n merkleData (cursor + n) lastCursor (i div 2) (time + 1) (path @ [merkleData ! j])
           else
             path_loop fuel n merkleData (cursor + (cursor - lastCursor) div 2) cursor (i div 2) (time + 1)
               (path @ [merkleData ! j])))"

definition GetMerklePathCrossShard ::
  "'db ChainEnv \<Rightarrow> (Coin \<Rightarrow> bytes) \<Rightarrow> Transaction list \<Rightarrow> u8 \<Rightarrow> (hash list \<times> hash) option" where
  "GetMerklePathCrossShard e ob txList shardID =
    (case CreateShardTxRoot e ob txList of
       None \<Rightarrow> None
     | Some (crossShardDataHash, merkleData) \<Rightarrow>
         map_option (\<lambda>path. (path, last merkleData))
           (path_loop (length merkleData) (length crossShardDataHash) merkleData 0 0 (unat shardID) 0 []))"

fun climb :: "'db ChainEnv \<Rightarrow> nat \<Rightarrow> hash \<Rightarrow> hash list \<Rightarrow> hash" where
  "climb e i finalHash [] = finalHash"
| "climb e i finalHash (hashPath # path) =
    climb e (i div 2) (if i mod 2 = 0 then HashH e (finalHash @ hashPath) else HashH e (hashPath @ finalHash)) path"

definition VerifyMerkleTree :: "'db ChainEnv \<Rightarrow> hash \<Rightarrow> hash list \<Rightarrow> hash \<Rightarrow> u8 \<Rightarrow> bool" where
  "VerifyMerkleTree e finalHash merklePath merkleRoot receiverShardID =
    (Hash_String (climb e (unat receiverShardID) finalHash merklePath) = Hash_String merkleRoot)"

section \<open>Cross shard blocks (shardblock.go, shardcross_process.go)\<close>

type_synonym cross_block = "(Coin, TxTokenData) CrossShardBlock"

definition VerifyCrossShardBlockUTXO :: "'db ChainEnv \<Rightarrow> (Coin \<Rightarrow> bytes) \<Rightarrow> cross_block \<Rightarrow> hash list \<Rightarrow> bool option" where
  "VerifyCrossShardBlockUTXO e ob block merklePathShard =
    (let outputCoinHash = calHashOutCoinCrossShard e ob (csCrossOutputCoin block)
     in map_option (\<lambda>txTokenDataHash.
          VerifyMerkleTree e (HashH e (outputCoinHash @ txTokenDataHash)) merklePathShard
            (shShardTxRoot (csHeader block)) (csToShardID block))
        (calHashTxTokenDataHashList e (csCrossTxTokenData block)))"

datatype cross_block_error = SignatureError | HashError | EmptyCrossShard | CrossShardBlockError

definition VerifyCrossShardBlock ::
  "'db ChainEnv \<Rightarrow> (Coin \<Rightarrow> bytes) \<Rightarrow> cross_block \<Rightarrow> string list \<Rightarrow> (cross_block_error + unit) option" where
  "VerifyCrossShardBlock e ob block committees =
    (if \<not> ValidateAggSignature (csValidatorsIdx block) committees (csAggregatedSig block) (csR block)
           (ShardHeader_Hash e (csHeader block)) then Some (Inl SignatureError)
     else map_option (\<lambda>ok. if \<not> ok then Inl HashError else Inr ())
            (VerifyCrossShardBlockUTXO e ob block (csMerklePathShard block)))"

definition CreateCrossShardBlock ::
  "'db ChainEnv \<Rightarrow> (Coin \<Rightarrow> bytes) \<Rightarrow> ShardBody ShardBlock \<Rightarrow> u8 \<Rightarrow> (cross_block_error + cross_block) option" where
  "CreateCrossShardBlock e ob block shardID =
    (case (getOutCoinCrossShard (sbTransactions (sBody block)) shardID,
           getTxTokenDataCrossShard (sbTransactions (sBody block)) shardID) of
       (Some crossOutputCoin, Some crossTxTokenData) \<Rightarrow>
         if length crossOutputCoin = 0 \<and> length crossTxTokenData = 0 then Some (Inl EmptyCrossShard)
         else
           (case GetMerklePathCrossShard e ob (sbTransactions (sBody block)) shardID of
              None \<Rightarrow> None
            | Some (merklePathShard, merkleShardRoot) \<Rightarrow>
                if merkleShardRoot \<noteq> shShardTxRoot (sHeader block) then Some (Inl CrossShardBlockError)
                else Some (Inr
                  \<lparr>csAggregatedSig = sAggregatedSig block, csR = sR block, csValidatorsIdx = [],
                   csProducerSig = sProducerSig block, csHeader = sHeader block, csToShardID = shardID,
                   csMerklePathShard = merklePathShard, csCrossOutputCoin = crossOutputCoin,
                   csCrossTxTokenData = crossTxTokenData\<rparr>))
     | _ \<Rightarrow> None)"

fun all_cross :: "'db ChainEnv \<Rightarrow> (Coin \<Rightarrow> bytes) \<Rightarrow> ShardBody ShardBlock \<Rightarrow> nat list \<Rightarrow> (u8 \<rightharpoonup> cross_block) \<Rightarrow>
  (u8 \<rightharpoonup> cross_block) option" where
  "all_cross e ob blk [] allCrossShard = Some allCrossShard"
| "all_cross e ob blk (i # is) allCrossShard =
    (if word_of_nat i \<noteq> shShardID (sHeader blk) then
       (case CreateCrossShardBlock e ob blk (word_of_nat i) of
          None \<Rightarrow> None
        | Some (Inl _) \<Rightarrow> all_cross e ob blk is allCrossShard
        | Some (Inr crossShard) \<Rightarrow> all_cross e ob blk is (allCrossShard(word_of_nat i \<mapsto> crossShard)))
     else all_cross e ob blk is allCrossShard)"

definition CreateAllCrossShardBlock ::
  "'db ChainEnv \<Rightarrow> (Coin \<Rightarrow> bytes) \<Rightarrow> ShardBody ShardBlock \<Rightarrow> nat \<Rightarrow> (u8 \<rightharpoonup> cross_block) option" where
  "CreateAllCrossShardBlock e ob blk activeShards =
    (if activeShards = 1 then Some Map.empty else all_cross e ob blk [0..<activeShards] Map.empty)"

text \<open>
  The shards a block sends to. The code reduces the shard number twice, which changes nothing.
\<close>

fun mark_shards :: "bytes list \<Rightarrow> nat list \<Rightarrow> nat list option" where
  "mark_shards [] byteMap = Some byteMap"
| "mark_shards (pk # pks) byteMap =
    (case last_byte pk of
       None \<Rightarrow> None
     | Some lastByte \<Rightarrow>
         (let shardID = GetShardIDFromLastByte lastByte
          in mark_shards pks (byteMap[unat (GetShardIDFromLastByte shardID) := 1])))"

definition cross_keys :: "Transaction \<Rightarrow> bytes list option" where
  "cross_keys t =
    (let ty = txType (baseTx t)
     in if ty = TxNormalType \<or> ty = TxSalaryType then Some (map coPublicKey (proof_outputs t))
        else if ty = TxCustomTokenType then
          (case t of
             TxCustomToken tx d \<Rightarrow> Some (map (\<lambda>v. paPk (voPaymentAddress v)) (Vouts d))
           | _ \<Rightarrow> None)
        else if ty = TxCustomTokenPrivacyType then
          (case t of
             TxCustomTokenPrivacy tx d \<Rightarrow> Some (map coPublicKey (proof_outputs (NormalTx (pdTxNormal d))))
           | _ \<Rightarrow> None)
        else Some [])"

fun mark_txs :: "Transaction list \<Rightarrow> nat list \<Rightarrow> nat list option" where
  "mark_txs [] byteMap = Some byteMap"
| "mark_txs (t # ts) byteMap =
    (case cross_keys t of
       None \<Rightarrow> None
     | Some pks \<Rightarrow> (case mark_shards pks byteMap of None \<Rightarrow> None | Some byteMap' \<Rightarrow> mark_txs ts byteMap'))"

definition CreateCrossShardByteArray :: "Transaction list \<Rightarrow> u8 \<Rightarrow> u8 list option" where
  "CreateCrossShardByteArray txList fromShardID =
     map_option (\<lambda>byteMap. map word_of_nat (filter (\<lambda>k. byteMap ! k = 1 \<and> k \<noteq> unat fromShardID) [0..<length byteMap]))
       (mark_txs txList (replicate MAX_SHARD_NUMBER 0))"

definition calHashFromTxTokenDataList :: "'db ChainEnv \<Rightarrow> TxTokenData list \<Rightarrow> hash option" where
  "calHashFromTxTokenDataList e txTokenDataList =
     map_option (GenerateHashFromHashArray e)
       (those (map (TxTokenData_Hash e) (sort_key (\<lambda>d. Hash_String (tdPropertyID d)) txTokenDataList)))"

text \<open>\<open>None\<close>: an assign instruction is too short for the index the code reads.\<close>

fun select_assign :: "u8 \<Rightarrow> string list list \<Rightarrow> string list list option" where
  "select_assign shardID [] = Some []"
| "select_assign shardID (l # ls) =
    (if l = [] then None
     else if l ! 0 = ''assign'' \<and> length l < 3 then None
     else if l ! 0 = ''assign'' \<and> l ! 2 = ''shard'' then
       (if length l < 4 then None
        else map_option (\<lambda>r. if l ! 3 = Itoa (int (unat shardID)) then l # r else r) (select_assign shardID ls))
     else select_assign shardID ls)"

definition GetAssignInstructionFromBeaconBlock :: "BeaconBlock list \<Rightarrow> u8 \<Rightarrow> string list list option" where
  "GetAssignInstructionFromBeaconBlock beaconBlocks shardID =
     select_assign shardID (concat (map (\<lambda>b. bbInstructions (bBody b)) beaconBlocks))"


section \<open>Paths verify\<close>

lemma root_loop_four:
  "root_loop e 0 [a, b, c, d] =
     Some [a, b, c, d, HashH e (a @ b), HashH e (c @ d), HashH e (HashH e (a @ b) @ HashH e (c @ d))]"
  by (simp add: root_loop.simps Let_def)

lemma group_coins_length: "group_coins cs s = Some s' \<Longrightarrow> length s' = length s"
  by (induction cs arbitrary: s) (fastforce simp: Let_def split: option.splits)+

lemma group_vouts_length: "group_vouts d vs s = Some s' \<Longrightarrow> length s' = length s"
  by (induction vs arbitrary: s) (fastforce simp: Let_def split: option.splits)+

lemma group_tx_length:
  "group_tx t s = Some s' \<Longrightarrow> length (fst s') = length (fst s) \<and> length (snd s') = length (snd s)"
  by (auto simp: group_tx_def dest: group_coins_length group_vouts_length
      split: if_splits Transaction.Transaction.splits option.splits)

lemma group_txs_length:
  "group_txs ts s = Some s' \<Longrightarrow> length (fst s') = length (fst s) \<and> length (snd s') = length (snd s)"
  by (induction ts arbitrary: s) (fastforce dest: group_tx_length split: option.splits)+

lemma those_length: "those xs = Some ys \<Longrightarrow> length ys = length xs"
  by (induction xs arbitrary: ys) (auto split: option.splits)

lemma those_nth: "those xs = Some ys \<Longrightarrow> i < length xs \<Longrightarrow> xs ! i = Some (ys ! i)"
  by (induction xs arbitrary: ys i) (auto simp: nth_Cons split: option.splits nat.splits)

text \<open>What \<open>getCrossShardDataHash\<close> puts in the slot of a shard.\<close>

lemma getCrossShardDataHash_nth:
  assumes "getCrossShardDataHash e ob txs = Some hs"
  obtains cs ms where
    "group_txs txs (replicate MAX_SHARD_NUMBER [], replicate MAX_SHARD_NUMBER []) = Some (cs, ms)"
    "length hs = MAX_SHARD_NUMBER" "length cs = MAX_SHARD_NUMBER" "length ms = MAX_SHARD_NUMBER"
    "\<And>i. i < MAX_SHARD_NUMBER \<Longrightarrow> \<exists>t. calHashTxTokenDataHashFromMap e (ms ! i) = Some t \<and>
        hs ! i = HashH e (calHashOutCoinCrossShard e ob (cs ! i) @ t)"
proof -
  obtain cs ms ts where
    g: "group_txs txs (replicate MAX_SHARD_NUMBER [], replicate MAX_SHARD_NUMBER []) = Some (cs, ms)"
    and t: "those (map (calHashTxTokenDataHashFromMap e) ms) = Some ts"
    and hs: "hs = map2 (\<lambda>h t. HashH e (h @ t)) (map (calHashOutCoinCrossShard e ob) cs) ts"
    using assms by (auto simp: getCrossShardDataHash_def Let_def split: option.splits prod.splits)
  have len: "length cs = MAX_SHARD_NUMBER" "length ms = MAX_SHARD_NUMBER" "length ts = MAX_SHARD_NUMBER"
    using group_txs_length [OF g] those_length [OF t] by simp_all
  show ?thesis
  proof (rule that [OF g])
    fix i assume "i < MAX_SHARD_NUMBER"
    then show "\<exists>t. calHashTxTokenDataHashFromMap e (ms ! i) = Some t \<and>
        hs ! i = HashH e (calHashOutCoinCrossShard e ob (cs ! i) @ t)"
      using those_nth [OF t, of i] len by (simp add: hs)
  qed (use len hs in simp_all)
qed

definition sibling_path :: "'db ChainEnv \<Rightarrow> hash list \<Rightarrow> nat \<Rightarrow> hash list" where
  "sibling_path e hs i =
    [hs ! (if i mod 2 = 0 then i + 1 else i - 1),
     (if i < 2 then HashH e (hs ! 2 @ hs ! 3) else HashH e (hs ! 0 @ hs ! 1))]"

definition shard_root :: "'db ChainEnv \<Rightarrow> hash list \<Rightarrow> hash" where
  "shard_root e hs = HashH e (HashH e (hs ! 0 @ hs ! 1) @ HashH e (hs ! 2 @ hs ! 3))"

lemma nat_less_four: "(i::nat) < 4 \<Longrightarrow> i = 0 \<or> i = 1 \<or> i = 2 \<or> i = 3"
  by auto

lemma list_exactly_four: "length xs = 4 \<Longrightarrow> \<exists>a b c d. xs = [a, b, c, d]"
  using list_four [of xs] by auto

lemma path_loop_four:
  assumes "i < 4" "length hs = 4" "3 \<le> fuel"
  shows "path_loop fuel 4 (hs @ [HashH e (hs ! 0 @ hs ! 1), HashH e (hs ! 2 @ hs ! 3), shard_root e hs]) 0 0 i 0 [] =
    Some (sibling_path e hs i)"
proof -
  obtain n where fuel: "fuel = Suc (Suc (Suc n))" 
    using assms(3) by (metis numeral_3_eq_3 add_Suc add_0 le_Suc_ex)
  obtain a b c d where "hs = [a, b, c, d]" using list_exactly_four [OF assms(2)] by auto
  then show ?thesis
    using nat_less_four [OF assms(1)] by (elim disjE) (simp_all add: fuel sibling_path_def Let_def)
qed

lemma GetMerklePathCrossShard_eq:
  assumes "getCrossShardDataHash e ob txs = Some hs" "unat sid < MAX_SHARD_NUMBER"
  shows "GetMerklePathCrossShard e ob txs sid = Some (sibling_path e hs (unat sid), shard_root e hs)"
proof -
  have len: "length hs = 4" by (rule getCrossShardDataHash_nth [OF assms(1)]) (simp add: MAX_SHARD_NUMBER_def)
  have "CreateShardTxRoot e ob txs =
      Some (hs, hs @ [HashH e (hs ! 0 @ hs ! 1), HashH e (hs ! 2 @ hs ! 3), shard_root e hs])"
    using list_exactly_four [OF len] assms(1) by (auto simp: CreateShardTxRoot_def root_loop_four shard_root_def)
  then show ?thesis
    using path_loop_four [of "unat sid" hs 7 e] len assms(2)
    by (simp add: GetMerklePathCrossShard_def MAX_SHARD_NUMBER_def)
qed

lemma climb_sibling_path:
  assumes "i < 4"
  shows "climb e i (hs ! i) (sibling_path e hs i) = shard_root e hs"
  using nat_less_four [OF assms] by (auto simp: sibling_path_def shard_root_def)

text \<open>
  C15. The loop that collects a Merkle path ends, and the path it returns for a shard leads from the
  hash of that shard's outputs to the root: for each of the four shards the path has two entries and
  \<open>VerifyMerkleTree\<close> accepts it, with the root that \<open>CreateShardTxRoot\<close> puts last.
\<close>

theorem shard_path_verifies:
  assumes "getCrossShardDataHash e ob txs = Some hs" "unat sid < MAX_SHARD_NUMBER"
  shows "\<exists>path root. GetMerklePathCrossShard e ob txs sid = Some (path, root) \<and> length path = 2 \<and>
    VerifyMerkleTree e (hs ! unat sid) path root sid \<and>
    map_option (\<lambda>(leaves, data). (leaves, last data)) (CreateShardTxRoot e ob txs) = Some (hs, root)"
proof -
  have len: "length hs = 4" by (rule getCrossShardDataHash_nth [OF assms(1)]) (simp add: MAX_SHARD_NUMBER_def)
  show ?thesis
    using GetMerklePathCrossShard_eq [OF assms] climb_sibling_path [of "unat sid" e hs] assms list_exactly_four [OF len]
    by (auto simp: VerifyMerkleTree_def MAX_SHARD_NUMBER_def CreateShardTxRoot_def root_loop_four shard_root_def
        sibling_path_def)
qed

section \<open>Soundness of a path\<close>

text \<open>The strings that are hashed on the way up.\<close>

fun climb_inputs :: "'db ChainEnv \<Rightarrow> nat \<Rightarrow> hash \<Rightarrow> hash list \<Rightarrow> bytes list" where
  "climb_inputs e i h [] = []"
| "climb_inputs e i h (p # path) =
    (let s = (if i mod 2 = 0 then h @ p else p @ h) in s # climb_inputs e (i div 2) (HashH e s) path)"

lemma climb_inj:
  assumes "climb e i h path = climb e i h' path'" "length path = length path'" "length h = length h'"
    "\<And>p. p \<in> set path \<union> set path' \<Longrightarrow> length p = HashSize" "\<And>b. length (ceSha256 e b) = HashSize"
    "inj_on (ceSha256 e) (set (climb_inputs e i h path) \<union> set (climb_inputs e i h' path'))"
  shows "h = h' \<and> path = path'"
  using assms
proof (induction path arbitrary: i h h' path')
  case (Cons p path)
  then obtain q path2 where q: "path' = q # path2" by (metis length_Suc_conv)
  let ?s = "if i mod 2 = 0 then h @ p else p @ h" and ?s' = "if i mod 2 = 0 then h' @ q else q @ h'"
  have c: "climb e (i div 2) (HashH e ?s) path = climb e (i div 2) (HashH e ?s') path2"
    using Cons.prems(1) by (simp add: q split: if_splits)
  have inj: "inj_on (ceSha256 e) (insert ?s (set (climb_inputs e (i div 2) (HashH e ?s) path)) \<union>
      insert ?s' (set (climb_inputs e (i div 2) (HashH e ?s') path2)))"
    using Cons.prems(6) by (simp add: q Let_def)
  have "HashH e ?s = HashH e ?s' \<and> path = path2"
    by (rule Cons.IH [OF c]) (use Cons.prems(2-5) inj in \<open>auto simp: q HashH_def intro: inj_on_subset\<close>)
  moreover from this have "?s = ?s'"
    using inj_onD [OF inj, of ?s ?s'] by (simp add: HashH_def)
  ultimately show ?case
    using Cons.prems(3,4) q by (auto split: if_splits)
qed simp

text \<open>
  C14. A leaf that verifies against the root of a block is the leaf of the block: with a hash function of
  32 byte results that has no collision among the strings hashed by the two computations, a
  32 byte hash with a path of two entries, as long as the true one, each of 32 bytes, passes \<open>VerifyMerkleTree\<close> for shard \<open>sid\<close> only when it is the hash of
  the outputs that the block has for that shard, and the path is the one the block's producer computes. The length is a condition
  because \<open>VerifyMerkleTree\<close> does not look at it: an inner node with the rest of its path verifies too.
\<close>

theorem shard_path_sound:
  assumes "getCrossShardDataHash e ob txs = Some hs" "unat sid < MAX_SHARD_NUMBER"
    and "GetMerklePathCrossShard e ob txs sid = Some (path, root)"
    and "VerifyMerkleTree e h path' root sid" "length path' = length path" "length h = HashSize"
    and "\<forall>p \<in> set path'. length p = HashSize" "\<And>b. length (ceSha256 e b) = HashSize"
    and "inj_on (ceSha256 e)
      (set (climb_inputs e (unat sid) h path') \<union> set (climb_inputs e (unat sid) (hs ! unat sid) path))"
  shows "h = hs ! unat sid \<and> path' = path"
proof (rule getCrossShardDataHash_nth [OF assms(1)])
  fix cs ms
  assume leaf: "\<And>i. i < MAX_SHARD_NUMBER \<Longrightarrow> \<exists>t. calHashTxTokenDataHashFromMap e (ms ! i) = Some t \<and>
      hs ! i = HashH e (calHashOutCoinCrossShard e ob (cs ! i) @ t)"
  have lens: "length (hs ! i) = HashSize" if "i < 4" for i
    using leaf [of i] that assms(8) by (auto simp: HashH_def MAX_SHARD_NUMBER_def)
  have p: "path = sibling_path e hs (unat sid)" "root = shard_root e hs"
    using GetMerklePathCrossShard_eq [OF assms(1,2)] assms(3) by auto
  have lp: "length q = HashSize" if "q \<in> set path" for q
    using that lens assms(2,8) by (auto simp: p sibling_path_def HashH_def MAX_SHARD_NUMBER_def split: if_splits)
  have climb_len: "length g = HashSize \<Longrightarrow> length (climb e i g qs) = HashSize" for i g qs
    by (induction qs arbitrary: i g) (auto simp: HashH_def assms(8))
  have "climb e (unat sid) h path' = climb e (unat sid) (hs ! unat sid) path"
    using Hash_String_inj [of "climb e (unat sid) h path'" root] assms(2,4,6,8) climb_len
      climb_sibling_path [of "unat sid" e hs]
    by (simp add: VerifyMerkleTree_def p MAX_SHARD_NUMBER_def shard_root_def HashH_def)
  then show ?thesis
    by (rule climb_inj) (use assms lens lp in \<open>auto simp: MAX_SHARD_NUMBER_def\<close>)
qed


section \<open>Created blocks against the grouping\<close>

definition to_shard :: "nat \<Rightarrow> Coin \<Rightarrow> bool" where
  "to_shard i c = (case GetPubKeyLastByte c of None \<Rightarrow> False | Some b \<Rightarrow> unat (GetShardIDFromLastByte b) = i)"

lemma shard_bound [simp]: "unat (GetShardIDFromLastByte b) < MAX_SHARD_NUMBER"
  by (simp add: GetShardIDFromLastByte_def MAX_SHARD_NUMBER_def unat_of_nat)

lemma group_coins_nth:
  "group_coins cs s = Some s' \<Longrightarrow> length s = MAX_SHARD_NUMBER \<Longrightarrow> i < MAX_SHARD_NUMBER \<Longrightarrow>
    s' ! i = s ! i @ filter (to_shard i) cs"
proof (induction cs arbitrary: s)
  case (Cons c cs)
  from Cons.prems(1) obtain b where b: "GetPubKeyLastByte c = Some b" by (auto split: option.splits)
  show ?case
    using Cons.IH [of "s[unat (GetShardIDFromLastByte b) := s ! unat (GetShardIDFromLastByte b) @ [c]]"]
      Cons.prems b
    by (cases "unat (GetShardIDFromLastByte b) = i") (auto simp: to_shard_def Let_def)
qed simp

lemma group_vouts_nth:
  "group_vouts d vs s = Some s' \<Longrightarrow> length s = MAX_SHARD_NUMBER \<Longrightarrow> unat sid < MAX_SHARD_NUMBER \<Longrightarrow>
    shard_vouts sid d vs (s ! unat sid) = Some (s' ! unat sid)"
proof (induction vs arbitrary: s)
  case (Cons v vs)
  from Cons.prems(1) obtain b where b: "last_byte (paPk (voPaymentAddress v)) = Some b"
    by (auto split: option.splits)
  let ?i = "unat (GetShardIDFromLastByte b)"
  have eq: "?i = unat sid \<longleftrightarrow> GetShardIDFromLastByte b = sid" by (simp add: word_unat_eq_iff)
  show ?case
    using Cons.IH [of "s[?i := add_vout d v (s ! ?i)]"] Cons.prems b
    by (cases "GetShardIDFromLastByte b = sid") (auto simp: Let_def eq nth_list_update)
qed simp

text \<open>The outputs the leaves commit to: those of privacy token transactions are left out.\<close>

definition committed_outputs :: "Transaction \<Rightarrow> Coin list" where
  "committed_outputs t =
    (if txType (baseTx t) \<in> {TxNormalType, TxSalaryType, TxCustomTokenType} then proof_outputs t else [])"

lemma tx_type_distinct [simp]:
  "TxCustomTokenType \<noteq> TxNormalType" "TxCustomTokenType \<noteq> TxSalaryType"
  by (simp_all add: TxNormalType_def TxSalaryType_def TxCustomTokenType_def)

lemma group_tx_nth:
  assumes "group_tx t s = Some s'" "length (fst s) = MAX_SHARD_NUMBER" "length (snd s) = MAX_SHARD_NUMBER"
    "unat sid < MAX_SHARD_NUMBER"
  shows "fst s' ! unat sid = fst s ! unat sid @ filter (to_shard (unat sid)) (committed_outputs t)"
    and "shard_tokens sid (t # ts) (snd s ! unat sid) = shard_tokens sid ts (snd s' ! unat sid)"
  using assms group_coins_nth [of "proof_outputs t" "fst s" _ "unat sid"] group_vouts_nth [of _ _ "snd s" _ sid]
  by (auto simp: group_tx_def committed_outputs_def split: if_splits Transaction.Transaction.splits option.splits)

lemma group_txs_nth:
  "group_txs ts s = Some s' \<Longrightarrow> length (fst s) = MAX_SHARD_NUMBER \<Longrightarrow> length (snd s) = MAX_SHARD_NUMBER \<Longrightarrow>
    unat sid < MAX_SHARD_NUMBER \<Longrightarrow>
    fst s' ! unat sid = fst s ! unat sid @ filter (to_shard (unat sid)) (concat (map committed_outputs ts)) \<and>
    shard_tokens sid ts (snd s ! unat sid) = Some (snd s' ! unat sid)"
proof (induction ts arbitrary: s)
  case (Cons t ts)
  from Cons.prems(1) obtain s1 where s1: "group_tx t s = Some s1" "group_txs ts s1 = Some s'"
    by (auto split: option.splits)
  show ?case
    using Cons.IH [OF s1(2)] Cons.prems(2-4) group_tx_length [OF s1(1)]
      group_tx_nth [OF s1(1) Cons.prems(2-4)]
    by (auto simp del: shard_tokens.simps)
qed simp

text \<open>A coin of the created block ends in the number of the shard itself.\<close>

lemma getOutCoinCrossShard_eq:
  "getOutCoinCrossShard txs sid = Some cs \<Longrightarrow>
    cs = filter (\<lambda>c. GetPubKeyLastByte c = Some sid) (concat (map proof_outputs txs))"
  by (auto simp: getOutCoinCrossShard_def Let_def split: if_splits)

lemma CreateCrossShardBlock_fields:
  assumes "CreateCrossShardBlock e ob blk sid = Some (Inr cb)"
  shows "getOutCoinCrossShard (sbTransactions (sBody blk)) sid = Some (csCrossOutputCoin cb)"
    "getTxTokenDataCrossShard (sbTransactions (sBody blk)) sid = Some (csCrossTxTokenData cb)"
    "GetMerklePathCrossShard e ob (sbTransactions (sBody blk)) sid =
       Some (csMerklePathShard cb, shShardTxRoot (sHeader blk))"
    "csHeader cb = sHeader blk" "csToShardID cb = sid"
  using assms by (auto simp: CreateCrossShardBlock_def split: option.splits if_splits prod.splits)

lemma filter_committed:
  assumes "\<forall>t \<in> set txs. \<forall>c \<in> set (proof_outputs t). \<forall>b. GetPubKeyLastByte c = Some b \<longrightarrow>
      unat (GetShardIDFromLastByte b) = unat sid \<longrightarrow>
      b = sid \<and> txType (baseTx t) \<in> {TxNormalType, TxSalaryType, TxCustomTokenType}"
    and "unat sid < MAX_SHARD_NUMBER"
  shows "filter (to_shard (unat sid)) (concat (map committed_outputs txs)) =
    filter (\<lambda>c. GetPubKeyLastByte c = Some sid) (concat (map proof_outputs txs))"
proof -
  have sid: "GetShardIDFromLastByte sid = sid"
    using assms(2) by (simp add: GetShardIDFromLastByte_def)
  have "filter (to_shard (unat sid)) (committed_outputs t) =
      filter (\<lambda>c. GetPubKeyLastByte c = Some sid) (proof_outputs t)" if "t \<in> set txs" for t
  proof (cases "txType (baseTx t) \<in> {TxNormalType, TxSalaryType, TxCustomTokenType}")
    case True
    then have "committed_outputs t = proof_outputs t" by (simp add: committed_outputs_def)
    then show ?thesis
      using assms(1) that sid by (auto simp: to_shard_def intro!: filter_cong split: option.splits)
  next
    case False
    then have "filter (\<lambda>c. GetPubKeyLastByte c = Some sid) (proof_outputs t) = []"
      using assms(1) that sid by (fastforce simp: filter_empty_conv)
    then show ?thesis using False by (simp add: committed_outputs_def)
  qed
  then show ?thesis by (induction txs) auto
qed

lemma token_hash_sorted:
  "calHashTxTokenDataHashFromMap e m = calHashTxTokenDataHashList e (sort_tokens m)"
  by (simp add: calHashTxTokenDataHashFromMap_def calHashTxTokenDataHashList_def sort_tokens_def)

lemma GetMerklePathCrossShard_leaves:
  "GetMerklePathCrossShard e ob txs sid = Some r \<Longrightarrow> \<exists>hs. getCrossShardDataHash e ob txs = Some hs"
  by (auto simp: GetMerklePathCrossShard_def CreateShardTxRoot_def split: option.splits)

text \<open>
  C13. The cross shard block a shard builds for shard \<open>sid\<close> passes the check its receiver makes,
  \<open>VerifyCrossShardBlock\<close>, provided every output coin for that shard has a key that ends in the shard's
  own number and none is in a privacy token transaction.
\<close>

theorem created_cross_block_verifies:
  assumes "CreateCrossShardBlock e ob blk sid = Some (Inr cb)" "unat sid < MAX_SHARD_NUMBER"
    and "\<forall>t \<in> set (sbTransactions (sBody blk)). \<forall>c \<in> set (proof_outputs t). \<forall>b. GetPubKeyLastByte c = Some b \<longrightarrow>
      unat (GetShardIDFromLastByte b) = unat sid \<longrightarrow>
      b = sid \<and> txType (baseTx t) \<in> {TxNormalType, TxSalaryType, TxCustomTokenType}"
  shows "VerifyCrossShardBlock e ob cb committees = Some (Inr ())"
proof -
  let ?txs = "sbTransactions (sBody blk)"
  note f = CreateCrossShardBlock_fields [OF assms(1)]
  obtain hs where hs: "getCrossShardDataHash e ob ?txs = Some hs"
    using GetMerklePathCrossShard_leaves [OF f(3)] by auto
  have path: "csMerklePathShard cb = sibling_path e hs (unat sid)" "shShardTxRoot (sHeader blk) = shard_root e hs"
    using GetMerklePathCrossShard_eq [OF hs assms(2)] f(3) by simp_all
  show ?thesis
  proof (rule getCrossShardDataHash_nth [OF hs])
    fix cs ms
    assume g: "group_txs ?txs (replicate MAX_SHARD_NUMBER [], replicate MAX_SHARD_NUMBER []) = Some (cs, ms)"
      and leaf: "\<And>i. i < MAX_SHARD_NUMBER \<Longrightarrow> \<exists>t. calHashTxTokenDataHashFromMap e (ms ! i) = Some t \<and>
        hs ! i = HashH e (calHashOutCoinCrossShard e ob (cs ! i) @ t)"
    have coins: "cs ! unat sid = csCrossOutputCoin cb"
      using group_txs_nth [OF g _ _ assms(2)] filter_committed [OF assms(3,2)] getOutCoinCrossShard_eq [OF f(1)] assms(2)
      by simp
    have toks: "sort_tokens (ms ! unat sid) = csCrossTxTokenData cb"
      using group_txs_nth [OF g _ _ assms(2)] f(2) assms(2) by (simp add: getTxTokenDataCrossShard_def)
    obtain t where t: "calHashTxTokenDataHashList e (csCrossTxTokenData cb) = Some t"
      "hs ! unat sid = HashH e (calHashOutCoinCrossShard e ob (csCrossOutputCoin cb) @ t)"
      using leaf [OF assms(2)] coins toks by (auto simp: token_hash_sorted)
    have "VerifyMerkleTree e (hs ! unat sid) (csMerklePathShard cb) (shShardTxRoot (csHeader cb)) sid"
      using climb_sibling_path [of "unat sid" e hs] assms(2) path f(4)
      by (simp add: VerifyMerkleTree_def MAX_SHARD_NUMBER_def)
    then have "VerifyCrossShardBlockUTXO e ob cb (csMerklePathShard cb) = Some True"
      using t f(5) by (simp add: VerifyCrossShardBlockUTXO_def)
    then show ?thesis
      by (simp add: VerifyCrossShardBlock_def ValidateAggSignature_def)
  qed
qed

section \<open>Coins that are never sent\<close>

lemma mark_shards_length: "mark_shards pks m = Some m' \<Longrightarrow> length m' = length m"
  by (induction pks arbitrary: m) (fastforce simp: Let_def split: option.splits)+

lemma mark_shards_mono:
  "mark_shards pks m = Some m' \<Longrightarrow> m ! k = 1 \<Longrightarrow> k < length m \<Longrightarrow> m' ! k = 1"
proof (induction pks arbitrary: m)
  case (Cons pk pks)
  then obtain b where "last_byte pk = Some b" by (auto split: option.splits)
  then show ?case
    using Cons.prems Cons.IH [of "m[unat (GetShardIDFromLastByte (GetShardIDFromLastByte b)) := 1]"]
    by (cases "k = unat (GetShardIDFromLastByte (GetShardIDFromLastByte b))") (auto simp: Let_def)
qed simp

lemma GetShardID_idem [simp]: "GetShardIDFromLastByte (GetShardIDFromLastByte b) = GetShardIDFromLastByte b"
  by (simp add: GetShardIDFromLastByte_def MAX_SHARD_NUMBER_def unat_of_nat)

lemma mark_shards_mem:
  "mark_shards pks m = Some m' \<Longrightarrow> pk \<in> set pks \<Longrightarrow> last_byte pk = Some b \<Longrightarrow> length m = MAX_SHARD_NUMBER \<Longrightarrow>
    m' ! unat (GetShardIDFromLastByte b) = 1"
proof (induction pks arbitrary: m)
  case (Cons p pks)
  then obtain b' where b': "last_byte p = Some b'" by (auto split: option.splits)
  show ?case
  proof (cases "p = pk")
    case True
    then show ?thesis
      using Cons.prems b' mark_shards_mono [of pks "m[unat (GetShardIDFromLastByte b) := 1]" m']
      by (auto simp: Let_def)
  next
    case False
    then show ?thesis
      using Cons.prems b' Cons.IH [of "m[unat (GetShardIDFromLastByte b') := 1]"] by (auto simp: Let_def)
  qed
qed simp

lemma mark_txs_mono:
  "mark_txs ts m = Some m' \<Longrightarrow> m ! k = 1 \<Longrightarrow> k < length m \<Longrightarrow> length m' = length m \<and> m' ! k = 1"
  by (induction ts arbitrary: m) (fastforce dest: mark_shards_mono mark_shards_length split: option.splits)+

lemma mark_txs_mem:
  "mark_txs ts m = Some m' \<Longrightarrow> t \<in> set ts \<Longrightarrow> cross_keys t = Some pks \<Longrightarrow> pk \<in> set pks \<Longrightarrow>
    last_byte pk = Some b \<Longrightarrow> length m = MAX_SHARD_NUMBER \<Longrightarrow>
    length m' = MAX_SHARD_NUMBER \<and> m' ! unat (GetShardIDFromLastByte b) = 1"
proof (induction ts arbitrary: m)
  case (Cons t' ts)
  then obtain pks' m1 where m1: "cross_keys t' = Some pks'" "mark_shards pks' m = Some m1" "mark_txs ts m1 = Some m'"
    by (auto split: option.splits)
  have len: "length m1 = MAX_SHARD_NUMBER" using mark_shards_length [OF m1(2)] Cons.prems(6) by simp
  show ?case
  proof (cases "t' = t")
    case True
    then have "m1 ! unat (GetShardIDFromLastByte b) = 1"
      using mark_shards_mem [OF m1(2)] m1(1) Cons.prems by simp
    then show ?thesis using mark_txs_mono [OF m1(3)] len by simp
  next
    case False
    then show ?thesis using Cons.IH [OF m1(3)] Cons.prems len by simp
  qed
qed simp

text \<open>
  A coin sent to another shard by a key whose last byte is not below the number of shards is announced
  and never delivered: the header's list of shards (\<open>CreateCrossShardByteArray\<close>) names the receiving
  shard, whose number is the last byte modulo four, but no cross shard block that the block gives
  rise to holds the coin, since \<open>getOutCoinCrossShard\<close> compares the whole byte.
\<close>

theorem foreign_coin_never_sent:
  assumes "t \<in> set (sbTransactions (sBody blk))" "txType (baseTx t) = TxNormalType" "c \<in> set (proof_outputs t)"
    and "GetPubKeyLastByte c = Some b" "MAX_SHARD_NUMBER \<le> unat b"
    and "GetShardIDFromLastByte b \<noteq> from"
    and "CreateCrossShardByteArray (sbTransactions (sBody blk)) from = Some ids"
  shows "GetShardIDFromLastByte b \<in> set ids \<and>
    (\<forall>sid cb. unat sid < MAX_SHARD_NUMBER \<longrightarrow> CreateCrossShardBlock e ob blk sid = Some (Inr cb) \<longrightarrow>
       c \<notin> set (csCrossOutputCoin cb))"
proof (intro conjI allI impI)
  obtain m where m: "mark_txs (sbTransactions (sBody blk)) (replicate MAX_SHARD_NUMBER 0) = Some m"
    "ids = map word_of_nat (filter (\<lambda>k. m ! k = 1 \<and> k \<noteq> unat from) [0..<length m])"
    using assms(7) by (auto simp: CreateCrossShardByteArray_def)
  have "cross_keys t = Some (map coPublicKey (proof_outputs t))" using assms(2) by (simp add: cross_keys_def)
  then have "length m = MAX_SHARD_NUMBER \<and> m ! unat (GetShardIDFromLastByte b) = 1"
    using mark_txs_mem [OF m(1) assms(1), of "map coPublicKey (proof_outputs t)" "coPublicKey c" b] assms(3,4)
    by (simp add: GetPubKeyLastByte_def)
  moreover have "unat (GetShardIDFromLastByte b) \<noteq> unat from" using assms(6) by (simp add: word_unat_eq_iff)
  ultimately have "unat (GetShardIDFromLastByte b) \<in> set (filter (\<lambda>k. m ! k = 1 \<and> k \<noteq> unat from) [0..<length m])"
    by simp
  then have "word_of_nat (unat (GetShardIDFromLastByte b)) \<in> set ids"
    unfolding m(2) set_map by (rule imageI)
  then show "GetShardIDFromLastByte b \<in> set ids" by simp
next
  fix sid cb
  assume "unat sid < MAX_SHARD_NUMBER" "CreateCrossShardBlock e ob blk sid = Some (Inr cb)"
  then show "c \<notin> set (csCrossOutputCoin cb)"
    using getOutCoinCrossShard_eq [OF CreateCrossShardBlock_fields(1)] assms(4,5) by fastforce
qed

section \<open>A block with one foreign output\<close>

definition sample_out :: "u8 \<Rightarrow> Coin" where
  "sample_out b = \<lparr>coPublicKey = [2, b], coSerialNumber = [], coSNDerivator = 0, coCoinCommitment = [b], coValue = 5\<rparr>"

definition sample_send :: "u8 \<Rightarrow> Transaction" where
  "sample_send b =
     NormalTx \<lparr>txVersion = 1, txType = TxNormalType, txLockTime = 0, txFee = 1, txInfo = [], txSigPubKey = [], txSig = [],
       txProof = Some \<lparr>ppInputCoins = [], ppOutputCoins = [sample_out b], ppHasOneOfMany = False, ppBytes = []\<rparr>,
       txPubKeyLastByteSender = 0, txMetadata = None\<rparr>"

lemma sample_send_outputs [simp]:
  "proof_outputs (sample_send b) = [sample_out b]" "txType (baseTx (sample_send b)) = TxNormalType"
  "GetPubKeyLastByte (sample_out b) = Some b"
  by (simp_all add: sample_send_def proof_outputs_def sample_out_def GetPubKeyLastByte_def last_byte_def)

definition sample_leaf :: "Coin list \<Rightarrow> hash" where
  "sample_leaf cs = HashH sample_env (calHashOutCoinCrossShard sample_env coCoinCommitment cs @ HashH sample_env [])"

lemma replicate_shards: "replicate MAX_SHARD_NUMBER x = [x, x, x, x]"
  by (simp add: MAX_SHARD_NUMBER_def numeral_eq_Suc)

lemma shard_of_one [simp]: "GetShardIDFromLastByte 1 = 1"
  by (simp add: GetShardIDFromLastByte_def MAX_SHARD_NUMBER_def)

lemma sample_leaves:
  "getCrossShardDataHash sample_env coCoinCommitment [sample_send 1] =
     Some [sample_leaf [], sample_leaf [sample_out 1], sample_leaf [], sample_leaf []]"
  by (simp add: getCrossShardDataHash_def group_tx_def replicate_shards
      calHashTxTokenDataHashFromMap_def sample_leaf_def)

theorem shard_path_verifies_witness:
  "\<exists>path root. GetMerklePathCrossShard sample_env coCoinCommitment [sample_send 1] 1 = Some (path, root) \<and>
    VerifyMerkleTree sample_env (sample_leaf [sample_out 1]) path root 1"
  using shard_path_verifies [OF sample_leaves, of 1] by (auto simp: MAX_SHARD_NUMBER_def)


lemma toy_sha_length [simp]: "length (ceSha256 sample_env b) = HashSize"
  by (simp add: sample_env_def toy_sha_def HashSize_def)

lemma toy_sha_eq [simp]: "ceSha256 sample_env b = replicate 31 0 @ [sum_list b + 1]"
  by (simp add: sample_env_def toy_sha_def)

lemma sample_leaf_length [simp]: "length (sample_leaf cs) = HashSize"
  by (simp add: sample_leaf_def HashH_def HashSize_def)

lemma sample_leaf_sums [simp]:
  "sum_list (sample_leaf []) = 3" "sum_list (sample_leaf [sample_out 1]) = 4"
  by (simp_all add: sample_leaf_def HashH_def calHashOutCoinCrossShard_def sample_out_def sum_list_replicate)

lemma sample_path:
  "GetMerklePathCrossShard sample_env coCoinCommitment [sample_send 1] 1 =
     Some ([sample_leaf [], HashH sample_env (sample_leaf [] @ sample_leaf [])],
       shard_root sample_env [sample_leaf [], sample_leaf [sample_out 1], sample_leaf [], sample_leaf []])"
  using GetMerklePathCrossShard_eq [OF sample_leaves, of 1]
  by (simp add: sibling_path_def MAX_SHARD_NUMBER_def)

theorem shard_path_sound_witness:
  "VerifyMerkleTree sample_env (sample_leaf [sample_out 1])
     [sample_leaf [], HashH sample_env (sample_leaf [] @ sample_leaf [])]
     (shard_root sample_env [sample_leaf [], sample_leaf [sample_out 1], sample_leaf [], sample_leaf []]) 1 \<and>
   sample_leaf [sample_out 1] = [sample_leaf [], sample_leaf [sample_out 1], sample_leaf [], sample_leaf []] ! unat (1 :: u8)"
proof -
  have v: "VerifyMerkleTree sample_env (sample_leaf [sample_out 1])
     [sample_leaf [], HashH sample_env (sample_leaf [] @ sample_leaf [])]
     (shard_root sample_env [sample_leaf [], sample_leaf [sample_out 1], sample_leaf [], sample_leaf []]) 1"
    by (simp add: VerifyMerkleTree_def shard_root_def)
  show ?thesis
    using v shard_path_sound [OF sample_leaves _ sample_path v]
    by (simp add: MAX_SHARD_NUMBER_def HashH_def HashSize_def)
qed

definition sample_header :: "hash \<Rightarrow> ShardHeader" where
  "sample_header r =
     \<lparr>shProducerAddress = [], shProducer = [], shShardID = 0, shVersion = 1, shPrevBlockHash = [], shHeight = 2,
      shRound = 1, shEpoch = 1, shTimestamp = 0, shTxRoot = [], shShardTxRoot = r, shCrossOutputCoinRoot = [],
      shInstructionsRoot = [], shCommitteeRoot = [], shPendingValidatorRoot = [], shCrossShards = [1],
      shBeaconHeight = 1, shBeaconHash = []\<rparr>"

definition sample_shard_block :: "u8 \<Rightarrow> ShardBody ShardBlock" where
  "sample_shard_block b =
     \<lparr>sAggregatedSig = [], sR = [], sValidatorsIdx = [], sProducerSig = [],
      sBody = \<lparr>sbInstructions = [], sbCrossOutputCoin = [], sbTransactions = [sample_send b]\<rparr>,
      sHeader = sample_header
        (shard_root sample_env [sample_leaf [], sample_leaf [sample_out 1], sample_leaf [], sample_leaf []])\<rparr>"

lemma sample_block_txs [simp]: "sbTransactions (sBody (sample_shard_block b)) = [sample_send b]"
  by (simp add: sample_shard_block_def)

definition sample_cross :: cross_block where
  "sample_cross =
     \<lparr>csAggregatedSig = [], csR = [], csValidatorsIdx = [], csProducerSig = [],
      csHeader = sHeader (sample_shard_block 1), csToShardID = 1,
      csMerklePathShard = [sample_leaf [], HashH sample_env (sample_leaf [] @ sample_leaf [])],
      csCrossOutputCoin = [sample_out 1], csCrossTxTokenData = []\<rparr>"

lemma sample_tokens [simp]: "getTxTokenDataCrossShard [sample_send b] s = Some []"
  by (simp add: getTxTokenDataCrossShard_def sort_tokens_def tx_type_distinct [symmetric] del: tx_type_distinct)

lemma sample_created:
  "CreateCrossShardBlock sample_env coCoinCommitment (sample_shard_block 1) 1 = Some (Inr sample_cross)"
  by (simp add: CreateCrossShardBlock_def getOutCoinCrossShard_def sample_path sample_cross_def)
    (simp add: sample_shard_block_def sample_header_def)

theorem created_cross_block_verifies_witness:
  "VerifyCrossShardBlock sample_env coCoinCommitment sample_cross [''k''] = Some (Inr ())"
  by (rule created_cross_block_verifies [OF sample_created]) (simp_all add: MAX_SHARD_NUMBER_def)

theorem foreign_coin_never_sent_witness:
  "\<not> (\<exists>sid cb. unat sid < MAX_SHARD_NUMBER \<and>
     CreateCrossShardBlock sample_env coCoinCommitment (sample_shard_block 5) sid = Some (Inr cb) \<and>
     sample_out 5 \<in> set (csCrossOutputCoin cb))"
proof -
  have five: "GetShardIDFromLastByte 5 = 1"
    by (simp add: GetShardIDFromLastByte_def MAX_SHARD_NUMBER_def)
  then have "CreateCrossShardByteArray [sample_send 5] 0 = Some [1]"
    by (simp add: CreateCrossShardByteArray_def cross_keys_def replicate_shards sample_out_def last_byte_def upt_conv_Cons)
  then show ?thesis
    using foreign_coin_never_sent [of "sample_send 5" "sample_shard_block 5" "sample_out 5" 5 0 "[1]" sample_env
        coCoinCommitment] five
    by (auto simp: MAX_SHARD_NUMBER_def)
qed

end
