(* ===== verification/Shard_State.thy ===== *)
theory Shard_State
  imports Beacon_State Cross_Block Tx_Pool
begin

text \<open>
  The best state of a shard chain (\<open>src/blockchain/shardbeststate.go\<close>) and its update by a new block, with the
  checks that use the state only (\<open>src/blockchain/shardprocess.go\<close>), and the part of the producer that
  decides the committee of the next block (\<open>src/blockchain/shardproducer.go\<close>). \<open>Update\<close> changes the state in
  place: its result is the state it leaves with the error, and \<open>None\<close> for a panic. Shown: a completed
  update extends the chain; the verifier agrees with the producer on a swap exactly when
  the committee is full, and refuses the producer's own swap otherwise.
\<close>

section \<open>The state\<close>

record BestStateShard =
  shsBestBlockHash :: hash
  shsBestBlock :: "ShardBody ShardBlock option"
  shsBestBeaconHash :: hash
  shsBeaconHeight :: u64
  shsShardID :: u8
  shsEpoch :: u64
  shsShardHeight :: u64
  shsShardCommitteeSize :: int
  shsShardProposerIdx :: int
  shsShardCommittee :: "string list"
  shsShardPendingValidator :: "string list"
  shsBestCrossShard :: "u8 \<rightharpoonup> u64"
  shsNumTxns :: u64
  shsTotalTxns :: u64
  shsActiveShards :: int

definition zeroBestStateShard :: BestStateShard where
  "zeroBestStateShard =
     \<lparr>shsBestBlockHash = replicate 32 0, shsBestBlock = None, shsBestBeaconHash = replicate 32 0, shsBeaconHeight = 0,
      shsShardID = 0, shsEpoch = 0, shsShardHeight = 0, shsShardCommitteeSize = 0, shsShardProposerIdx = 0,
      shsShardCommittee = [], shsShardPendingValidator = [], shsBestCrossShard = Map.empty, shsNumTxns = 0,
      shsTotalTxns = 0, shsActiveShards = 0\<rparr>"

text \<open>The map of the shards' states; asking for a missing one adds it.\<close>

definition GetBestStateShard :: "u8 \<Rightarrow> (u8 \<rightharpoonup> BestStateShard) \<Rightarrow> (u8 \<rightharpoonup> BestStateShard) \<times> BestStateShard" where
  "GetBestStateShard shardID m =
    (case m shardID of
       None \<Rightarrow> (let bs = zeroBestStateShard\<lparr>shsShardID := shardID\<rparr> in (m(shardID \<mapsto> bs), bs))
     | Some bs \<Rightarrow> (m, bs))"

definition SetBestStateShard :: "u8 \<Rightarrow> BestStateShard \<Rightarrow> (u8 \<rightharpoonup> BestStateShard) \<Rightarrow> (u8 \<rightharpoonup> BestStateShard)" where
  "SetBestStateShard shardID bs m = m(shardID \<mapsto> bs)"

definition InitBestStateShard :: "u8 \<Rightarrow> NetParams \<Rightarrow> (u8 \<rightharpoonup> BestStateShard) \<Rightarrow> (u8 \<rightharpoonup> BestStateShard)" where
  "InitBestStateShard shardID netparam m =
    (let (m, bs) = GetBestStateShard shardID m
     in m(shardID \<mapsto> bs
       \<lparr>shsBestBlockHash := replicate 32 0, shsBestBeaconHash := replicate 32 0, shsBestBlock := None, shsShardCommittee := [],
        shsShardCommitteeSize := npShardCommitteeSize netparam, shsShardPendingValidator := [],
        shsActiveShards := npActiveShards netparam, shsBestCrossShard := Map.empty, shsShardHeight := 1, shsBeaconHeight := 1\<rparr>))"

text \<open>\<open>PutUint32(uint32(n))\<close> of an \<open>int\<close>.\<close>

definition int32_bytes :: "int \<Rightarrow> bytes" where
  "int32_bytes n = Uint32ToBytes (word_of_int n)"

text \<open>No best block, a nil pointer: \<open>None\<close>.\<close>

definition BestStateShard_GetBytes :: "'db ChainEnv \<Rightarrow> BestStateShard \<Rightarrow> bytes option" where
  "BestStateShard_GetBytes e bs =
     map_option (\<lambda>blk.
       shsBestBlockHash bs @ ShardHeader_Hash e (sHeader blk) @ shsBestBeaconHash bs @ Uint64ToBytes (shsBeaconHeight bs) @
       [shsShardID bs] @ Uint64ToBytes (shsEpoch bs) @ Uint64ToBytes (shsShardHeight bs) @
       int32_bytes (shsShardCommitteeSize bs) @ int32_bytes (shsShardProposerIdx bs) @
       concat (map str_bytes (shsShardCommittee bs)) @ concat (map str_bytes (shsShardPendingValidator bs)) @
       concat (map (\<lambda>(k, v). Uint64ToBytes v) (entries (shsBestCrossShard bs))) @
       Uint64ToBytes (shsNumTxns bs) @ Uint64ToBytes (shsTotalTxns bs) @ int32_bytes (shsActiveShards bs))
     (shsBestBlock bs)"

definition BestStateShard_Hash :: "'db ChainEnv \<Rightarrow> BestStateShard \<Rightarrow> hash option" where
  "BestStateShard_Hash e bs = map_option (HashH e) (BestStateShard_GetBytes e bs)"

definition Shard_GetPubkeyRole :: "BestStateShard \<Rightarrow> string \<Rightarrow> int \<Rightarrow> Role" where
  "Shard_GetPubkeyRole bs pubkey proposerOffset =
    (let found = IndexOfStr pubkey (shsShardCommittee bs)
     in if found > -1 then
          (let tmpID = go_rem (go_int (shsShardProposerIdx bs + proposerOffset + 1)) (int (length (shsShardCommittee bs)))
           in if found = tmpID then PROPOSER_ROLE else VALIDATOR_ROLE)
        else if IndexOfStr pubkey (shsShardPendingValidator bs) > -1 then PENDING_ROLE
        else NoRole)"

section \<open>Update\<close>

datatype shard_error =
    ProducerError | ShardIDError | VersionError | DBError | BlockHeightError | TimestampError | HashError | BeaconError
  | InstructionError | TransactionError | CrossShardBlockError | SignatureError | UnExpectedError | SwapError
  | ShardError | DuplicateBlockErr | FetchError | StabilityError

definition ShardBlock_Hash :: "'db ChainEnv \<Rightarrow> 'body ShardBlock \<Rightarrow> hash" where
  "ShardBlock_Hash e b = ShardHeader_Hash e (sHeader b)"

text \<open>The first part; \<open>genesis\<close> is the hash of the first beacon block.\<close>

definition shard_update_best :: "'db ChainEnv \<Rightarrow> hash \<Rightarrow> ShardBody ShardBlock \<Rightarrow> BestStateShard \<Rightarrow> BestStateShard" where
  "shard_update_best e genesis block bs =
    (let h = sHeader block; n = word_of_nat (length (sbTransactions (sBody block)))
     in bs\<lparr>shsBestBlockHash := ShardBlock_Hash e block,
          shsBestBeaconHash := (if shBeaconHeight h = 1 then genesis else shBeaconHash h),
          shsBestCrossShard := (if shHeight h = 1 then Map.empty else shsBestCrossShard bs),
          shsBestBlock := Some block, shsShardHeight := shHeight h, shsEpoch := shEpoch h,
          shsBeaconHeight := shBeaconHeight h, shsTotalTxns := shsTotalTxns bs + n, shsNumTxns := n,
          shsShardProposerIdx := (if shHeight h = 1 then 0 else IndexOfStr (shProducer h) (shsShardCommittee bs))\<rparr>)"

text \<open>The pending validators that the beacon blocks assign to the shard; an instruction that is too short panics.\<close>

fun add_pending :: "u8 \<Rightarrow> string list list \<Rightarrow> string list \<Rightarrow> string list option" where
  "add_pending shardID [] pend = Some pend"
| "add_pending shardID (l # ls) pend =
    (if l = [] then None
     else if l ! 0 = ''assign'' \<and> length l < 3 then None
     else if l ! 0 = ''assign'' \<and> l ! 2 = ''shard'' then
       (if length l < 4 then None
        else add_pending shardID ls (if l ! 3 = Itoa (int (unat shardID)) then pend @ Split (l ! 1) else pend))
     else add_pending shardID ls pend)"

text \<open>
  The swap instructions: the state's own swap, and then the comparison with what the instruction names. The text of an
  empty list splits into one empty name.
\<close>

definition shard_swap :: "string list \<Rightarrow> BestStateShard \<Rightarrow> (BestStateShard \<times> shard_error option) option" where
  "shard_swap l bs =
    (case SwapValidator (shsShardPendingValidator bs) (shsShardCommittee bs) (shsShardCommitteeSize bs) OFFSET of
       None \<Rightarrow> None
     | Some (pend, comm, shardSwapedCommittees, shardNewCommittees, err) \<Rightarrow>
         (let bs = bs\<lparr>shsShardPendingValidator := pend, shsShardCommittee := comm\<rparr>
          in if err \<noteq> None then Some (bs, Some UnExpectedError)
             else if length l < 3 then None
             else if Split (l ! 2) \<noteq> shardSwapedCommittees then Some (bs, Some SwapError)
             else if Split (l ! 1) \<noteq> shardNewCommittees then Some (bs, Some SwapError)
             else Some (bs, None)))"

fun shard_swaps :: "string list list \<Rightarrow> BestStateShard \<Rightarrow> (BestStateShard \<times> shard_error option) option" where
  "shard_swaps [] bs = Some (bs, None)"
| "shard_swaps (l # ls) bs =
    (if l = [] then None
     else if l ! 0 = ''swap'' then
       (case shard_swap l bs of
          None \<Rightarrow> None
        | Some (bs', Some err) \<Rightarrow> Some (bs', Some err)
        | Some (bs', None) \<Rightarrow> shard_swaps ls bs')
     else shard_swaps ls bs)"

text \<open>The last height of each source shard; a shard with an empty list panics.\<close>

fun update_cross :: "(u8 \<times> CrossOutputCoin list) list \<Rightarrow> (u8 \<rightharpoonup> u64) \<Rightarrow> (u8 \<rightharpoonup> u64) option" where
  "update_cross [] m = Some m"
| "update_cross ((shardID, cs) # rest) m =
    (if cs = [] then None else update_cross rest (m(shardID \<mapsto> cocBlockHeight (last cs))))"

definition Shard_Update ::
  "'db ChainEnv \<Rightarrow> hash \<Rightarrow> ShardBody ShardBlock \<Rightarrow> BeaconBlock list \<Rightarrow> BestStateShard \<Rightarrow> (BestStateShard \<times> shard_error option) option" where
  "Shard_Update e genesis block beaconBlocks bs =
    (let bs = shard_update_best e genesis block bs
     in case add_pending (shShardID (sHeader block)) (concat (map (\<lambda>b. bbInstructions (bBody b)) beaconBlocks))
               (shsShardPendingValidator bs) of
          None \<Rightarrow> None
        | Some pend \<Rightarrow>
            (case shard_swaps (sbInstructions (sBody block)) (bs\<lparr>shsShardPendingValidator := pend\<rparr>) of
               None \<Rightarrow> None
             | Some (bs, Some err) \<Rightarrow> Some (bs, Some err)
             | Some (bs, None) \<Rightarrow>
                 map_option (\<lambda>m. (bs\<lparr>shsBestCrossShard := m\<rparr>, None))
                   (update_cross (sbCrossOutputCoin (sBody block)) (shsBestCrossShard bs))))"

section \<open>Checks against the state\<close>

text \<open>As before: \<open>None\<close> a panic, \<open>Some None\<close> no error. The answer of \<open>ValidateAggSignature\<close> is not looked at.\<close>

definition VerifyPostProcessingShardBlock :: "'db ChainEnv \<Rightarrow> BestStateShard \<Rightarrow> ShardBody ShardBlock \<Rightarrow> shard_error option" where
  "VerifyPostProcessingShardBlock e bs block =
    (if \<not> VerifyHashFromStringArray e (shsShardCommittee bs) (shCommitteeRoot (sHeader block)) then Some HashError
     else if \<not> VerifyHashFromStringArray e (shsShardPendingValidator bs) (shPendingValidatorRoot (sHeader block)) then Some HashError
     else None)"

definition VerifyBestStateWithShardBlock ::
  "'db ChainEnv \<Rightarrow> (string \<Rightarrow> string \<Rightarrow> bytes \<Rightarrow> bool) \<Rightarrow> BestStateShard \<Rightarrow> ShardBody ShardBlock \<Rightarrow> bool \<Rightarrow> shard_error option option" where
  "VerifyBestStateWithShardBlock e validSig bs block isVerifySig =
    (let h = sHeader block; n = length (shsShardCommittee bs);
         producerPosition = go_rem (go_int (shsShardProposerIdx bs + shRound h)) (int n)
     in if n = 0 \<or> producerPosition < 0 then None
        else if \<not> validSig (shsShardCommittee bs ! nat producerPosition) (sProducerSig block) (ShardHeader_Hash e h)
          then Some (Some SignatureError)
        else if isVerifySig \<and> length (sValidatorsIdx block) \<le> n div 2 \<and> n > 3 then Some (Some SignatureError)
        else if shsShardHeight bs + 1 \<noteq> shHeight h then Some (Some BlockHeightError)
        else if shBeaconHeight h < shsBeaconHeight bs then Some (Some BlockHeightError)
        else Some None)"

section \<open>What the producer decides about the committee (shardproducer.go)\<close>

text \<open>
  The lists and instructions of \<open>NewBlockShard\<close>: the pending validators with the assigned ones, and a swap at the
  last beacon block of an epoch when there is a pending validator. \<open>Some (Inl err)\<close> ends the block.
\<close>

fun add_assigned :: "string list list \<Rightarrow> string list \<Rightarrow> string list option" where
  "add_assigned [] pend = Some pend"
| "add_assigned (l # ls) pend = (if length l < 2 then None else add_assigned ls (pend @ Split (l ! 1)))"

definition produce_committee ::
  "BestStateShard \<Rightarrow> u8 \<Rightarrow> u64 \<Rightarrow> BeaconBlock list \<Rightarrow> (swap_error + string list list \<times> string list \<times> string list) option" where
  "produce_committee bs shardID height beaconBlocks =
    (case Option.bind (GetAssignInstructionFromBeaconBlock beaconBlocks shardID)
            (\<lambda>assigned. add_assigned assigned (shsShardPendingValidator bs)) of
       None \<Rightarrow> None
     | Some pend \<Rightarrow>
         if height mod EPOCH = 0 \<and> length pend > 0 then
           map_option (map_sum id (\<lambda>(swapInstruction, pend', comm'). ([swapInstruction], pend', comm')))
             (CreateSwapAction pend (shsShardCommittee bs) (shsShardCommitteeSize bs) shardID)
         else Some (Inr ([], pend, shsShardCommittee bs)))"


section \<open>Producer and verifier\<close>

text \<open>Both read the assignments of the beacon blocks in the same way.\<close>

lemma add_pending_assigned:
  "add_pending sid ls pend = Option.bind (select_assign sid ls) (\<lambda>as. add_assigned as pend)"
proof (induction ls arbitrary: pend)
  case (Cons l ls)
  then show ?case by (auto simp: Option.bind_eq_None_conv split: option.split) (cases "select_assign sid ls"; simp)+
qed simp

lemma Split_no_comma: "s \<in> set (Split t) \<Longrightarrow> CHR '','' \<notin> set s"
proof (induction t arbitrary: s)
  case (Cons c t)
  show ?case
  proof (cases "Split t")
    case (Cons w ws)
    then show ?thesis using Cons.IH Cons.prems by (auto split: if_splits)
  qed simp
qed simp

lemma add_assigned_no_comma:
  "add_assigned as pend = Some pend' \<Longrightarrow> \<forall>k \<in> set pend. CHR '','' \<notin> set k \<Longrightarrow> \<forall>k \<in> set pend'. CHR '','' \<notin> set k"
  by (induction "as" arbitrary: pend) (fastforce split: if_splits dest: Split_no_comma)+


lemma shard_swaps_none: "\<forall>l \<in> set ls. l \<noteq> [] \<and> l ! 0 \<noteq> ''swap'' \<Longrightarrow> shard_swaps ls bs = Some (bs, None)"
  by (induction ls) auto

lemma update_cross_ok: "\<forall>(s, cs) \<in> set xs. cs \<noteq> [] \<Longrightarrow> \<exists>m'. update_cross xs m = Some m'"
  by (induction xs arbitrary: m) auto

lemma shard_update_best_fields [simp]:
  "shsShardCommittee (shard_update_best e g blk bs) = shsShardCommittee bs"
  "shsShardPendingValidator (shard_update_best e g blk bs) = shsShardPendingValidator bs"
  "shsShardCommitteeSize (shard_update_best e g blk bs) = shsShardCommitteeSize bs"
  "shsBestBlockHash (shard_update_best e g blk bs) = ShardBlock_Hash e blk"
  "shsShardHeight (shard_update_best e g blk bs) = shHeight (sHeader blk)"
  "shsBeaconHeight (shard_update_best e g blk bs) = shBeaconHeight (sHeader blk)"
  "shsBestBlock (shard_update_best e g blk bs) = Some blk"
  by (simp_all add: shard_update_best_def Let_def)

text \<open>The instruction that the producer makes, on the state it was made from.\<close>

lemma shard_swap_own:
  assumes "CreateSwapAction (shsShardPendingValidator bs) (shsShardCommittee bs) (shsShardCommitteeSize bs) sid = Some (Inr (l, pend', comm'))"
    and "int (length (shsShardCommittee bs)) \<le> shsShardCommitteeSize bs"
    and "\<forall>k \<in> set (shsShardPendingValidator bs) \<union> set (shsShardCommittee bs). CHR '','' \<notin> set k"
  shows "l ! 0 = ''swap'' \<and> l \<noteq> [] \<and>
    shard_swap l bs = Some (bs\<lparr>shsShardPendingValidator := pend', shsShardCommittee := comm'\<rparr>,
      if int (length (shsShardCommittee bs)) = shsShardCommitteeSize bs then None else Some SwapError)"
proof -
  obtain out inn where s: "SwapValidator (shsShardPendingValidator bs) (shsShardCommittee bs) (shsShardCommitteeSize bs) OFFSET =
      Some (pend', comm', out, inn, None)"
    and l: "l = [''swap'', Join inn, Join out, ''shard'', Itoa (int (unat sid))]"
    using assms(1) by (auto simp: CreateSwapAction_def split: option.splits prod.splits)
  obtain v where v: "shsShardPendingValidator bs = v # pend'" "inn = [v]"
    "out = [] \<and> comm' = shsShardCommittee bs @ [v] \<or>
      (\<exists>u us. shsShardCommittee bs = u # us \<and> out = [u] \<and> comm' = us @ [v])"
    by (rule SwapValidator_OFFSET [OF s assms(2)])
  have full: "out = [] \<longleftrightarrow> int (length (shsShardCommittee bs)) \<noteq> shsShardCommitteeSize bs"
    using s v(1) assms(2) by (auto simp: SwapValidator_def OFFSET_def Let_def split: if_splits)
  have "CHR '','' \<notin> set v" using assms(3) v(1) by simp
  then show ?thesis
    using v s full assms(3) by (auto simp: l shard_swap_def Split_comma_free)
qed

text \<open>The update on a block with the instructions of the producer.\<close>

lemma swap_agreement:
  assumes "produce_committee bs (shShardID (sHeader block)) height beaconBlocks = Some (Inr (ins, pend', comm'))"
    and "sbInstructions (sBody block) = ins @ others" "\<forall>l \<in> set others. l \<noteq> [] \<and> l ! 0 \<noteq> ''swap''"
    and "shCommitteeRoot (sHeader block) = GenerateHashFromStringArray e comm'"
    and "shPendingValidatorRoot (sHeader block) = GenerateHashFromStringArray e pend'"
    and "int (length (shsShardCommittee bs)) \<le> shsShardCommitteeSize bs" "\<forall>(s, cs) \<in> set (sbCrossOutputCoin (sBody block)). cs \<noteq> []"
    and "\<forall>k \<in> set (shsShardPendingValidator bs) \<union> set (shsShardCommittee bs). CHR '','' \<notin> set k"
  shows "\<exists>bs' err. Shard_Update e genesis block beaconBlocks bs = Some (bs', err) \<and>
    shsShardCommittee bs' = comm' \<and> shsShardPendingValidator bs' = pend' \<and> VerifyPostProcessingShardBlock e bs' block = None \<and>
    err = (if ins = [] \<or> int (length (shsShardCommittee bs)) = shsShardCommitteeSize bs then None else Some SwapError)"
proof -
  obtain pend where pend: "add_pending (shShardID (sHeader block)) (concat (map (\<lambda>b. bbInstructions (bBody b)) beaconBlocks))
      (shsShardPendingValidator bs) = Some pend"
    and p: "(if height mod EPOCH = 0 \<and> length pend > 0 then
           map_option (map_sum id (\<lambda>(swapInstruction, pend', comm'). ([swapInstruction], pend', comm')))
             (CreateSwapAction pend (shsShardCommittee bs) (shsShardCommitteeSize bs) (shShardID (sHeader block)))
         else Some (Inr ([], pend, shsShardCommittee bs))) = Some (Inr (ins, pend', comm'))"
    using assms(1) by (auto simp: produce_committee_def add_pending_assigned GetAssignInstructionFromBeaconBlock_def split: option.splits)
  define bs1 where "bs1 = (shard_update_best e genesis block bs)\<lparr>shsShardPendingValidator := pend\<rparr>"
  have keys: "\<forall>k \<in> set (shsShardPendingValidator bs1) \<union> set (shsShardCommittee bs1). CHR '','' \<notin> set k"
    using add_assigned_no_comma pend assms(8) by (auto simp: bs1_def add_pending_assigned bind_eq_Some_conv)
  let ?full = "ins = [] \<or> int (length (shsShardCommittee bs)) = shsShardCommitteeSize bs"
  have swaps: "shard_swaps (sbInstructions (sBody block)) bs1 =
      Some (bs1\<lparr>shsShardPendingValidator := pend', shsShardCommittee := comm'\<rparr>, if ?full then None else Some SwapError)"
  proof (cases "height mod EPOCH = 0 \<and> length pend > 0")
    case False
    then have "ins = []" "pend' = pend" "comm' = shsShardCommittee bs" using p by auto
    then show ?thesis using shard_swaps_none [OF assms(3)] assms(2) by (simp add: bs1_def)
  next
    case True
    then obtain z where "CreateSwapAction pend (shsShardCommittee bs) (shsShardCommitteeSize bs) (shShardID (sHeader block)) = Some z"
      "map_sum id (\<lambda>(swapInstruction, pend', comm'). ([swapInstruction], pend', comm')) z = Inr (ins, pend', comm')"
      using p by (auto simp del: mod_eq_0_iff_dvd)
    then obtain l where "ins = [l]"
      and c: "CreateSwapAction pend (shsShardCommittee bs) (shsShardCommitteeSize bs) (shShardID (sHeader block)) = Some (Inr (l, pend', comm'))"
      by (cases z) auto
    moreover note shard_swap_own [of bs1 _ l pend' comm', OF _ _ keys]
    ultimately show ?thesis
      using shard_swaps_none [OF assms(3)] assms(2,6) by (simp add: bs1_def)
  qed
  have post: "VerifyPostProcessingShardBlock e bs' block = None"
    if "shsShardCommittee bs' = comm'" "shsShardPendingValidator bs' = pend'" for bs'
    using that assms(4,5) by (simp add: VerifyPostProcessingShardBlock_def VerifyHashFromStringArray_def)
  obtain m where "update_cross (sbCrossOutputCoin (sBody block)) (shsBestCrossShard bs1) = Some m"
    using update_cross_ok [OF assms(7)] by blast
  then show ?thesis
    using pend swaps post by (auto simp: Shard_Update_def Let_def bs1_def [symmetric])
qed

text \<open>
  C28. The verifier and the producer of a shard block. Let the producer decide the committee from a
  state, and let a block carry its instructions, followed by others that are no swaps, and its roots. On
  the same state the update ends with the lists of the producer. It reports no error, and the last
  check accepts the block, exactly when there is no swap or the committee is full: a swap that only fills up a
  committee is refused by every verifier, the producer included, because the empty list of members that leave
  is read back from the instruction as a list with one empty name. A committee below its size never grows.
\<close>

theorem shard_swap_agreement:
  assumes "produce_committee bs (shShardID (sHeader block)) height beaconBlocks = Some (Inr (ins, pend', comm'))"
    and "sbInstructions (sBody block) = ins @ others" "\<forall>l \<in> set others. l \<noteq> [] \<and> l ! 0 \<noteq> ''swap''"
    and "shCommitteeRoot (sHeader block) = GenerateHashFromStringArray e comm'"
    and "shPendingValidatorRoot (sHeader block) = GenerateHashFromStringArray e pend'"
    and "int (length (shsShardCommittee bs)) \<le> shsShardCommitteeSize bs" "\<forall>(s, cs) \<in> set (sbCrossOutputCoin (sBody block)). cs \<noteq> []"
    and "\<forall>k \<in> set (shsShardPendingValidator bs) \<union> set (shsShardCommittee bs). CHR '','' \<notin> set k"
  shows "\<exists>bs' err. Shard_Update e genesis block beaconBlocks bs = Some (bs', err) \<and>
    shsShardCommittee bs' = comm' \<and> shsShardPendingValidator bs' = pend' \<and> VerifyPostProcessingShardBlock e bs' block = None \<and>
    err = (if ins = [] \<or> int (length (shsShardCommittee bs)) = shsShardCommitteeSize bs then None else Some SwapError)"
  by (rule swap_agreement [OF assms])


section \<open>The next proposer\<close>

lemma IndexOfStr_nth:
  assumes "distinct xs" "i < length xs"
  shows "IndexOfStr (xs ! i) xs = int i"
proof -
  have "0 \<le> IndexOfStr (xs ! i) xs \<and> nat (IndexOfStr (xs ! i) xs) < length xs \<and> xs ! nat (IndexOfStr (xs ! i) xs) = xs ! i"
    using assms(2) index_loop_spec [of "xs ! i" xs] by (auto simp: IndexOfStr_def)
  then show ?thesis using assms by (metis nth_eq_iff_index_eq int_nat_eq)
qed

lemma go_rem_bounds: "0 < n \<Longrightarrow> 0 \<le> a \<Longrightarrow> 0 \<le> go_rem a n \<and> go_rem a n < n"
  by (auto simp: go_rem_def sgn_if)

text \<open>
  C30. One proposer per round, and the verifiers agree on it. When the committee has no repeated keys, the last proposer was a
  member, the offset is not negative and its sum with the last proposer's position fits Go's 64 bit \<open>int\<close>, the role \<open>PROPOSER_ROLE\<close> for an offset goes to exactly one key; and of the keys that could have signed a
  block of the round that the producer writes for this offset, \<open>offset + 1\<close>, the check against the best state complains
  about the signature exactly for those that are not the proposer.
\<close>

theorem one_proposer_per_round:
  assumes "shsShardCommittee bs \<noteq> []" "distinct (shsShardCommittee bs)" "0 \<le> shsShardProposerIdx bs" "0 \<le> off"
    and "shRound (sHeader block) = off + 1" "shsShardProposerIdx bs + off + 1 < 2 ^ 63"
  shows "(\<exists>!pk. Shard_GetPubkeyRole bs pk off = PROPOSER_ROLE) \<and>
    (VerifyBestStateWithShardBlock e (\<lambda>k _ _. k = pk) bs block False = Some (Some SignatureError) \<longleftrightarrow>
       Shard_GetPubkeyRole bs pk off \<noteq> PROPOSER_ROLE)"
proof -
  let ?c = "shsShardCommittee bs"
  have w: "go_int (shsShardProposerIdx bs + off + 1) = shsShardProposerIdx bs + off + 1"
    using assms(3,4,6) by (intro go_int_id) simp_all
  define i where "i = go_rem (shsShardProposerIdx bs + off + 1) (int (length ?c))"
  have i: "0 \<le> i" "nat i < length ?c"
    using go_rem_bounds [of "int (length ?c)" "shsShardProposerIdx bs + off + 1"] assms(1,3,4) by (simp_all add: i_def nat_less_iff)
  have role: "Shard_GetPubkeyRole bs pk off = PROPOSER_ROLE \<longleftrightarrow> pk = ?c ! nat i" for pk
  proof
    assume "Shard_GetPubkeyRole bs pk off = PROPOSER_ROLE"
    then have "pk \<in> set ?c" "IndexOfStr pk ?c = i"
      using IndexOfStr_found [of pk ?c] by (auto simp: Shard_GetPubkeyRole_def Let_def i_def w split: if_splits)
    then show "pk = ?c ! nat i" using index_loop_spec [of pk ?c] by (auto simp: IndexOfStr_def)
  next
    assume "pk = ?c ! nat i"
    then show "Shard_GetPubkeyRole bs pk off = PROPOSER_ROLE"
      using IndexOfStr_nth [OF assms(2) i(2)] i by (simp add: Shard_GetPubkeyRole_def Let_def w i_def [symmetric])
  qed
  have "go_rem (go_int (shsShardProposerIdx bs + shRound (sHeader block))) (int (length ?c)) = i"
    using assms(5) w by (simp add: i_def add.assoc)
  then have "VerifyBestStateWithShardBlock e (\<lambda>k _ _. k = pk) bs block False = Some (Some SignatureError) \<longleftrightarrow> pk \<noteq> ?c ! nat i"
    using i assms(1) by (auto simp: VerifyBestStateWithShardBlock_def Let_def split: if_splits)
  then show ?thesis using role by auto
qed

section \<open>The chain grows by one\<close>

lemma shard_swap_fields:
  assumes "shard_swap l bs = Some (bs', err)"
  shows "\<exists>pend comm. bs' = bs\<lparr>shsShardPendingValidator := pend, shsShardCommittee := comm\<rparr>"
  using assms by (auto simp: shard_swap_def Let_def split: option.splits prod.splits if_splits)

lemma shard_swaps_fields:
  "shard_swaps ls bs = Some (bs', err) \<Longrightarrow> \<exists>pend comm. bs' = bs\<lparr>shsShardPendingValidator := pend, shsShardCommittee := comm\<rparr>"
proof (induction ls arbitrary: bs)
  case Nil
  then have "bs' = bs\<lparr>shsShardPendingValidator := shsShardPendingValidator bs, shsShardCommittee := shsShardCommittee bs\<rparr>" by simp
  then show ?case by blast
next
  case (Cons l ls)
  show ?case
  proof (cases "l ! 0 = ''swap''")
    case True
    then obtain bs1 r where s: "shard_swap l bs = Some (bs1, r)"
      and r: "r \<noteq> None \<and> bs' = bs1 \<or> r = None \<and> shard_swaps ls bs1 = Some (bs', err)"
      using Cons.prems by (auto split: if_splits option.splits prod.splits)
    obtain p c where "bs1 = bs\<lparr>shsShardPendingValidator := p, shsShardCommittee := c\<rparr>" using shard_swap_fields [OF s] by blast
    with r Cons.IH [of bs1] show ?thesis by fastforce
  next
    case False
    then show ?thesis using Cons by (auto split: if_splits)
  qed
qed

text \<open>
  A completed update stands at the new block, counts its transactions, and takes for each shard that
  sent coins the height of the last of them; an update that ends with an error has moved to the block all the same.
\<close>

lemma update_cross_last:
  "update_cross xs m = Some m' \<Longrightarrow> distinct (map fst xs) \<Longrightarrow>
    m' s = (case map_of xs s of None \<Rightarrow> m s | Some cs \<Rightarrow> Some (cocBlockHeight (last cs)))"
proof (induction xs m rule: update_cross.induct)
  case (2 shardID cs rest m)
  then have "cs \<noteq> []" "map_of rest shardID = None"
    "m' s = (case map_of rest s of None \<Rightarrow> (m(shardID \<mapsto> cocBlockHeight (last cs))) s | Some cs \<Rightarrow> Some (cocBlockHeight (last cs)))"
    by (auto simp: map_of_eq_None_iff simp del: fun_upd_apply split: if_splits)
  then show ?case by (cases "s = shardID") (auto simp: fun_upd_apply split: option.split)
qed simp

lemma Shard_Update_fields:
  assumes "Shard_Update e g block bbs bs = Some (bs', err)"
  shows "shsBestBlockHash bs' = ShardBlock_Hash e block" "shsShardHeight bs' = shHeight (sHeader block)"
    "shsBestBlock bs' = Some block" "shsBeaconHeight bs' = shBeaconHeight (sHeader block)"
    "shsTotalTxns bs' = shsTotalTxns bs + word_of_nat (length (sbTransactions (sBody block)))"
proof -
  obtain pend bs1 err1 where s: "shard_swaps (sbInstructions (sBody block)) ((shard_update_best e g block bs)\<lparr>shsShardPendingValidator := pend\<rparr>) = Some (bs1, err1)"
    and b: "bs' = bs1 \<or> (\<exists>m. bs' = bs1\<lparr>shsBestCrossShard := m\<rparr>)"
    using assms by (fastforce simp: Shard_Update_def Let_def split: option.splits prod.splits)
  obtain p c where "bs1 = (shard_update_best e g block bs)\<lparr>shsShardPendingValidator := p, shsShardCommittee := c\<rparr>"
    using shard_swaps_fields [OF s] by auto
  with b show "shsBestBlockHash bs' = ShardBlock_Hash e block" "shsShardHeight bs' = shHeight (sHeader block)"
    "shsBestBlock bs' = Some block" "shsBeaconHeight bs' = shBeaconHeight (sHeader block)"
    "shsTotalTxns bs' = shsTotalTxns bs + word_of_nat (length (sbTransactions (sBody block)))"
    by (auto simp: shard_update_best_def Let_def)
qed


section \<open>A shard at the end of an epoch\<close>

definition sample_shard_best :: "int \<Rightarrow> BestStateShard" where
  "sample_shard_best sz = zeroBestStateShard
    \<lparr>shsShardCommittee := [''a'', ''b''], shsShardPendingValidator := [''c''], shsShardCommitteeSize := sz, shsShardHeight := 7\<rparr>"

definition sample_swap_block :: "ShardBody ShardBlock" where
  "sample_swap_block =
    \<lparr>sAggregatedSig = [], sR = [], sValidatorsIdx = [], sProducerSig = [],
     sBody = \<lparr>sbInstructions = [[''swap'', ''c'', ''a'', ''shard'', ''0'']], sbCrossOutputCoin = [], sbTransactions = []\<rparr>,
     sHeader = (sample_shard_header 0 8)
       \<lparr>shCommitteeRoot := GenerateHashFromStringArray sample_env [''b'', ''c''],
        shPendingValidatorRoot := GenerateHashFromStringArray sample_env []\<rparr>\<rparr>"

lemma zero_text: "Itoa (int (unat (0 :: u8))) = ''0''"
  by (simp add: Itoa_def nat_digits.simps) code_simp

lemma sample_produce:
  "produce_committee (sample_shard_best 2) 0 10 [] = Some (Inr ([[''swap'', ''c'', ''a'', ''shard'', ''0'']], [], [''b'', ''c'']))"
  by (simp add: produce_committee_def GetAssignInstructionFromBeaconBlock_def sample_shard_best_def EPOCH_def CreateSwapAction_def
      SwapValidator_def OFFSET_def zero_text [simplified])

theorem shard_swap_agreement_witness:
  "\<exists>bs'. Shard_Update sample_env [] sample_swap_block [] (sample_shard_best 2) = Some (bs', None) \<and>
     shsShardCommittee bs' = [''b'', ''c''] \<and> VerifyPostProcessingShardBlock sample_env bs' sample_swap_block = None"
proof -
  have id: "shShardID (sHeader sample_swap_block) = 0" by (simp add: sample_swap_block_def sample_shard_header_def)
  have b: "shsShardCommittee (sample_shard_best 2) = [''a'', ''b'']" "shsShardPendingValidator (sample_shard_best 2) = [''c'']"
    "shsShardCommitteeSize (sample_shard_best 2) = 2"
    "sBody sample_swap_block = \<lparr>sbInstructions = [[''swap'', ''c'', ''a'', ''shard'', ''0'']], sbCrossOutputCoin = [], sbTransactions = []\<rparr>"
    "shCommitteeRoot (sHeader sample_swap_block) = GenerateHashFromStringArray sample_env [''b'', ''c'']"
    "shPendingValidatorRoot (sHeader sample_swap_block) = GenerateHashFromStringArray sample_env []"
    by (simp_all add: sample_swap_block_def sample_shard_best_def)
  show ?thesis
    using shard_swap_agreement [of "sample_shard_best 2" sample_swap_block 10 "[]" _ _ _ "[]" sample_env "[]", unfolded id, OF sample_produce]
    by (auto simp: b)
qed

theorem one_proposer_per_round_witness:
  "Shard_GetPubkeyRole (sample_shard_best 2) ''b'' 0 = PROPOSER_ROLE \<and>
   VerifyBestStateWithShardBlock sample_env (\<lambda>k _ _. k = ''a'') (sample_shard_best 2) sample_swap_block False = Some (Some SignatureError)"
proof -
  have "Shard_GetPubkeyRole (sample_shard_best 2) ''b'' 0 = PROPOSER_ROLE" "Shard_GetPubkeyRole (sample_shard_best 2) ''a'' 0 \<noteq> PROPOSER_ROLE"
    by (simp_all add: Shard_GetPubkeyRole_def sample_shard_best_def zeroBestStateShard_def IndexOfStr_def go_rem_def go_int_def)
  moreover have "shRound (sHeader sample_swap_block) = 0 + 1" "shsShardCommittee (sample_shard_best 2) = [''a'', ''b'']"
    "shsShardProposerIdx (sample_shard_best 2) = 0"
    by (simp_all add: sample_swap_block_def sample_shard_header_def sample_shard_best_def zeroBestStateShard_def)
  ultimately show ?thesis
    using one_proposer_per_round [of "sample_shard_best 2" 0 sample_swap_block sample_env "''a''"] by simp
qed

end
