(* ===== verification/Shard_Cross.thy ===== *)
theory Shard_Cross
  imports Token_Tx Tx_View Shard_State "HOL-Library.Sublist"
begin

text \<open>
  What a shard block takes over from other shards: the producer collects it from the cross shard pool
  (\<open>getCrossShardData\<close> and \<open>createCustomTokenTxForCrossShard\<close> of \<open>src/blockchain/shardproducer.go\<close>), and a
  validator compares the block with its own pool before it signs (the last part of \<open>VerifyPreProcessingShardBlock\<close> and
  \<open>VerifyCrossShardCustomToken\<close> of \<open>src/blockchain/shardprocess.go\<close>). Shown: what the producer collects passes
  the validator's check on the same pool and database; what passes is an unbroken run of the heights that the beacon
  recorded, each with the coins of a verified block of the pool; the check of tokens does not cover the token's ID.
\<close>

section \<open>The producer's side\<close>

record CrossTxTokenData =
  ctdBlockHeight :: u64
  ctdBlockHash :: hash
  ctdTxTokenData :: "TxTokenData list"

definition cross_coin_of :: "'db ChainEnv \<Rightarrow> cross_block \<Rightarrow> CrossOutputCoin" where
  "cross_coin_of e blk =
     \<lparr>cocBlockHeight = csHeight blk, cocBlockHash = ShardHeader_Hash e (csHeader blk), cocOutputCoin = csCrossOutputCoin blk\<rparr>"

definition cross_tokens_of :: "'db ChainEnv \<Rightarrow> cross_block \<Rightarrow> CrossTxTokenData" where
  "cross_tokens_of e blk =
     \<lparr>ctdBlockHeight = csHeight blk, ctdBlockHash = ShardHeader_Hash e (csHeader blk), ctdTxTokenData = csCrossTxTokenData blk\<rparr>"

text \<open>
  \<open>coin_bytes\<close> is \<open>OutputCoin.Bytes\<close>, \<open>committees\<close> the decoder of a stored committee table (an undecodable one is the empty map).
  The common part: the stored committee of the block's epoch, and the check of the block against it. \<open>Some None\<close> means no error.
\<close>

definition check_cross_block ::
  "'db ChainEnv \<Rightarrow> (Coin \<Rightarrow> bytes) \<Rightarrow> (bytes \<Rightarrow> (u8 \<rightharpoonup> string list)) \<Rightarrow> 'db \<Rightarrow> cross_block \<Rightarrow> shard_error option option" where
  "check_cross_block e coin_bytes committees d blk =
    (case snd (FetchCommitteeByEpoch (ceLdb e) (shEpoch (csHeader blk)) d) of
       Inl _ \<Rightarrow> Some (Some CrossShardBlockError)
     | Inr temp \<Rightarrow>
         map_option (\<lambda>r. case r of Inl _ \<Rightarrow> Some CrossShardBlockError | Inr _ \<Rightarrow> None)
           (VerifyCrossShardBlock e coin_bytes blk (go_get [] (committees temp) (csShardID blk))))"

text \<open>The blocks of one source shard that the new block takes over, in the order of their heights.\<close>

fun pick_cross ::
  "'db ChainEnv \<Rightarrow> (Coin \<Rightarrow> bytes) \<Rightarrow> (bytes \<Rightarrow> (u8 \<rightharpoonup> string list)) \<Rightarrow> 'db \<Rightarrow> u8 \<Rightarrow> u8 \<Rightarrow> u64 \<Rightarrow> cross_block list \<Rightarrow>
   cross_block list option" where
  "pick_cross e cb cm d fromShard toShard startHeight [] = Some []"
| "pick_cross e cb cm d fromShard toShard startHeight (blk # blks) =
    (if csHeight blk \<le> startHeight then Some []
     else
       (case snd (FetchCrossShardNextHeight (ceLdb e) fromShard toShard startHeight d) of
          Inl _ \<Rightarrow> Some []
        | Inr nextHeight \<Rightarrow>
            if nextHeight \<noteq> csHeight blk then pick_cross e cb cm d fromShard toShard startHeight blks
            else
              (case check_cross_block e cb cm d blk of
                 None \<Rightarrow> None
               | Some (Some _) \<Rightarrow> Some []
               | Some None \<Rightarrow> map_option (Cons blk) (pick_cross e cb cm d fromShard toShard nextHeight blks))))"

definition collect :: "('b \<Rightarrow> u8) \<Rightarrow> ('b \<Rightarrow> 'c) \<Rightarrow> 'b list \<Rightarrow> (u8 \<times> 'c list) list" where
  "collect shard val blks = fold (\<lambda>blk. append_at (shard blk) [val blk]) blks []"

definition sort_values :: "('c \<Rightarrow> u64) \<Rightarrow> (u8 \<times> 'c list) list \<Rightarrow> (u8 \<times> 'c list) list" where
  "sort_values f m = map (\<lambda>(k, xs). (k, sort_key f xs)) m"

text \<open>
  The pool files each block under the shard of its header, so the order in which Go visits the shards does not
  matter. \<open>best\<close> is the best cross shard height of each source.
\<close>

definition getCrossShardData ::
  "'db ChainEnv \<Rightarrow> (Coin \<Rightarrow> bytes) \<Rightarrow> (bytes \<Rightarrow> (u8 \<rightharpoonup> string list)) \<Rightarrow> 'db \<Rightarrow> (Coin, TxTokenData) CrossShardPool \<Rightarrow> (u8 \<rightharpoonup> u64) \<Rightarrow>
   u8 \<Rightarrow> (u8 \<rightharpoonup> u64) \<Rightarrow> ((u8 \<times> CrossOutputCoin list) list \<times> (u8 \<times> CrossTxTokenData list) list) option" where
  "getCrossShardData e cb cm d pool best shardID crossShards =
     map_option (\<lambda>picked. let blks = concat picked in
         (sort_values cocBlockHeight (collect csShardID (cross_coin_of e) blks),
          sort_values ctdBlockHeight (collect csShardID (cross_tokens_of e) blks)))
       (those (map (\<lambda>(fromShard, blks). pick_cross e cb cm d fromShard shardID (go_get 0 best fromShard) (sort_key csHeight blks))
         (entries (CrossShard_GetValidBlock pool (Some crossShards)))))"

text \<open>
  The transactions for tokens of other shards. The list of tokens is always read, and an error of it
  panics, as does an error of \<open>Init\<close>. With a key the transactions are built; \<open>initTx\<close> gives the coin parts that
  \<open>Tx.Init\<close> returns. Without a key, only the token data are.
\<close>

definition crossing_tokens :: "(u8 \<times> CrossTxTokenData list) list \<Rightarrow> TxTokenData list" where
  "crossing_tokens m = concat (map ctdTxTokenData (concat_by_key m))"

definition cross_param :: "TxTokenData \<Rightarrow> CustomTokenParamTx" where
  "cross_param d =
     \<lparr>cpPropertyID = Hash_String (tdPropertyID d), cpPropertyName = tdPropertyName d, cpPropertySymbol = tdPropertySymbol d,
      cpAmount = tdAmount d, cpTokenTxType = CustomTokenCrossShard, cpReceiver = tdVouts d, cpVins = [], cpVinsAmount = 0\<rparr>"

definition crossing_data :: "TxTokenData \<Rightarrow> TxTokenData" where
  "crossing_data d = (cloneTxTokenDataForCrossShard d)\<lparr>tdVouts := tdVouts d\<rparr>"

definition init_all ::
  "'db ChainEnv \<Rightarrow> (nat \<Rightarrow> token_tx_error + Tx) \<Rightarrow> hash list \<Rightarrow> u8 \<Rightarrow> TxTokenData list \<Rightarrow> Transaction list option" where
  "init_all e initTx tokens shardID ds =
     those (map (\<lambda>(i, d). case TxCustomToken_Init e (initTx i) (cross_param d) tokens shardID of
         Some (Inr tx) \<Rightarrow> Some tx | _ \<Rightarrow> None) (List.enumerate 0 ds))"

definition createCustomTokenTxForCrossShard ::
  "'db ChainEnv \<Rightarrow> Codecs \<Rightarrow> 'db prefix_iter \<Rightarrow> 'db \<Rightarrow> (nat \<Rightarrow> token_tx_error + Tx) option \<Rightarrow>
   (u8 \<times> CrossTxTokenData list) list \<Rightarrow> u8 \<Rightarrow> (Transaction list \<times> TxTokenData list) option" where
  "createCustomTokenTxForCrossShard e cd it d initTx crossTxTokenDataMap shardID =
    (case snd (Chain_ListCustomToken e cd it d) of
       Inl _ \<Rightarrow> None
     | Inr listCustomTokens \<Rightarrow>
         (case initTx of
            Some ini \<Rightarrow> map_option (\<lambda>txs. (txs, [])) (init_all e ini listCustomTokens shardID (crossing_tokens crossTxTokenDataMap))
          | None \<Rightarrow> Some ([], map crossing_data (crossing_tokens crossTxTokenDataMap))))"

section \<open>The validator's side\<close>

text \<open>
  The coins of one source shard. Each is looked up by its height among the blocks not passed yet; one that is not
  there is skipped, and missing in the count at the end.
\<close>

fun verify_coins ::
  "'db ChainEnv \<Rightarrow> (Coin \<Rightarrow> bytes) \<Rightarrow> (bytes \<Rightarrow> (u8 \<rightharpoonup> string list)) \<Rightarrow> 'db \<Rightarrow> u8 \<Rightarrow> u8 \<Rightarrow> u64 \<Rightarrow> cross_block list \<Rightarrow>
   CrossOutputCoin list \<Rightarrow> nat \<times> (u8 \<times> CrossTxTokenData list) list \<Rightarrow>
   (shard_error + nat \<times> (u8 \<times> CrossTxTokenData list) list) option" where
  "verify_coins e cb cm d fromShard toShard startHeight blks [] acc = Some (Inr acc)"
| "verify_coins e cb cm d fromShard toShard startHeight blks (c # cs) acc =
    (case dropWhile (\<lambda>blk. csHeight blk \<noteq> cocBlockHeight c) blks of
       [] \<Rightarrow> verify_coins e cb cm d fromShard toShard startHeight blks cs acc
     | blk # rest \<Rightarrow>
         (case snd (FetchCrossShardNextHeight (ceLdb e) fromShard toShard startHeight d) of
            Inl _ \<Rightarrow> Some (Inl CrossShardBlockError)
          | Inr nextHeight \<Rightarrow>
              if nextHeight \<noteq> cocBlockHeight c then Some (Inl CrossShardBlockError)
              else
                (case check_cross_block e cb cm d blk of
                   None \<Rightarrow> None
                 | Some (Some err) \<Rightarrow> Some (Inl err)
                 | Some None \<Rightarrow>
                     if CrossOutputCoin_Hash e cb (cross_coin_of e blk) \<noteq> CrossOutputCoin_Hash e cb c
                       then Some (Inl CrossShardBlockError)
                     else verify_coins e cb cm d fromShard toShard nextHeight (blk # rest) cs
                       (fst acc + 1, append_at (csShardID blk) [cross_tokens_of e blk] (snd acc)))))"

fun verify_sources ::
  "'db ChainEnv \<Rightarrow> (Coin \<Rightarrow> bytes) \<Rightarrow> (bytes \<Rightarrow> (u8 \<rightharpoonup> string list)) \<Rightarrow> 'db \<Rightarrow> u8 \<Rightarrow> (u8 \<rightharpoonup> u64) \<Rightarrow>
   (u8 \<rightharpoonup> cross_block list) \<Rightarrow> (u8 \<times> CrossOutputCoin list) list \<Rightarrow> (u8 \<times> CrossTxTokenData list) list \<Rightarrow>
   (shard_error + (u8 \<times> CrossTxTokenData list) list) option" where
  "verify_sources e cb cm d toShard best pool [] toks = Some (Inr toks)"
| "verify_sources e cb cm d toShard best pool ((fromShard, coins) # rest) toks =
    (case pool fromShard of
       None \<Rightarrow> Some (Inl CrossShardBlockError)
     | Some blks \<Rightarrow>
         (case verify_coins e cb cm d fromShard toShard (go_get 0 best fromShard) (sort_key csHeight blks) coins (0, toks) of
            None \<Rightarrow> None
          | Some (Inl err) \<Rightarrow> Some (Inl err)
          | Some (Inr (isValids, toks')) \<Rightarrow>
              if length coins \<noteq> isValids then Some (Inl CrossShardBlockError)
              else verify_sources e cb cm d toShard best pool rest toks'))"

text \<open>The token data of the block's own transactions that claim to come from another shard; a wrong kind panics.\<close>

fun claimed_tokens :: "Transaction list \<Rightarrow> TxTokenData list option" where
  "claimed_tokens [] = Some []"
| "claimed_tokens (t # ts) =
    (if txType (baseTx t) = TxCustomTokenType then
       (case t of
          TxCustomToken tx td \<Rightarrow>
            map_option (\<lambda>ds. if tdType td = CustomTokenCrossShard then td # ds else ds) (claimed_tokens ts)
        | _ \<Rightarrow> None)
     else claimed_tokens ts)"

definition VerifyCrossShardCustomToken ::
  "'db ChainEnv \<Rightarrow> Codecs \<Rightarrow> 'db prefix_iter \<Rightarrow> 'db \<Rightarrow> (u8 \<times> CrossTxTokenData list) list \<Rightarrow> u8 \<Rightarrow> Transaction list \<Rightarrow> bool option" where
  "VerifyCrossShardCustomToken e cd it d crossTxTokenData shardID txs =
    (case createCustomTokenTxForCrossShard e cd it d None crossTxTokenData shardID of
       None \<Rightarrow> None
     | Some (_, txTokenDataList) \<Rightarrow>
         (case calHashFromTxTokenDataList e txTokenDataList of
            None \<Rightarrow> Some False
          | Some h \<Rightarrow>
              map_option (\<lambda>ds. case calHashFromTxTokenDataList e ds of
                  None \<Rightarrow> False | Some h' \<Rightarrow> Hash_String h = Hash_String h') (claimed_tokens txs)))"

definition verify_cross_shard ::
  "'db ChainEnv \<Rightarrow> Codecs \<Rightarrow> (bytes \<Rightarrow> (u8 \<rightharpoonup> string list)) \<Rightarrow> 'db prefix_iter \<Rightarrow> 'db \<Rightarrow> (Coin, TxTokenData) CrossShardPool \<Rightarrow>
   (u8 \<rightharpoonup> u64) \<Rightarrow> u8 \<Rightarrow> ShardBody \<Rightarrow> shard_error option option" where
  "verify_cross_shard e cd cm it d pool best toShard body =
    (case verify_sources e (cdCoin cd) cm d toShard best
            (CrossShard_GetValidBlock pool (Some (CrossShard_GetLatestValidBlockHeight pool))) (sbCrossOutputCoin body) [] of
       None \<Rightarrow> None
     | Some (Inl err) \<Rightarrow> Some (Some err)
     | Some (Inr toks) \<Rightarrow>
         map_option (\<lambda>ok. if ok then None else Some CrossShardBlockError)
           (VerifyCrossShardCustomToken e cd it d toks toShard (sbTransactions body)))"


section \<open>The producer's data pass\<close>

lemma dropWhile_at:
  assumes "\<forall>b \<in> set pre. csHeight b \<noteq> h" "csHeight blk = h"
  shows "dropWhile (\<lambda>b. csHeight b \<noteq> h) (pre @ blk # rest) = blk # rest"
  using assms by (induction pre) auto

definition add_tokens :: "'db ChainEnv \<Rightarrow> cross_block list \<Rightarrow> (u8 \<times> CrossTxTokenData list) list \<Rightarrow> (u8 \<times> CrossTxTokenData list) list" where
  "add_tokens e = fold (\<lambda>blk. append_at (csShardID blk) [cross_tokens_of e blk])"

lemma verify_picked:
  assumes "pick_cross e cb cm d f t start blks = Some picked" "distinct (map csHeight (pre @ blks @ post))"
  shows "verify_coins e cb cm d f t start (pre @ blks @ post) (map (cross_coin_of e) picked) acc =
    Some (Inr (fst acc + length picked, add_tokens e picked (snd acc)))"
  using assms
proof (induction e cb cm d f t start blks arbitrary: pre acc picked rule: pick_cross.induct)
  case (1 e cb cm d f t start)
  then show ?case by (simp add: add_tokens_def)
next
  case (2 e cb cm d f t start blk blks)
  let ?next = "snd (FetchCrossShardNextHeight (ceLdb e) f t start d)"
  consider (stop) "picked = []"
    | (skip) n where "\<not> csHeight blk \<le> start" "?next = Inr n" "n \<noteq> csHeight blk" "pick_cross e cb cm d f t start blks = Some picked"
    | (take) p where "\<not> csHeight blk \<le> start" "?next = Inr (csHeight blk)" "check_cross_block e cb cm d blk = Some None"
        "pick_cross e cb cm d f t (csHeight blk) blks = Some p" "picked = blk # p"
    using 2(3) by (auto split: if_splits sum.splits option.splits)
  then show ?case
  proof cases
    case stop
    then show ?thesis by (simp add: add_tokens_def)
  next
    case skip
    then show ?thesis using 2(1) [OF skip(1,2) skip(3), of picked "pre @ [blk]" acc] 2(4) by simp
  next
    case take
    have "dropWhile (\<lambda>b. csHeight b \<noteq> csHeight blk) (pre @ blk # blks @ post) = blk # blks @ post"
      using 2(4) by (intro dropWhile_at) (auto simp: image_iff)
    then show ?thesis
      using 2(2) [OF take(1,2) _ take(3) refl take(4), of "[blk]" "(fst acc + 1, append_at (csShardID blk) [cross_tokens_of e blk] (snd acc))"]
        2(4) take
      by (simp add: cross_coin_of_def add_tokens_def)
  qed
qed

lemma pick_cross_sub: "pick_cross e cb cm d f t start blks = Some picked \<Longrightarrow> subseq picked blks"
proof (induction e cb cm d f t start blks arbitrary: picked rule: pick_cross.induct)
  case (2 e cb cm d f t start blk blks)
  then show ?case by (auto split: if_splits sum.splits option.splits)
qed simp

lemma subseq_set: "subseq xs ys \<Longrightarrow> set xs \<subseteq> set ys"
  by (induction rule: list_emb.induct) auto

lemma subseq_sorted_wrt: "subseq xs ys \<Longrightarrow> sorted_wrt P ys \<Longrightarrow> sorted_wrt P xs"
proof (induction rule: list_emb.induct)
  case (list_emb_Cons2 x y xs ys)
  then show ?case using subseq_set [of xs ys] by auto
qed auto

lemma append_at_same: "append_at k ys (append_at k xs m) = append_at k (xs @ ys) m"
  by (induction m) (auto simp: append_at_def map_of_eq_None_iff update_conv' split: option.split)

lemma append_at_new: "k \<notin> fst ` set m \<Longrightarrow> append_at k xs m = m @ [(k, xs)]"
  by (induction m) (auto simp: append_at_def map_of_eq_None_iff split: option.split)

lemma fold_append_at:
  "blks \<noteq> [] \<Longrightarrow> \<forall>b \<in> set blks. shard b = k \<Longrightarrow>
    fold (\<lambda>blk. append_at (shard blk) [val blk]) blks m = append_at k (map val blks) m"
proof (induction blks arbitrary: m rule: list_nonempty_induct)
  case (cons b bs)
  then show ?case by (simp add: append_at_same)
qed simp

lemma collect_groups:
  assumes "distinct (map fst groups)" "\<forall>(k, bs) \<in> set groups. \<forall>b \<in> set bs. shard b = k" "fst ` set groups \<inter> fst ` set m = {}"
  shows "fold (\<lambda>blk. append_at (shard blk) [val blk]) (concat (map snd groups)) m =
    m @ map (\<lambda>(k, bs). (k, map val bs)) (filter (\<lambda>(k, bs). bs \<noteq> []) groups)"
  using assms
proof (induction groups arbitrary: m)
  case (Cons g groups)
  obtain k bs where g: "g = (k, bs)" by (cases g)
  show ?case
  proof (cases "bs = []")
    case True
    then show ?thesis using Cons by (simp add: g)
  next
    case False
    have "fold (\<lambda>blk. append_at (shard blk) [val blk]) bs m = m @ [(k, map val bs)]"
      using Cons.prems False by (subst fold_append_at [of _ _ k]) (auto simp: g append_at_new)
    then show ?thesis using Cons.IH [of "m @ [(k, map val bs)]"] Cons.prems False by (auto simp: g)
  qed
qed simp

lemma entries_mem: "(k, v) \<in> set (entries m) \<longleftrightarrow> m k = Some v"
proof -
  have "k \<in> set all_bytes"
    by (auto simp: all_bytes_def image_iff intro!: bexI [of _ "unat k"]) (use unsigned_less [of k] in simp)
  then show ?thesis by (force simp: entries_def List.map_filter_def)
qed

lemma entries_distinct: "distinct (map fst (entries m))"
proof -
  have "distinct all_bytes" by (auto simp: all_bytes_def distinct_map inj_on_def word_of_nat_eq_iff take_bit_nat_eq_self)
  moreover have "map fst (List.map_filter (\<lambda>k. map_option (\<lambda>v. (k, v)) (m k)) ks) = filter (\<lambda>k. m k \<noteq> None) ks" for ks
    by (induction ks) (auto simp: List.map_filter_def)
  ultimately show ?thesis by (simp add: entries_def)
qed

lemma those_list_all2: "those xs = Some ys \<Longrightarrow> list_all2 (\<lambda>x y. x = Some y) xs ys"
  by (induction xs arbitrary: ys) (auto split: option.splits)

lemma sincr_sort: "sincr (map f xs) \<Longrightarrow> sort_key f xs = xs"
  by (rule sort_key_id_if_sorted) (simp add: sincr_sorted)

text \<open>The latest height is that of the last valid block, which limits nothing when the heights increase.\<close>

lemma valid_latest:
  assumes "sincr (map csHeight (xValid pool j))"
  shows "CrossShard_GetValidBlock pool (Some (CrossShard_GetLatestValidBlockHeight pool)) j =
    (if xValid pool j = [] then None else Some (xValid pool j))"
proof (cases "xValidPool pool j")
  case None
  then show ?thesis by (simp add: CrossShard_GetValidBlock_def go_get_def)
next
  case (Some blks)
  have "csHeight b \<le> csHeight (last blks)" if "b \<in> set blks" for b
    using sincr_le_last [OF assms, of "csHeight b"] that Some by (cases "blks = []") (simp_all add: go_get_def last_map)
  then have tw: "takeWhile (\<lambda>blk. csHeight (last blks) = 0 \<or> csHeight blk \<le> csHeight (last blks)) blks = blks"
    by (simp add: takeWhile_eq_all_conv)
  show ?thesis
    using Some by (simp add: CrossShard_GetValidBlock_def CrossShard_GetLatestValidBlockHeight_def go_get_def Let_def not_less tw)
qed


lemma verify_groups:
  assumes "\<forall>(k, picked) \<in> set gs. \<exists>blks post. pool k = Some (blks @ post) \<and> sincr (map csHeight (blks @ post)) \<and>
      pick_cross e cb cm d k t (go_get 0 best k) blks = Some picked"
  shows "verify_sources e cb cm d t best pool (map (\<lambda>(k, bs). (k, map (cross_coin_of e) bs)) (filter (\<lambda>(k, bs). bs \<noteq> []) gs)) toks =
    Some (Inr (add_tokens e (concat (map snd gs)) toks))"
  using assms
proof (induction gs arbitrary: toks)
  case Nil
  then show ?case by (simp add: add_tokens_def)
next
  case (Cons g gs)
  obtain k picked where g: "g = (k, picked)" by (cases g)
  obtain blks post where b: "pool k = Some (blks @ post)" "sincr (map csHeight (blks @ post))"
    "pick_cross e cb cm d k t (go_get 0 best k) blks = Some picked"
    using Cons.prems by (auto simp: g)
  have "verify_coins e cb cm d k t (go_get 0 best k) (blks @ post) (map (cross_coin_of e) picked) (0, toks) =
      Some (Inr (length picked, add_tokens e picked toks))"
    using verify_picked [OF b(3), of "[]" post "(0, toks)"] sincr_distinct [OF b(2)] by simp
  then show ?case
    using Cons.IH [of "add_tokens e picked toks"] Cons.prems b sincr_sort [OF b(2)] by (auto simp: g add_tokens_def)
qed

text \<open>The blocks the pool hands out: increasing heights, filed under the shard of their header.\<close>

definition pool_filed :: "(Coin, TxTokenData) CrossShardPool \<Rightarrow> bool" where
  "pool_filed pool \<longleftrightarrow> (\<forall>j. sincr (map csHeight (xValid pool j)) \<and> list_all (\<lambda>b. csShardID b = j) (xValid pool j))"

lemma cross_run_filed: "cross_run i H b pool \<Longrightarrow> pool_filed pool"
  using cross_run_valid(2,3) by (fastforce simp: pool_filed_def)

lemma valid_block_prefix:
  assumes "CrossShard_GetValidBlock pool limit j = Some blks"
  obtains P where "blks = takeWhile P (xValid pool j)" "xValid pool j \<noteq> []"
  using assms by (fastforce simp: CrossShard_GetValidBlock_def go_get_def Let_def split: option.splits if_splits)

lemma sort_values_id: "\<forall>(k, xs) \<in> set m. sorted (map f xs) \<Longrightarrow> sort_values f m = m"
  by (auto simp: sort_values_def sort_key_id_if_sorted intro!: map_idI)

text \<open>What the producer collects: for each source shard a run of blocks from the front of its valid ones.\<close>

definition picks_of ::
  "'db ChainEnv \<Rightarrow> (Coin \<Rightarrow> bytes) \<Rightarrow> (bytes \<Rightarrow> (u8 \<rightharpoonup> string list)) \<Rightarrow> 'db \<Rightarrow> (Coin, TxTokenData) CrossShardPool \<Rightarrow> (u8 \<rightharpoonup> u64) \<Rightarrow> u8 \<Rightarrow>
   u8 \<Rightarrow> cross_block list \<Rightarrow> bool" where
  "picks_of e cb cm d pool best t k p \<longleftrightarrow> (\<exists>blks post. xValid pool k = blks @ post \<and> xValid pool k \<noteq> [] \<and>
     pick_cross e cb cm d k t (go_get 0 best k) blks = Some p)"

lemma picks_of_props:
  assumes "picks_of e cb cm d pool best t k p" "pool_filed pool"
  shows "\<forall>b \<in> set p. csShardID b = k" "sorted (map csHeight p)"
proof -
  obtain blks post where b: "xValid pool k = blks @ post" "pick_cross e cb cm d k t (go_get 0 best k) blks = Some p"
    using assms(1) by (auto simp: picks_of_def)
  have s: "sincr (map csHeight blks)" "\<forall>b \<in> set blks. csShardID b = k"
    using assms(2) b(1) by (auto simp: pool_filed_def list_all_iff sorted_wrt_append dest: spec [of _ k])
  have sub: "subseq p blks" by (rule pick_cross_sub [OF b(2)])
  show "\<forall>b \<in> set p. csShardID b = k" using s(2) subseq_set [OF sub] by auto
  show "sorted (map csHeight p)" using sincr_sorted [OF s(1)] sub by (metis subseq_map subseq_sorted_wrt)
qed

lemma those_zip:
  assumes "those (map f xs) = Some ys" "(k, y) \<in> set (zip (map fst xs) ys)"
  shows "\<exists>v. (k, v) \<in> set xs \<and> f (k, v) = Some y"
proof -
  have la: "list_all2 (\<lambda>x y. x = Some y) (map f xs) ys" by (rule those_list_all2 [OF assms(1)])
  obtain i where i: "i < length xs" "fst (xs ! i) = k" "ys ! i = y" using assms(2) by (auto simp: set_zip)
  then have "f (xs ! i) = Some y" using list_all2_nthD [OF la, of i] by simp
  then show ?thesis using i(2) nth_mem [OF i(1)] by (cases "xs ! i") auto
qed

lemma produced_groups:
  assumes "pool_filed pool" "getCrossShardData e cb cm d pool best shardID crossShards = Some (coins, toks)"
  obtains gs where "distinct (map fst gs)" "\<And>k p. (k, p) \<in> set gs \<Longrightarrow> picks_of e cb cm d pool best shardID k p"
    "coins = sort_values cocBlockHeight (collect csShardID (cross_coin_of e) (concat (map snd gs)))"
    "toks = sort_values ctdBlockHeight (collect csShardID (cross_tokens_of e) (concat (map snd gs)))"
proof -
  let ?es = "entries (CrossShard_GetValidBlock pool (Some crossShards))"
  let ?pick = "\<lambda>(k, blks). pick_cross e cb cm d k shardID (go_get 0 best k) (sort_key csHeight blks)"
  obtain picked where those: "those (map ?pick ?es) = Some picked"
    and c: "coins = sort_values cocBlockHeight (collect csShardID (cross_coin_of e) (concat picked))"
      "toks = sort_values ctdBlockHeight (collect csShardID (cross_tokens_of e) (concat picked))"
    using assms(2) by (auto simp: getCrossShardData_def Let_def)
  define gs where "gs = zip (map fst ?es) picked"
  have "length picked = length ?es" using those_list_all2 [OF those] by (auto dest: list_all2_lengthD)
  then have gs: "map snd gs = picked" "map fst gs = map fst ?es" by (simp_all add: gs_def)
  have "picks_of e cb cm d pool best shardID k p" if kp: "(k, p) \<in> set gs" for k p
  proof -
    obtain blks where b: "(k, blks) \<in> set ?es" "?pick (k, blks) = Some p" using those_zip [OF those] kp by (auto simp: gs_def)
    then obtain P where P: "blks = takeWhile P (xValid pool k)" "xValid pool k \<noteq> []"
      by (auto simp: entries_mem elim: valid_block_prefix)
    have "sincr (map csHeight (xValid pool k))" using assms(1) by (simp add: pool_filed_def)
    then have "sincr (map csHeight blks)" unfolding P(1) by (metis map_append sorted_wrt_append takeWhile_dropWhile_id)
    then show ?thesis using b(2) P takeWhile_dropWhile_id [of P "xValid pool k"] unfolding picks_of_def
      by (intro exI [of _ blks] exI [of _ "dropWhile P (xValid pool k)"]) (simp add: sincr_sort)
  qed
  then show ?thesis using that [of gs] gs c by (simp add: entries_distinct)
qed

lemma produced_coins_verify:
  assumes "pool_filed pool" "getCrossShardData e cb cm d pool best shardID crossShards = Some (coins, toks)"
  shows "verify_sources e cb cm d shardID best (CrossShard_GetValidBlock pool (Some (CrossShard_GetLatestValidBlockHeight pool))) coins [] =
    Some (Inr toks)"
proof -
  obtain gs where gs: "distinct (map fst gs)" "\<And>k p. (k, p) \<in> set gs \<Longrightarrow> picks_of e cb cm d pool best shardID k p"
    and coins: "coins = sort_values cocBlockHeight (collect csShardID (cross_coin_of e) (concat (map snd gs)))"
    and toks: "toks = sort_values ctdBlockHeight (collect csShardID (cross_tokens_of e) (concat (map snd gs)))"
    using produced_groups [OF assms] by metis
  let ?m = "\<lambda>v. map (\<lambda>(k, bs). (k, map v bs)) (filter (\<lambda>(k, bs). bs \<noteq> []) gs)"
  have sh: "\<forall>(k, bs) \<in> set gs. \<forall>b \<in> set bs. csShardID b = k" using picks_of_props(1) [OF gs(2) assms(1)] by blast
  have col: "collect csShardID v (concat (map snd gs)) = ?m v" for v :: "cross_block \<Rightarrow> 'v"
    using collect_groups [OF gs(1) sh, of "[]" v] by (simp add: collect_def)
  have srt: "sort_values f (?m v) = ?m v" if "\<And>b. f (v b) = csHeight b" for f and v :: "cross_block \<Rightarrow> 'v"
    using picks_of_props(2) [OF gs(2) assms(1)] that by (intro sort_values_id) (fastforce simp: comp_def)
  have pool: "\<exists>blks post. CrossShard_GetValidBlock pool (Some (CrossShard_GetLatestValidBlockHeight pool)) k = Some (blks @ post) \<and>
      sincr (map csHeight (blks @ post)) \<and> pick_cross e cb cm d k shardID (go_get 0 best k) blks = Some p" if kp: "(k, p) \<in> set gs" for k p
  proof -
    obtain blks post where "xValid pool k = blks @ post" "xValid pool k \<noteq> []" "pick_cross e cb cm d k shardID (go_get 0 best k) blks = Some p"
      using gs(2) [OF kp] by (auto simp: picks_of_def)
    moreover have "sincr (map csHeight (xValid pool k))" using assms(1) by (simp add: pool_filed_def)
    ultimately show ?thesis by (intro exI [of _ blks] exI [of _ post]) (simp add: valid_latest)
  qed
  have "verify_sources e cb cm d shardID best (CrossShard_GetValidBlock pool (Some (CrossShard_GetLatestValidBlockHeight pool)))
      (?m (cross_coin_of e)) [] = Some (Inr (add_tokens e (concat (map snd gs)) []))"
    using pool by (intro verify_groups) blast
  moreover have "coins = ?m (cross_coin_of e)" unfolding coins col by (rule srt) (simp add: cross_coin_of_def)
  moreover have "toks = collect csShardID (cross_tokens_of e) (concat (map snd gs))"
    unfolding toks col by (rule srt) (simp add: cross_tokens_of_def)
  ultimately show ?thesis by (simp add: collect_def add_tokens_def)
qed


section \<open>The tokens\<close>

lemma list_all2_insort:
  assumes "list_all2 (\<lambda>a b. k a = k b \<and> R a b) xs ys" "k x = k y" "R x y"
  shows "list_all2 (\<lambda>a b. k a = k b \<and> R a b) (insort_key k x xs) (insort_key k y ys)"
  using assms by (induction rule: list_all2_induct) auto

lemma list_all2_sort:
  "list_all2 (\<lambda>a b. k a = k b \<and> R a b) xs ys \<Longrightarrow> list_all2 (\<lambda>a b. k a = k b \<and> R a b) (sort_key k xs) (sort_key k ys)"
  by (induction rule: list_all2_induct) (auto simp: list_all2_insort)

lemma those_Some: "\<forall>x \<in> set xs. x \<noteq> None \<Longrightarrow> \<exists>ys. those xs = Some ys"
  by (induction xs) auto

lemma calHash_cong:
  assumes "list_all2 (\<lambda>a b. Hash_String (tdPropertyID a) = Hash_String (tdPropertyID b) \<and> TxTokenData_Hash e a = TxTokenData_Hash e b) xs ys"
  shows "calHashFromTxTokenDataList e xs = calHashFromTxTokenDataList e ys"
proof -
  have "map (TxTokenData_Hash e) us = map (TxTokenData_Hash e) vs"
    if "list_all2 (\<lambda>a b. Hash_String (tdPropertyID a) = Hash_String (tdPropertyID b) \<and> TxTokenData_Hash e a = TxTokenData_Hash e b) us vs"
    for us vs using that by (induction rule: list_all2_induct) auto
  then show ?thesis
    using list_all2_sort [OF assms] by (simp add: calHashFromTxTokenDataList_def)
qed

text \<open>A transaction that the producer makes for a token of another shard has the data that the validators expect.\<close>

lemma cross_init_data:
  assumes "TxCustomToken_Init e c (cross_param d) tokens sid = Some (Inr t)" "length (tdPropertyID d) = HashSize"
  shows "\<exists>tx td. t = TxCustomToken tx td \<and> txType tx = TxCustomTokenType \<and> tdType td = CustomTokenCrossShard \<and>
    tdPropertyID td = tdPropertyID (crossing_data d) \<and> TxTokenData_Hash e td = TxTokenData_Hash e (crossing_data d)"
proof -
  let ?td = "(crossing_data d)\<lparr>tdMintable := False\<rparr>"
  obtain tx where "t = TxCustomToken (tx\<lparr>txType := TxCustomTokenType\<rparr>) ?td"
    using assms NewHashFromStr_String [OF assms(2)]
    by (auto simp: TxCustomToken_Init_def cross_token_data_def cross_param_def token_data_def crossing_data_def
        cloneTxTokenDataForCrossShard_def split: sum.splits)
  moreover have "TxTokenData_Hash e ?td = TxTokenData_Hash e (crossing_data d)" "tdType ?td = CustomTokenCrossShard"
    by (simp_all add: TxTokenData_Hash_def TxTokenData_String_def Vouts_def crossing_data_def cloneTxTokenDataForCrossShard_def)
  ultimately show ?thesis by simp
qed

lemma claimed_append:
  "claimed_tokens own = Some ds \<Longrightarrow> claimed_tokens txs = Some ds' \<Longrightarrow> claimed_tokens (own @ txs) = Some (ds @ ds')"
  by (induction own arbitrary: ds) (auto split: Transaction.Transaction.splits if_splits)

lemma init_all_claimed:
  assumes "those (map (\<lambda>(i, d). case TxCustomToken_Init e (ini i) (cross_param d) tokens sid of
      Some (Inr tx) \<Rightarrow> Some tx | _ \<Rightarrow> None) (List.enumerate n ds)) = Some txs"
    and "\<forall>d \<in> set ds. length (tdPropertyID d) = HashSize"
  shows "\<exists>tds. claimed_tokens txs = Some tds \<and>
    list_all2 (\<lambda>a b. Hash_String (tdPropertyID a) = Hash_String (tdPropertyID b) \<and> TxTokenData_Hash e a = TxTokenData_Hash e b)
      tds (map crossing_data ds)"
  using assms
proof (induction ds arbitrary: n txs)
  case (Cons d ds)
  obtain t ts where t: "TxCustomToken_Init e (ini n) (cross_param d) tokens sid = Some (Inr t)" "txs = t # ts"
    and ts: "those (map (\<lambda>(i, d). case TxCustomToken_Init e (ini i) (cross_param d) tokens sid of
      Some (Inr tx) \<Rightarrow> Some tx | _ \<Rightarrow> None) (List.enumerate (Suc n) ds)) = Some ts"
    using Cons.prems(1) by (auto split: option.splits sum.splits)
  obtain tx td where "t = TxCustomToken tx td" "txType tx = TxCustomTokenType" "tdType td = CustomTokenCrossShard"
    "tdPropertyID td = tdPropertyID (crossing_data d)" "TxTokenData_Hash e td = TxTokenData_Hash e (crossing_data d)"
    using cross_init_data [OF t(1)] Cons.prems(2) by auto
  then show ?case using Cons.IH [OF ts] Cons.prems(2) t(2) by auto
qed simp

text \<open>What the producer collects passes the check.\<close>

lemma cross_data_verify:
  assumes "pool_filed pool" "getCrossShardData e (cdCoin cd) cm d pool best shardID crossShards = Some (coins, toks)"
    and "createCustomTokenTxForCrossShard e cd it d (Some ini) toks shardID = Some (txs, ds)"
    and "\<forall>td \<in> set (crossing_tokens toks). length (tdPropertyID td) = HashSize \<and> tdVouts td \<noteq> None"
    and "claimed_tokens own = Some []" "sbCrossOutputCoin body = coins" "sbTransactions body = own @ txs"
  shows "verify_cross_shard e cd cm it d pool best shardID body = Some None"
proof -
  obtain tokens where l: "snd (Chain_ListCustomToken e cd it d) = Inr tokens"
    and i: "init_all e ini tokens shardID (crossing_tokens toks) = Some txs"
    using assms(3) by (auto simp: createCustomTokenTxForCrossShard_def split: sum.splits)
  obtain tds where "claimed_tokens txs = Some tds"
    and same: "list_all2 (\<lambda>a b. Hash_String (tdPropertyID a) = Hash_String (tdPropertyID b) \<and> TxTokenData_Hash e a = TxTokenData_Hash e b)
      tds (map crossing_data (crossing_tokens toks))"
    using init_all_claimed [OF i [unfolded init_all_def]] assms(4) by auto
  then have c: "claimed_tokens (sbTransactions body) = Some tds" using claimed_append [OF assms(5)] assms(7) by simp
  have "\<forall>h \<in> set (map (TxTokenData_Hash e) (sort_key (\<lambda>d. Hash_String (tdPropertyID d)) (map crossing_data (crossing_tokens toks)))). h \<noteq> None"
    using assms(4) by (auto simp: TxTokenData_Hash_def crossing_data_def)
  then obtain hs where "those (map (TxTokenData_Hash e) (sort_key (\<lambda>d. Hash_String (tdPropertyID d)) (map crossing_data (crossing_tokens toks)))) = Some hs"
    using those_Some by blast
  then obtain h where "calHashFromTxTokenDataList e (map crossing_data (crossing_tokens toks)) = Some h"
    by (auto simp: calHashFromTxTokenDataList_def)
  then have "VerifyCrossShardCustomToken e cd it d toks shardID (sbTransactions body) = Some True"
    using c l calHash_cong [OF same] by (simp add: VerifyCrossShardCustomToken_def createCustomTokenTxForCrossShard_def)
  then show ?thesis
    using produced_coins_verify [OF assms(1,2)] assms(6) by (simp add: verify_cross_shard_def)
qed

text \<open>
  C22. Producer and validators agree on what comes from other shards. Take the pool of a node that follows the beacon
  (any history of \<open>cross_run\<close>). The coins that \<open>getCrossShardData\<close> collects from it, with the transactions built for the
  tokens that came along, pass the whole check that a validator with the same pool, best state and database makes before it signs,
  whatever limit of heights the producer was given. The other transactions of the block must claim no foreign token:
  a user may send one of the kind \<open>CustomTokenCrossShard\<close>, and a block with it is refused. The collected tokens have IDs of 32 bytes
  and an output list, and the list of known tokens can be read.
\<close>

theorem produced_cross_data_verify:
  assumes "cross_run shardID H b pool" "getCrossShardData e (cdCoin cd) cm d pool best shardID crossShards = Some (coins, toks)"
    and "createCustomTokenTxForCrossShard e cd it d (Some ini) toks shardID = Some (txs, ds)"
    and "\<forall>td \<in> set (crossing_tokens toks). length (tdPropertyID td) = HashSize \<and> tdVouts td \<noteq> None"
    and "claimed_tokens own = Some []" "sbCrossOutputCoin body = coins" "sbTransactions body = own @ txs"
  shows "verify_cross_shard e cd cm it d pool best shardID body = Some None"
  by (rule cross_data_verify [OF cross_run_filed [OF assms(1)] assms(2-)])


section \<open>What a validator accepts\<close>

text \<open>The coin a block of the pool vouches for: a verified block of that height with the hash of its coins.\<close>

definition vouched ::
  "'db ChainEnv \<Rightarrow> (Coin \<Rightarrow> bytes) \<Rightarrow> (bytes \<Rightarrow> (u8 \<rightharpoonup> string list)) \<Rightarrow> 'db \<Rightarrow> cross_block list \<Rightarrow> CrossOutputCoin \<Rightarrow> bool" where
  "vouched e cb cm d blks c \<longleftrightarrow> (\<exists>b \<in> set blks. csHeight b = cocBlockHeight c \<and> check_cross_block e cb cm d b = Some None \<and>
     CrossOutputCoin_Hash e cb (cross_coin_of e b) = CrossOutputCoin_Hash e cb c)"

fun follows :: "(u64 \<Rightarrow> u64) \<Rightarrow> u64 \<Rightarrow> u64 list \<Rightarrow> bool" where
  "follows next a [] = True"
| "follows next a (h # hs) = (next a = h \<and> follows next h hs)"

lemma follows_linked: "follows next a xs \<Longrightarrow> linked next a hs \<Longrightarrow> 0 \<notin> set xs \<Longrightarrow> prefix xs hs"
proof (induction xs arbitrary: a hs)
  case (Cons x xs)
  then show ?case by (cases hs) auto
qed simp

lemma verify_coins_sound:
  assumes "verify_coins e cb cm d f t start blks cs acc = Some (Inr (v, toks))"
  shows "v \<le> fst acc + length cs \<and>
    (v = fst acc + length cs \<longrightarrow>
       follows (getNextCrossShardHeight (ceLdb e) d f t) start (map cocBlockHeight cs) \<and> (\<forall>c \<in> set cs. vouched e cb cm d blks c))"
  using assms
proof (induction e cb cm d f t start blks cs acc rule: verify_coins.induct)
  case (2 e cb cm d f t start blks c cs acc)
  show ?case
  proof (cases "dropWhile (\<lambda>blk. csHeight blk \<noteq> cocBlockHeight c) blks")
    case Nil
    have "verify_coins e cb cm d f t start blks cs acc = Some (Inr (v, toks))"
      using 2(3) unfolding verify_coins.simps Nil list.case .
    then show ?thesis using 2(1) [OF Nil] by simp
  next
    case (Cons blk rest)
    let ?acc = "(fst acc + 1, append_at (csShardID blk) [cross_tokens_of e blk] (snd acc))"
    have nx: "snd (FetchCrossShardNextHeight (ceLdb e) f t start d) = Inr (cocBlockHeight c)"
      and ok: "check_cross_block e cb cm d blk = Some None" "CrossOutputCoin_Hash e cb (cross_coin_of e blk) = CrossOutputCoin_Hash e cb c"
      and rec: "verify_coins e cb cm d f t (cocBlockHeight c) (blk # rest) cs ?acc = Some (Inr (v, toks))"
      using 2(3) Cons by (auto split: sum.splits option.splits if_splits)
    have sub: "set (blk # rest) \<subseteq> set blks" using set_dropWhileD Cons by (metis subsetI)
    have h: "csHeight blk = cocBlockHeight c" using hd_dropWhile [of "\<lambda>blk. csHeight blk \<noteq> cocBlockHeight c" blks] Cons by simp
    note IH = 2(2) [OF Cons nx _ ok(1) refl _ rec]
    have "getNextCrossShardHeight (ceLdb e) d f t start = cocBlockHeight c" by (simp add: getNextCrossShardHeight_def nx)
    moreover have "vouched e cb cm d blks c" using ok h sub by (auto simp: vouched_def)
    moreover have "vouched e cb cm d (blk # rest) c' \<Longrightarrow> vouched e cb cm d blks c'" for c' using sub by (fastforce simp: vouched_def)
    ultimately show ?thesis using IH ok by auto
  qed
qed simp

lemma verify_sources_sound:
  assumes "verify_sources e cb cm d t best pool coins toks = Some (Inr toks')" "(k, cs) \<in> set coins"
  shows "\<exists>blks. pool k = Some blks \<and> (\<forall>c \<in> set cs. vouched e cb cm d blks c) \<and>
    follows (getNextCrossShardHeight (ceLdb e) d k t) (go_get 0 best k) (map cocBlockHeight cs)"
  using assms
proof (induction e cb cm d t best pool coins toks rule: verify_sources.induct)
  case (2 e cb cm d t best pool f coins rest toks)
  obtain blks v toks1 where p: "pool f = Some blks"
    "verify_coins e cb cm d f t (go_get 0 best f) (sort_key csHeight blks) coins (0, toks) = Some (Inr (v, toks1))"
    "length coins = v" "verify_sources e cb cm d t best pool rest toks1 = Some (Inr toks')"
    using 2(2) by (auto split: option.splits sum.splits if_splits)
  have "vouched e cb cm d (sort_key csHeight blks) c = vouched e cb cm d blks c" for c by (simp add: vouched_def)
  then show ?case
    using verify_coins_sound [OF p(2)] 2(1) [OF p(1,2) refl refl _ p(4)] 2(3) p(1,3) by auto
qed simp

text \<open>
  C23. What a validator signs for. If a block passes the check of its foreign coins, and the heights that the beacon recorded
  for a source shard after the best one are \<open>hs\<close>, then the coins of that source are at the first heights of
  \<open>hs\<close>, in this order, with no height left out or repeated; each is backed by a block of
  that height in the validator's own pool, which passed the check of cross shard blocks and has coins of the same hash.
\<close>

theorem accepted_coins_in_order:
  assumes "verify_cross_shard e cd cm it d pool best t body = Some None" "(k, cs) \<in> set (sbCrossOutputCoin body)"
    and "linked (getNextCrossShardHeight (ceLdb e) d k t) (go_get 0 best k) hs"
    and "\<forall>b \<in> set (xValid pool k). csHeight b \<noteq> 0"
  shows "prefix (map cocBlockHeight cs) hs \<and> (\<forall>c \<in> set cs. vouched e (cdCoin cd) cm d (xValid pool k) c)"
proof -
  let ?v = "CrossShard_GetValidBlock pool (Some (CrossShard_GetLatestValidBlockHeight pool))"
  obtain toks where vs: "verify_sources e (cdCoin cd) cm d t best ?v (sbCrossOutputCoin body) [] = Some (Inr toks)"
    using assms(1) by (auto simp: verify_cross_shard_def split: option.splits sum.splits)
  obtain blks where b: "?v k = Some blks" "\<forall>c \<in> set cs. vouched e (cdCoin cd) cm d blks c"
    "follows (getNextCrossShardHeight (ceLdb e) d k t) (go_get 0 best k) (map cocBlockHeight cs)"
    using verify_sources_sound [OF vs assms(2)] by blast
  have "set blks \<subseteq> set (xValid pool k)" using valid_block_prefix [OF b(1)] set_takeWhileD by (metis subsetI)
  then have v: "\<forall>c \<in> set cs. vouched e (cdCoin cd) cm d (xValid pool k) c" using b(2) by (fastforce simp: vouched_def)
  then have "0 \<notin> set (map cocBlockHeight cs)" using assms(4) by (force simp: vouched_def)
  then show ?thesis using follows_linked [OF b(3) assms(3)] v by blast
qed

text \<open>
  The check of tokens does not cover the ID. A foreign token alone in its block can be given any other ID with no
  effect on the check: the hash of token data leaves the ID out.
\<close>

theorem token_id_not_checked:
  assumes "claimed_tokens txs = Some [td]" "claimed_tokens txs' = Some [td\<lparr>tdPropertyID := other\<rparr>]"
  shows "VerifyCrossShardCustomToken e cd it d toks t txs' = VerifyCrossShardCustomToken e cd it d toks t txs"
proof -
  have "TxTokenData_Hash e (td\<lparr>tdPropertyID := other\<rparr>) = TxTokenData_Hash e td"
    by (simp add: TxTokenData_Hash_def TxTokenData_String_def Vouts_def)
  then have "calHashFromTxTokenDataList e [td\<lparr>tdPropertyID := other\<rparr>] = calHashFromTxTokenDataList e [td]"
    by (simp add: calHashFromTxTokenDataList_def)
  then show ?thesis unfolding VerifyCrossShardCustomToken_def assms option.map by (simp only:)
qed


section \<open>One foreign coin\<close>

definition sample_xpool :: "(Coin, TxTokenData) CrossShardPool" where
  "sample_xpool = \<lparr>xShardID = 1, xValidPool = [0 \<mapsto> [sample_cross]], xPendingPool = [0 \<mapsto> []], xCrossShardState = Map.empty\<rparr>"

definition sample_xdb :: "bytes \<rightharpoonup> bytes" where
  "sample_xdb = [nextCrossShardKey 0 1 0 \<mapsto> Uint64ToBytes 2, nextCrossShardKey 0 1 2 \<mapsto> Uint64ToBytes 0, committeeEpochKey 1 \<mapsto> []]"

definition sample_xbody :: ShardBody where
  "sample_xbody = \<lparr>sbInstructions = [], sbCrossOutputCoin = [(0, [cross_coin_of sample_env sample_cross])], sbTransactions = []\<rparr>"

lemma entries_single: "entries [k \<mapsto> v] = [(k, v)]"
proof -
  have s: "set (entries [k \<mapsto> v]) = {(k, v)}" by (auto simp: entries_mem split: if_splits)
  moreover have "distinct (entries [k \<mapsto> v])" using entries_distinct [of "[k \<mapsto> v]"] by (simp add: distinct_map)
  then have "length (entries [k \<mapsto> v]) = 1" using s by (metis distinct_card is_singletonI is_singleton_altdef)
  ultimately show ?thesis by (auto simp: length_Suc_conv)
qed

lemma sample_cross_fields [simp]:
  "csHeight sample_cross = 2" "csShardID sample_cross = 0" "shEpoch (csHeader sample_cross) = 1"
  "csCrossTxTokenData sample_cross = []" "csToShardID sample_cross = 1"
  by (simp_all add: sample_cross_def Cross_Block.sample_shard_block_def Cross_Block.sample_header_def)

text \<open>The pool after shard 1 gets the block of height 2, the only one the beacon has recorded.\<close>

lemma sample_xpool_run: "cross_run 1 (\<lambda>j. if j = 0 then [2] else []) Map.empty sample_xpool"
proof -
  let ?next = "\<lambda>j t s. if j = 0 \<and> s = 0 then 2 else 0 :: u64"
  let ?H = "\<lambda>j :: u8. if j = 0 then [2 :: u64] else []"
  have "sample_xpool = fst (AddCrossShardBlock ?next Map.empty (\<lambda>_. Some []) (\<lambda>_. Some Map.empty) (\<lambda>_ _. True)
      (fst (GetCrossShardPool Map.empty 1)) sample_cross)"
    by (simp add: sample_xpool_def GetCrossShardPool_def AddCrossShardBlock_def updatePool_def removeBlockByHeight_def go_get_def
        MAX_PENDING_CROSS_SHARD_IN_POOL_def Let_def not_le fun_eq_iff)
  moreover have "cross_run 1 ?H Map.empty (fst (GetCrossShardPool Map.empty 1))" by (rule xrun_start) (simp add: go_get_def)
  then have "cross_run 1 ?H Map.empty (fst (AddCrossShardBlock ?next Map.empty (\<lambda>_. Some []) (\<lambda>_. Some Map.empty) (\<lambda>_ _. True)
      (fst (GetCrossShardPool Map.empty 1)) sample_cross))" by (rule xrun_add) simp
  ultimately show ?thesis by simp
qed

lemma sample_cross_ok: "check_cross_block sample_env coCoinCommitment (\<lambda>_. Map.empty) sample_xdb sample_cross = Some None"
proof -
  have "VerifyCrossShardBlock sample_env coCoinCommitment sample_cross c = Some (Inr ())" for c
    by (simp add: VerifyCrossShardBlock_def VerifyCrossShardBlockUTXO_def ValidateAggSignature_def calHashTxTokenDataHashList_def
        sample_leaf_def [symmetric])
      (simp add: sample_cross_def Cross_Block.sample_shard_block_def Cross_Block.sample_header_def sample_leaf_def [symmetric]
        VerifyMerkleTree_def shard_root_def)
  moreover have "snd (FetchCommitteeByEpoch mem_leveldb 1 sample_xdb) = Inr []"
    by (simp add: FetchCommitteeByEpoch_def lvdb_Get_def mem_leveldb_def sample_xdb_def)
  ultimately show ?thesis by (simp add: check_cross_block_def sample_env_def)
qed

lemma sample_next:
  "snd (FetchCrossShardNextHeight mem_leveldb 0 1 0 sample_xdb) = Inr 2"
  "snd (FetchCrossShardNextHeight mem_leveldb 0 1 2 sample_xdb) = Inr 0"
  by (simp_all add: mem.FetchCrossShardNextHeight_eq)
    (simp_all add: mem_leveldb_def sample_xdb_def nextCrossShardKey_def committeeEpochKey_def prefix_defs)

lemma sample_valid: "CrossShard_GetValidBlock sample_xpool (Some [0 \<mapsto> 2]) = [0 \<mapsto> [sample_cross]]"
  by (auto simp: CrossShard_GetValidBlock_def sample_xpool_def go_get_def fun_eq_iff)

lemma sample_collected:
  "getCrossShardData sample_env coCoinCommitment (\<lambda>_. Map.empty) sample_xdb sample_xpool Map.empty 1 [0 \<mapsto> 2] =
     Some ([(0, [cross_coin_of sample_env sample_cross])], [(0, [cross_tokens_of sample_env sample_cross])])"
proof -
  have l: "ceLdb sample_env = mem_leveldb" by (simp add: sample_env_def)
  show ?thesis
    by (simp add: getCrossShardData_def sample_valid entries_single l sample_next sample_cross_ok go_get_def
        collect_def sort_values_def append_at_new del: fun_upd_apply)
qed

lemma sample_list: "Chain_ListCustomToken sample_env sample_codecs (\<lambda>_ _. []) d = (d, Inr [])"
  by (simp add: Chain_ListCustomToken_def ListCustomToken_def ch_return_def)

theorem produced_cross_data_verify_witness:
  "verify_cross_shard sample_env sample_codecs (\<lambda>_. Map.empty) (\<lambda>_ _. []) sample_xdb sample_xpool Map.empty 1 sample_xbody = Some None"
proof (rule produced_cross_data_verify [where own = "[]" and txs = "[]"])
  show "cross_run 1 (\<lambda>j. if j = 0 then [2] else []) Map.empty sample_xpool" by (rule sample_xpool_run)
  show "getCrossShardData sample_env (cdCoin sample_codecs) (\<lambda>_. Map.empty) sample_xdb sample_xpool Map.empty 1 [0 \<mapsto> 2] =
     Some ([(0, [cross_coin_of sample_env sample_cross])], [(0, [cross_tokens_of sample_env sample_cross])])"
    using sample_collected by (simp add: sample_codecs_def)
  show "createCustomTokenTxForCrossShard sample_env sample_codecs (\<lambda>_ _. []) sample_xdb (Some (\<lambda>_. Inl UnexpectedErr))
     [(0, [cross_tokens_of sample_env sample_cross])] 1 = Some ([], [])"
    by (simp add: createCustomTokenTxForCrossShard_def sample_list init_all_def crossing_tokens_def concat_by_key_def cross_tokens_of_def)
qed (simp_all add: crossing_tokens_def concat_by_key_def cross_tokens_of_def sample_xbody_def)

theorem accepted_coins_in_order_witness:
  "prefix [2] [2 :: u64] \<and> vouched sample_env coCoinCommitment (\<lambda>_. Map.empty) sample_xdb [sample_cross] (cross_coin_of sample_env sample_cross)"
proof -
  have l: "ceLdb sample_env = mem_leveldb" "cdCoin sample_codecs = coCoinCommitment" by (simp_all add: sample_env_def sample_codecs_def)
  have v: "verify_cross_shard sample_env sample_codecs (\<lambda>_. Map.empty) (\<lambda>_ _. []) sample_xdb sample_xpool Map.empty 1 sample_xbody = Some None"
  proof -
    have "CrossShard_GetLatestValidBlockHeight sample_xpool = [0 \<mapsto> 2]"
      by (auto simp: CrossShard_GetLatestValidBlockHeight_def sample_xpool_def fun_eq_iff)
    then show ?thesis
      by (simp add: verify_cross_shard_def l sample_valid sample_xbody_def sample_next sample_cross_ok go_get_def cross_coin_of_def [of _ sample_cross])
        (auto simp: cross_coin_of_def VerifyCrossShardCustomToken_def createCustomTokenTxForCrossShard_def sample_list append_at_new
          crossing_tokens_def concat_by_key_def cross_tokens_of_def calHashFromTxTokenDataList_def)
  qed
  have "linked (getNextCrossShardHeight mem_leveldb sample_xdb 0 1) 0 [2]" by (simp add: getNextCrossShardHeight_def sample_next)
  then show ?thesis
    using accepted_coins_in_order [OF v, of 0 "[cross_coin_of sample_env sample_cross]" "[2]"]
    by (simp add: l sample_xbody_def sample_xpool_def go_get_def cross_coin_of_def [of _ sample_cross])
qed

theorem token_id_not_checked_witness:
  "VerifyCrossShardCustomToken sample_env sample_codecs (\<lambda>_ _. []) Map.empty
     [(0, [\<lparr>ctdBlockHeight = 2, ctdBlockHash = [], ctdTxTokenData = [sample_mint 5]\<rparr>])] 1
     [TxCustomToken ((sample_tx [] [])\<lparr>txType := TxCustomTokenType\<rparr>) ((sample_mint 5)\<lparr>tdPropertyID := replicate 32 9\<rparr>)] = Some True"
proof -
  have v: "VerifyCrossShardCustomToken sample_env sample_codecs (\<lambda>_ _. []) Map.empty
     [(0, [\<lparr>ctdBlockHeight = 2, ctdBlockHash = [], ctdTxTokenData = [sample_mint 5]\<rparr>])] 1
     [TxCustomToken ((sample_tx [] [])\<lparr>txType := TxCustomTokenType\<rparr>) (sample_mint 5)] = Some True"
    by (simp add: VerifyCrossShardCustomToken_def createCustomTokenTxForCrossShard_def sample_list crossing_tokens_def
        concat_by_key_def calHashFromTxTokenDataList_def crossing_data_def cloneTxTokenDataForCrossShard_def sample_mint_def
        sample_token_def TxTokenData_Hash_def TxTokenData_String_def Vouts_def CustomTokenCrossShard_def)
  have c: "claimed_tokens [TxCustomToken ((sample_tx [] [])\<lparr>txType := TxCustomTokenType\<rparr>) (sample_mint 5)] = Some [sample_mint 5]"
    "claimed_tokens [TxCustomToken ((sample_tx [] [])\<lparr>txType := TxCustomTokenType\<rparr>) ((sample_mint 5)\<lparr>tdPropertyID := replicate 32 9\<rparr>)] =
       Some [(sample_mint 5)\<lparr>tdPropertyID := replicate 32 9\<rparr>]"
    by (simp_all add: sample_mint_def sample_token_def CustomTokenCrossShard_def)
  show ?thesis unfolding token_id_not_checked [OF c] by (rule v)
qed

end
