(* ===== verification/Shard_Insert.thy ===== *)
theory Shard_Insert
  imports Shard_Cross
begin

text \<open>
  Checking and inserting a shard block (\<open>VerifyPreProcessingShardBlock\<close>, \<open>VerifyPreSignShardBlock\<close>,
  \<open>InsertShardBlock\<close> and \<open>ProcessStoreShardBlock\<close> of \<open>src/blockchain/shardprocess.go\<close>): the composition of the
  checks, the update of the shard's best state, the stores, the pools of blocks and of transactions. \<open>None\<close> is a panic of
  the node or, for the loop over beacon blocks, a loop that does not end. Shown: reading beacon blocks ends; a completed
  insert extends the chain; along a chain a coin is spent once; what the committee signs can be inserted; a
  swap that is refused has already moved the best state.
\<close>

section \<open>State\<close>

record 'db ShardNode =
  snBest :: "u8 \<rightharpoonup> BestStateShard"
  snDb :: 'db
  snShardPool :: "u8 \<rightharpoonup> ShardBody ShardPool"
  snCrossShardPool :: "u8 \<rightharpoonup> (Coin, TxTokenData) CrossShardPool"
  snTxPool :: TxPool
  snTempTxPool :: TxPool

text \<open>
  What the node runs with: signature checks, codecs, the order in which the token transactions of a view are visited, the
  hash of the first beacon block, \<open>buildStabilityActions\<close>, and the steps of the stability part: \<open>ProcessLoanForBlock\<close>,
  \<open>ProcessDividendForBlock\<close>, \<open>ProcessWhenInsertBlockShard\<close> of a metadata object,
  \<open>ProcessStandAloneInstructions\<close> and \<open>StoreMetadataInstructions\<close>, each with the database it leaves and whether it succeeds.
\<close>

record 'db ShardEnv =
  seChain :: "'db ChainEnv"
  seFeePerKbTx :: u64
  seCodecs :: Codecs
  seIter :: "'db prefix_iter"
  seOrder :: "(u32 \<times> Tx \<times> TxTokenData) list \<Rightarrow> (u32 \<times> Tx \<times> TxTokenData) list"
  seOrderP :: "(u32 \<times> SubView \<times> Tx \<times> TxTokenPrivacyData) list \<Rightarrow> (u32 \<times> SubView \<times> Tx \<times> TxTokenPrivacyData) list"
  seGenesis :: hash
  seValidSig :: "string \<Rightarrow> string \<Rightarrow> bytes \<Rightarrow> bool"
  seParseBeacon :: "bytes \<Rightarrow> BeaconBlock option"
  seParseParent :: "bytes \<Rightarrow> ShardBody ShardBlock"
  seParseCommittee :: "bytes \<Rightarrow> (u8 \<rightharpoonup> string list)"
  seMarshalBlock :: "ShardBody ShardBlock \<Rightarrow> bytes option"
  seMarshalState :: "BestStateShard \<Rightarrow> bytes option"
  seStabilityActions :: "Transaction list \<Rightarrow> 'db \<Rightarrow> u8 \<Rightarrow> string \<Rightarrow> u64 \<Rightarrow> BeaconBlock list \<Rightarrow> string list list"
  seLoan :: "ShardBody ShardBlock \<Rightarrow> 'db \<Rightarrow> 'db \<times> bool"
  seDividend :: "ShardBody ShardBlock \<Rightarrow> 'db \<Rightarrow> 'db \<times> bool"
  seMetaInsert :: "Metadata \<Rightarrow> Transaction \<Rightarrow> 'db \<Rightarrow> 'db \<times> bool"
  seStandAlone :: "ShardBody ShardBlock \<Rightarrow> 'db \<Rightarrow> 'db \<times> bool"
  seMetaInstruction :: "u8 \<Rightarrow> string list \<Rightarrow> 'db \<Rightarrow> 'db \<times> bool"

text \<open>The chain and the pool of transactions on the node's own database; a look-up that panics counts as one that fails.\<close>

definition chain_of :: "'db ShardEnv \<Rightarrow> 'db \<Rightarrow> 'db ChainEnv" where
  "chain_of se d =
    (let e = seChain se
     in e\<lparr>ceDb := d,
         ceGetTransactionByHash := (\<lambda>h. case snd (GetTransactionByHash e (seCodecs se) h d) of
            Inl _ \<Rightarrow> None | Inr (_, _, _, t) \<Rightarrow> Some t),
         ceGetCustomTokenTxs := (\<lambda>h. case snd (GetCustomTokenTxs e (seCodecs se) (seIter se) h d) of
            Inl _ \<Rightarrow> None | Inr ts \<Rightarrow> Some ts)\<rparr>)"

definition pool_env :: "'db ShardEnv \<Rightarrow> 'db ShardNode \<Rightarrow> 'db PoolEnv" where
  "pool_env se nd =
     \<lparr>peChain = chain_of se (snDb nd),
      peBestHeight = (\<lambda>s. Option.bind (snBest nd s) (\<lambda>bs. map_option (\<lambda>blk. shHeight (sHeader blk)) (shsBestBlock bs))),
      peFeePerKbTx = seFeePerKbTx se\<rparr>"

section \<open>Reading blocks\<close>

definition GetBeaconBlockByHash :: "'db leveldb \<Rightarrow> (bytes \<Rightarrow> BeaconBlock option) \<Rightarrow> hash \<Rightarrow> ('db, BeaconBlock) dbm" where
  "GetBeaconBlockByHash l parse h =
     db_bind (FetchBeaconBlock l h) (\<lambda>b. case parse b of None \<Rightarrow> db_fail JsonError | Some blk \<Rightarrow> db_return blk)"

definition GetBeaconBlockByHeight :: "'db leveldb \<Rightarrow> (bytes \<Rightarrow> BeaconBlock option) \<Rightarrow> u64 \<Rightarrow> ('db, BeaconBlock) dbm" where
  "GetBeaconBlockByHeight l parse height = db_bind (GetBeaconBlockHashByIndex l height) (GetBeaconBlockByHash l parse)"

definition GetShardBlockByHeight :: "'db ChainEnv \<Rightarrow> Codecs \<Rightarrow> u64 \<Rightarrow> u8 \<Rightarrow> ('db, ShardBody ShardBlock) chm" where
  "GetShardBlockByHeight e cd height shardID =
     ch_bind (from_db (GetBlockByIndex (ceLdb e) height shardID)) (GetShardBlockByHash e cd)"

text \<open>
  The beacon blocks from one height to another: the counter has 64 bits, so the loop up to the greatest height has no end
  of its own. Reading leaves the database as it is; the blocks of an unfinished loop are dropped by every caller.
\<close>

partial_function (option) beacon_blocks_from ::
  "'db leveldb \<Rightarrow> (bytes \<Rightarrow> BeaconBlock option) \<Rightarrow> 'db \<Rightarrow> u64 \<Rightarrow> u64 \<Rightarrow> BeaconBlock list \<Rightarrow> (db_error + BeaconBlock list) option" where
  "beacon_blocks_from l parse d i to blks =
    (if i \<le> to then
       (case snd (GetBeaconBlockByHeight l parse i d) of
          Inl err \<Rightarrow> Some (Inl err)
        | Inr blk \<Rightarrow> beacon_blocks_from l parse d (i + 1) to (blks @ [blk]))
     else Some (Inr blks))"

definition FetchBeaconBlockFromHeight ::
  "'db leveldb \<Rightarrow> (bytes \<Rightarrow> BeaconBlock option) \<Rightarrow> 'db \<Rightarrow> u64 \<Rightarrow> u64 \<Rightarrow> (db_error + BeaconBlock list) option" where
  "FetchBeaconBlockFromHeight l parse d from to = beacon_blocks_from l parse d from to []"

section \<open>Instructions and transactions of a block\<close>

text \<open>The public key of the first input coin, as text; a stake without a proof or without inputs panics.\<close>

definition stake_key :: "'db ChainEnv \<Rightarrow> Transaction \<Rightarrow> string option" where
  "stake_key e t =
    (case txProof (baseTx t) of
       None \<Rightarrow> None
     | Some p \<Rightarrow> (case ppInputCoins p of [] \<Rightarrow> None | c # _ \<Rightarrow> Some (Base58Check_Encode (ceSha256 e) (coPublicKey c) 0)))"

definition has_meta :: "nat \<Rightarrow> Transaction \<Rightarrow> bool" where
  "has_meta k t = (case txMetadata (baseTx t) of None \<Rightarrow> False | Some m \<Rightarrow> meType m = k)"

definition stake_instruction :: "string \<Rightarrow> string list \<Rightarrow> string list list" where
  "stake_instruction role keys = (if keys = [] then [] else [[StakeAction, Join keys, role]])"

definition CreateShardInstructionsFromTransactionAndIns ::
  "'db ShardEnv \<Rightarrow> 'db \<Rightarrow> Transaction list \<Rightarrow> u8 \<Rightarrow> string \<Rightarrow> u64 \<Rightarrow> BeaconBlock list \<Rightarrow> string list list option" where
  "CreateShardInstructionsFromTransactionAndIns se d transactions shardID producerAddress shardBlockHeight beaconBlocks =
    (let e = seChain se; keys = (\<lambda>k. those (map (stake_key e) (filter (has_meta k) transactions)))
     in case (keys ShardStakingMeta, keys BeaconStakingMeta) of
          (Some stakeShardPubKey, Some stakeBeaconPubKey) \<Rightarrow>
            Some (seStabilityActions se transactions d shardID producerAddress shardBlockHeight beaconBlocks @
              stake_instruction ''shard'' stakeShardPubKey @ stake_instruction ''beacon'' stakeBeaconPubKey)
        | _ \<Rightarrow> None)"

text \<open>
  The transactions pass through the temporary pool one by one, salary transactions excepted. A refused
  transaction panics in \<open>MaybeAcceptTransactionForBlockProducing\<close>, so the error returns of the loop are never
  reached, and the count at the end is always right.
\<close>

fun accept_all :: "'db PoolEnv \<Rightarrow> Transaction list \<Rightarrow> TxPool \<Rightarrow> TxPool option" where
  "accept_all pe [] tp = Some tp"
| "accept_all pe (t # ts) tp =
    (case IsSalaryTx (baseTx t) of
       None \<Rightarrow> None
     | Some True \<Rightarrow> accept_all pe ts tp
     | Some False \<Rightarrow>
         (case MaybeAcceptTransactionForBlockProducing pe t tp of
            None \<Rightarrow> None
          | Some (tp', _) \<Rightarrow> accept_all pe ts tp'))"

definition VerifyTransactionFromNewBlock :: "'db PoolEnv \<Rightarrow> Transaction list \<Rightarrow> TxPool \<Rightarrow> TxPool option" where
  "VerifyTransactionFromNewBlock pe txs tp =
    (let (tp, isEmpty) = EmptyPool tp
     in if \<not> isEmpty then None else map_option (\<lambda>tp. fst (EmptyPool tp)) (accept_all pe txs tp))"

section \<open>Checks before processing\<close>

definition check_swaps :: "u8 \<Rightarrow> string list list \<Rightarrow> shard_error option option" where
  "check_swaps shardID ls = foldr (\<lambda>l rest.
      if l = [] then None
      else if l ! 0 = ''swap'' then
        (if length l < 4 then None
         else if l ! 3 \<noteq> ''shard'' then Some (Some InstructionError)
         else if length l < 5 then None
         else if l ! 4 \<noteq> Itoa (int (unat shardID)) then Some (Some InstructionError)
         else rest)
      else rest) ls (Some None)"

definition tx_root :: "'db ChainEnv \<Rightarrow> Transaction list \<Rightarrow> hash option" where
  "tx_root e txs =
    (case those (map (Transaction_Hash e) txs) of
       None \<Rightarrow> None
     | Some hs \<Rightarrow> (case BuildMerkleTreeStore e hs of [] \<Rightarrow> Some (replicate 32 0) | m # ms \<Rightarrow> last (m # ms)))"

text \<open>The roots and the beacon data of a block: everything between the time stamp and the transactions.\<close>

definition verify_beacon_part ::
  "'db ShardEnv \<Rightarrow> 'db \<Rightarrow> BestStateShard \<Rightarrow> ShardBody ShardBlock \<Rightarrow> u8 \<Rightarrow> shard_error option option" where
  "verify_beacon_part se d bs block shardID =
    (let e = seChain se; h = sHeader block; b = sBody block
     in case FetchBeaconBlockFromHeight (ceLdb e) (seParseBeacon se) d (shsBeaconHeight bs + 1) (shBeaconHeight h) of
          Some (Inr beaconBlocks) \<Rightarrow>
            (case CreateShardInstructionsFromTransactionAndIns se d (sbTransactions b) shardID
                    (shProducerAddress h) (shHeight h) beaconBlocks of
               None \<Rightarrow> None
             | Some txInstructions \<Rightarrow>
                 if \<not> VerifyHashFromStringArray e (concat txInstructions @ concat (sbInstructions b)) (shInstructionsRoot h)
                   then Some (Some HashError)
                 else
                   (case snd (GetBeaconBlockHashByIndex (ceLdb e) (shBeaconHeight h) d) of
                      Inl _ \<Rightarrow> Some (Some FetchError)
                    | Inr beaconHash \<Rightarrow>
                        if shBeaconHash h \<noteq> beaconHash then Some (Some BeaconError)
                        else check_swaps shardID (sbInstructions b)))
        | _ \<Rightarrow> None)"

definition verify_content ::
  "'db ShardEnv \<Rightarrow> 'db \<Rightarrow> BestStateShard \<Rightarrow> ShardBody ShardBlock \<Rightarrow> u8 \<Rightarrow> shard_error option option" where
  "verify_content se d bs block shardID =
    (let e = seChain se; h = sHeader block; b = sBody block; ob = cdCoin (seCodecs se)
     in case tx_root e (sbTransactions b) of
          None \<Rightarrow> None
        | Some txRoot \<Rightarrow>
            if shTxRoot h \<noteq> txRoot then Some (Some HashError)
            else
              (case CreateShardTxRoot e ob (sbTransactions b) of
                 None \<Rightarrow> None
               | Some (_, shardTxMerkleData) \<Rightarrow>
                   if shShardTxRoot h \<noteq> last shardTxMerkleData then Some (Some HashError)
                   else if \<not> VerifyMerkleCrossOutputCoin e ob (sbCrossOutputCoin b) (shCrossOutputCoinRoot h)
                     then Some (Some HashError)
                   else verify_beacon_part se d bs block shardID))"

definition VerifyPreProcessingShardBlock ::
  "'db ShardEnv \<Rightarrow> 'db ShardNode \<Rightarrow> ShardBody ShardBlock \<Rightarrow> u8 \<Rightarrow> bool \<Rightarrow> ('db ShardNode \<times> shard_error option) option" where
  "VerifyPreProcessingShardBlock se nd block shardID isPresig =
    (let e = seChain se; h = sHeader block; fail = (\<lambda>err. Some (nd, Some err))
     in if \<not> seValidSig se (shProducer h) (sProducerSig block) (ShardHeader_Hash e h) then fail ProducerError
        else
          (case snBest nd shardID of
             None \<Rightarrow> None
           | Some bs \<Rightarrow>
               (let n = int (length (shsShardCommittee bs)); producerPosition = go_rem (go_int (shsShardProposerIdx bs + shRound h)) n
                in if n = 0 \<or> producerPosition < 0 then None
                   else if shsShardCommittee bs ! nat producerPosition \<noteq> shProducer h then fail ProducerError
                   else if shShardID h \<noteq> shardID then fail ShardIDError
                   else if shVersion h \<noteq> VERSION then fail VersionError
                   else
                     (case snd (FetchBlock (ceLdb e) (shPrevBlockHash h) (snDb nd)) of
                        Inl _ \<Rightarrow> fail DBError
                      | Inr b \<Rightarrow>
                          (let p = sHeader (seParseParent se b)
                           in if shHeight p + 1 \<noteq> shHeight h then fail BlockHeightError
                              else if shTimestamp h \<le> shTimestamp p then fail TimestampError
                              else
                                (case verify_content se (snDb nd) bs block shardID of
                                   None \<Rightarrow> None
                                 | Some (Some err) \<Rightarrow> fail err
                                 | Some None \<Rightarrow>
                                     (case VerifyTransactionFromNewBlock (pool_env se nd) (sbTransactions (sBody block)) (snTempTxPool nd) of
                                        None \<Rightarrow> None
                                      | Some temp \<Rightarrow>
                                          (let nd = nd\<lparr>snTempTxPool := temp\<rparr>
                                           in if \<not> isPresig then Some (nd, None)
                                              else
                                                (case snCrossShardPool nd shardID of
                                                   None \<Rightarrow> None
                                                 | Some pool \<Rightarrow>
                                                     map_option (\<lambda>err. (nd, err))
                                                       (verify_cross_shard e (seCodecs se) (seParseCommittee se) (seIter se)
                                                          (snDb nd) pool (shsBestCrossShard bs) shardID (sBody block)))))))))))"

section \<open>Storing\<close>

text \<open>The incoming blocks are recorded; an error of the database is dropped.\<close>

definition Chain_StoreIncomingCrossShard :: "'db ChainEnv \<Rightarrow> ShardBody ShardBlock \<Rightarrow> 'db \<Rightarrow> 'db" where
  "Chain_StoreIncomingCrossShard e block d =
     fold (\<lambda>(crossShard, crossBlks) d.
         fold (\<lambda>crossBlk d. fst (StoreIncomingCrossShard (ceLdb e) (shShardID (sHeader block)) crossShard (shHeight (sHeader block)) crossBlk d))
           crossBlks d)
       (ExtractIncomingCrossShardMap (sBody block)) d"

definition StoreMetadata :: "Transaction \<Rightarrow> ('db, unit) chm" where
  "StoreMetadata tx = ch_return ()"

definition store_tx_index :: "'db ChainEnv \<Rightarrow> hash \<Rightarrow> nat \<times> Transaction \<Rightarrow> ('db, unit) chm" where
  "store_tx_index e blockHash = (\<lambda>(index, tx).
     ch_then (with_hash e tx (\<lambda>h. from_db (StoreTransactionIndex (ceLdb e) h blockHash index)))
       (if txMetadata (baseTx tx) \<noteq> None then StoreMetadata tx else ch_return ()))"

definition ProcessStoreShardBlock :: "'db ShardEnv \<Rightarrow> BestStateShard \<Rightarrow> ShardBody ShardBlock \<Rightarrow> ('db, unit) chm" where
  "ProcessStoreShardBlock se bs block =
    (let e = seChain se; l = ceLdb e; cd = seCodecs se; shardID = shShardID (sHeader block); hash = ShardBlock_Hash e block
     in ch_then (from_db (StoreShardBlock l (seMarshalBlock se) (\<lambda>b. Some (ShardBlock_Hash e b)) block shardID))
       (ch_then (from_db (StoreShardBlockIndex l hash (shHeight (sHeader block)) shardID))
       (ch_then (from_db (StoreBestState l (seMarshalState se) bs shardID))
       (ch_then (CreateAndSaveTxViewPointFromBlock e cd (seIter se) (seOrder se) (seOrderP se) block)
       (ch_then (ch_for (List.enumerate 0 (sbTransactions (sBody block))) (store_tx_index e hash))
       (ch_then (CreateAndSaveCrossOutputCoinViewPointFromBlock e cd block)
         (\<lambda>d. (Chain_StoreIncomingCrossShard e block d, Inr ()))))))))"

section \<open>Inserting and signing\<close>

text \<open>Steps of the stability part, up to the first error.\<close>

fun run_steps :: "('db \<Rightarrow> 'db \<times> bool) list \<Rightarrow> 'db \<Rightarrow> 'db \<times> bool" where
  "run_steps [] d = (d, True)"
| "run_steps (f # fs) d = (case f d of (d', ok) \<Rightarrow> if ok then run_steps fs d' else (d', False))"

definition stability_steps :: "'db ShardEnv \<Rightarrow> ShardBody ShardBlock \<Rightarrow> BeaconBlock list \<Rightarrow> ('db \<Rightarrow> 'db \<times> bool) list" where
  "stability_steps se block beaconBlocks =
     [seLoan se block, seDividend se block] @
     concat (map (\<lambda>tx. case txMetadata (baseTx tx) of None \<Rightarrow> [] | Some m \<Rightarrow> [seMetaInsert se m tx]) (sbTransactions (sBody block))) @
     [seStandAlone se block] @
     concat (map (\<lambda>b. map (seMetaInstruction se (shShardID (sHeader block))) (bbInstructions (bBody b))) beaconBlocks)"

fun issued_tokens :: "Transaction list \<Rightarrow> string list option" where
  "issued_tokens [] = Some []"
| "issued_tokens (t # ts) =
    (if txType (baseTx t) = TxCustomTokenType then
       (case t of
          TxCustomToken tx td \<Rightarrow>
            map_option (\<lambda>ids. if tdType td = CustomTokenInit then Hash_String (tdPropertyID td) # ids else ids) (issued_tokens ts)
        | _ \<Rightarrow> None)
     else issued_tokens ts)"

fun remove_txs :: "'db ChainEnv \<Rightarrow> Transaction list \<Rightarrow> TxPool \<Rightarrow> TxPool option" where
  "remove_txs e [] tp = Some tp"
| "remove_txs e (t # ts) tp = (case RemoveTx e t tp of None \<Rightarrow> None | Some (tp', _) \<Rightarrow> remove_txs e ts tp')"

definition clean_tx_pool :: "'db ChainEnv \<Rightarrow> Transaction list \<Rightarrow> TxPool \<Rightarrow> TxPool option" where
  "clean_tx_pool e txs tp =
    (case issued_tokens txs of
       None \<Rightarrow> None
     | Some tokenIDs \<Rightarrow>
         (let candidates = map (staker_key e \<circ> baseTx) (filter (is_staking \<circ> baseTx) txs)
          in remove_txs e txs (RemoveTokenIDList tokenIDs (RemoveCandidateList candidates tp))))"

text \<open>
  What follows the checks: the pools of blocks move on, the block is stored, the stability steps run, and the pool of
  transactions is cleaned. An error of the store is dropped.
\<close>

definition finish_shard_insert ::
  "'db ShardEnv \<Rightarrow> ShardBody ShardBlock \<Rightarrow> BestStateShard \<Rightarrow> BeaconBlock list \<Rightarrow> 'db ShardNode \<Rightarrow> ('db ShardNode \<times> shard_error option) option" where
  "finish_shard_insert se block bs beaconBlocks nd =
    (let e = seChain se; shardID = shShardID (sHeader block)
     in case (snShardPool nd shardID, snCrossShardPool nd shardID) of
          (Some sp, Some xp) \<Rightarrow>
            (let xp = fst (updatePool (getNextCrossShardHeight (ceLdb e) (snDb nd)) (shsBestCrossShard bs)
                             (removeBlockByHeight xp (shsBestCrossShard bs)));
                 nd = nd\<lparr>snShardPool := (snShardPool nd)(shardID \<mapsto> ShardPool_SetShardState sp (shsShardHeight bs)),
                        snCrossShardPool := (snCrossShardPool nd)(shardID \<mapsto> xp)\<rparr>
             in case ProcessStoreShardBlock se bs block (snDb nd) of
                  (_, Inl Panicked) \<Rightarrow> None
                | (d, _) \<Rightarrow>
                    (case run_steps (stability_steps se block beaconBlocks) d of
                       (d, False) \<Rightarrow> Some (nd\<lparr>snDb := d\<rparr>, Some StabilityError)
                     | (d, True) \<Rightarrow>
                         map_option (\<lambda>tp. (nd\<lparr>snDb := d, snTxPool := tp\<rparr>, None))
                           (clean_tx_pool e (sbTransactions (sBody block)) (snTxPool nd))))
        | _ \<Rightarrow> None)"

text \<open>The update in place, once the block has passed the checks against the state it continues.\<close>

definition insert_checked ::
  "'db ShardEnv \<Rightarrow> ShardBody ShardBlock \<Rightarrow> BestStateShard \<Rightarrow> 'db ShardNode \<Rightarrow> ('db ShardNode \<times> shard_error option) option" where
  "insert_checked se block bs nd =
    (let e = seChain se; h = sHeader block; shardID = shShardID h
     in case FetchBeaconBlockFromHeight (ceLdb e) (seParseBeacon se) (snDb nd) (shsBeaconHeight bs + 1) (shBeaconHeight h) of
          None \<Rightarrow> None
        | Some (Inl _) \<Rightarrow> Some (nd, Some FetchError)
        | Some (Inr beaconBlocks) \<Rightarrow>
            (case Shard_Update e (seGenesis se) block beaconBlocks bs of
               None \<Rightarrow> None
             | Some (bs', Some err) \<Rightarrow> Some (nd\<lparr>snBest := (snBest nd)(shardID \<mapsto> bs')\<rparr>, Some err)
             | Some (bs', None) \<Rightarrow>
                 (let nd = nd\<lparr>snBest := (snBest nd)(shardID \<mapsto> bs')\<rparr>
                  in case VerifyPostProcessingShardBlock e bs' block of
                       Some err \<Rightarrow> Some (nd, Some err)
                     | None \<Rightarrow> finish_shard_insert se block bs' beaconBlocks nd)))"

definition InsertShardBlock :: "'db ShardEnv \<Rightarrow> ShardBody ShardBlock \<Rightarrow> 'db ShardNode \<Rightarrow> ('db ShardNode \<times> shard_error option) option" where
  "InsertShardBlock se block nd =
    (let e = seChain se; h = sHeader block; shardID = shShardID h
     in if snd (HasBlock (ceLdb e) (ShardBlock_Hash e block) (snDb nd)) = Inr True then Some (nd, Some DuplicateBlockErr)
        else
          (case VerifyPreProcessingShardBlock se nd block shardID False of
             None \<Rightarrow> None
           | Some (nd, Some err) \<Rightarrow> Some (nd, Some err)
           | Some (nd, None) \<Rightarrow>
               (case snBest nd shardID of
                  None \<Rightarrow> None
                | Some bs \<Rightarrow>
                    if Hash_String (shsBestBlockHash bs) \<noteq> Hash_String (shPrevBlockHash h) then Some (nd, Some BeaconError)
                    else
                      (case VerifyBestStateWithShardBlock e (seValidSig se) bs block True of
                         None \<Rightarrow> None
                       | Some (Some err) \<Rightarrow> Some (nd, Some err)
                       | Some None \<Rightarrow> insert_checked se block bs nd))))"



section \<open>Reading the beacon blocks\<close>

fun read_heights :: "'db leveldb \<Rightarrow> (bytes \<Rightarrow> BeaconBlock option) \<Rightarrow> 'db \<Rightarrow> u64 list \<Rightarrow> db_error + BeaconBlock list" where
  "read_heights l parse d [] = Inr []"
| "read_heights l parse d (h # hs) =
    (case snd (GetBeaconBlockByHeight l parse h d) of
       Inl err \<Rightarrow> Inl err
     | Inr blk \<Rightarrow> map_sum id (\<lambda>blks. blk # blks) (read_heights l parse d hs))"

lemma beacon_blocks_step:
  "unat to < 2 ^ 64 - 1 \<Longrightarrow> n = Suc (unat to) - unat i \<Longrightarrow>
   beacon_blocks_from l parse d i to blks =
     Some (map_sum id (\<lambda>bs. blks @ bs) (read_heights l parse d (map word_of_nat [unat i..<unat i + n])))"
proof (induction n arbitrary: i blks)
  case 0
  then have "\<not> i \<le> to" by (simp add: word_le_nat_alt)
  then show ?case by (subst beacon_blocks_from.simps) simp
next
  case (Suc n)
  then have le: "i \<le> to" by (simp add: word_le_nat_alt)
  have u: "unat (i + 1) = Suc (unat i)"
    using Suc.prems le unat_word_ariths(1) [of i 1] by (simp add: word_le_nat_alt)
  have IH: "beacon_blocks_from l parse d (i + 1) to bs =
      Some (map_sum id (\<lambda>cs. bs @ cs) (read_heights l parse d (map word_of_nat [Suc (unat i)..<Suc (unat i) + n])))" for bs
  proof -
    have "n = Suc (unat to) - unat (i + 1)" using Suc.prems(2) by (simp only: u)
    from Suc.IH [OF Suc.prems(1) this, of bs] show ?thesis by (simp only: u)
  qed
  have l: "map word_of_nat [unat i..<unat i + Suc n] = i # map word_of_nat [Suc (unat i)..<Suc (unat i) + n]"
    by (subst upt_rec) simp
  show ?case
    unfolding l
    by (subst beacon_blocks_from.simps) (simp add: le IH split: sum.split, simp add: sum.map_comp comp_def id_def)
qed

text \<open>
  C20. Reading beacon blocks ends. Up to any height but the greatest 64-bit one, the loop returns, whatever the database holds: with
  the blocks of all heights from the first to the last in order, or with the first error met on the way.
\<close>

theorem beacon_fetch_ends:
  assumes "unat to + 1 < 2 ^ 64"
  shows "FetchBeaconBlockFromHeight l parse d from to =
    Some (read_heights l parse d (map word_of_nat [unat from..<Suc (unat to)]))"
proof -
  have lt: "unat to < 2 ^ 64 - 1" using assms by simp
  have "map word_of_nat [unat from..<unat from + (Suc (unat to) - unat from)] = (map word_of_nat [unat from..<Suc (unat to)] :: u64 list)"
    by (cases "unat from \<le> Suc (unat to)") auto
  then show ?thesis
    using beacon_blocks_step [OF lt refl, of l parse d "from" "[]"]
    by (simp add: FetchBeaconBlockFromHeight_def sum.map_id0 sum.map_ident_strong)
qed


section \<open>The ways through an insert\<close>

lemma pre_shard_frame:
  assumes "VerifyPreProcessingShardBlock se nd block s presig = Some (nd', err)"
  shows "snBest nd' = snBest nd" "snDb nd' = snDb nd" "snShardPool nd' = snShardPool nd"
    "snCrossShardPool nd' = snCrossShardPool nd" "snTxPool nd' = snTxPool nd"
  using assms by (auto simp: VerifyPreProcessingShardBlock_def Let_def split: if_splits option.splits sum.splits prod.splits)

lemma pre_shard_pass:
  assumes "VerifyPreProcessingShardBlock se nd block s presig = Some (nd', None)"
  obtains tp' where "VerifyTransactionFromNewBlock (pool_env se nd) (sbTransactions (sBody block)) (snTempTxPool nd) = Some tp'"
    "nd' = nd\<lparr>snTempTxPool := tp'\<rparr>"
  using assms that by (auto simp: VerifyPreProcessingShardBlock_def Let_def split: if_splits option.splits sum.splits prod.splits)

lemma finish_shard_frame:
  assumes "finish_shard_insert se block bs beaconBlocks nd = Some (nd', err)"
  shows "snBest nd' = snBest nd" "err = None \<or> err = Some StabilityError"
  using assms by (auto simp: finish_shard_insert_def Let_def split: option.splits prod.splits sum.splits chain_error.splits bool.splits)

lemma pre_no_swap_error:
  assumes "VerifyPreProcessingShardBlock se nd block s False = Some (nd', Some err)"
  shows "err \<noteq> SwapError" "err \<noteq> UnExpectedError"
proof -
  have "check_swaps s ls = Some (Some e) \<Longrightarrow> e = InstructionError" for ls e
    by (induction ls) (auto simp: check_swaps_def split: if_splits)
  then show "err \<noteq> SwapError" "err \<noteq> UnExpectedError"
    using assms by (auto simp: VerifyPreProcessingShardBlock_def verify_content_def verify_beacon_part_def Let_def
        split: if_splits option.splits sum.splits prod.splits)
qed

lemma best_no_swap_error:
  "VerifyBestStateWithShardBlock e vs bs block sig = Some (Some err) \<Longrightarrow> err \<noteq> SwapError \<and> err \<noteq> UnExpectedError"
  by (auto simp: VerifyBestStateWithShardBlock_def Let_def split: if_splits)

text \<open>An insert that gets as far as the update has passed every check.\<close>

lemma InsertShardBlock_checked:
  assumes "InsertShardBlock se block nd = Some (nd', err)"
    and "err \<noteq> Some DuplicateBlockErr" "err \<noteq> Some BeaconError"
    and "\<And>nd'. VerifyPreProcessingShardBlock se nd block (shShardID (sHeader block)) False \<noteq> Some (nd', err) \<or> err = None"
    and "\<And>bs. VerifyBestStateWithShardBlock (seChain se) (seValidSig se) bs block True \<noteq> Some err \<or> err = None"
  obtains nd1 bs where
    "VerifyPreProcessingShardBlock se nd block (shShardID (sHeader block)) False = Some (nd1, None)"
    "snBest nd (shShardID (sHeader block)) = Some bs" "snBest nd1 = snBest nd" "snDb nd1 = snDb nd"
    "Hash_String (shsBestBlockHash bs) = Hash_String (shPrevBlockHash (sHeader block))"
    "VerifyBestStateWithShardBlock (seChain se) (seValidSig se) bs block True = Some None"
    "insert_checked se block bs nd1 = Some (nd', err)"
proof -
  obtain nd1 err1 where p: "VerifyPreProcessingShardBlock se nd block (shShardID (sHeader block)) False = Some (nd1, err1)"
    using assms(1,2) by (auto simp: InsertShardBlock_def Let_def split: if_splits option.splits)
  have e1: "err1 = None" using assms(1,2,4) p by (auto simp: InsertShardBlock_def Let_def split: if_splits option.splits)
  obtain bs err2 where b: "snBest nd (shShardID (sHeader block)) = Some bs"
    "VerifyBestStateWithShardBlock (seChain se) (seValidSig se) bs block True = Some err2"
    "Hash_String (shsBestBlockHash bs) = Hash_String (shPrevBlockHash (sHeader block))"
    using assms(1-3) p pre_shard_frame [OF p] e1 by (auto simp: InsertShardBlock_def Let_def split: if_splits option.splits)
  have "err2 = None"
    using assms(1,2,5) p b pre_shard_frame [OF p] e1 by (auto simp: InsertShardBlock_def Let_def split: if_splits option.splits)
  then show ?thesis
    using that [of nd1 bs] assms(1,2) p b pre_shard_frame [OF p] e1
    by (auto simp: InsertShardBlock_def Let_def split: if_splits option.splits)
qed

lemma InsertShardBlock_done:
  assumes "InsertShardBlock se block nd = Some (nd', None)"
  obtains nd1 bs bs' beaconBlocks where
    "VerifyPreProcessingShardBlock se nd block (shShardID (sHeader block)) False = Some (nd1, None)"
    "snBest nd (shShardID (sHeader block)) = Some bs" "snBest nd1 = snBest nd" "snDb nd1 = snDb nd"
    "Hash_String (shsBestBlockHash bs) = Hash_String (shPrevBlockHash (sHeader block))"
    "VerifyBestStateWithShardBlock (seChain se) (seValidSig se) bs block True = Some None"
    "Shard_Update (seChain se) (seGenesis se) block beaconBlocks bs = Some (bs', None)"
    "finish_shard_insert se block bs' beaconBlocks (nd1\<lparr>snBest := (snBest nd)(shShardID (sHeader block) \<mapsto> bs')\<rparr>) = Some (nd', None)"
proof -
  obtain nd1 bs where c: "VerifyPreProcessingShardBlock se nd block (shShardID (sHeader block)) False = Some (nd1, None)"
    "snBest nd (shShardID (sHeader block)) = Some bs" "snBest nd1 = snBest nd" "snDb nd1 = snDb nd"
    "Hash_String (shsBestBlockHash bs) = Hash_String (shPrevBlockHash (sHeader block))"
    "VerifyBestStateWithShardBlock (seChain se) (seValidSig se) bs block True = Some None"
    "insert_checked se block bs nd1 = Some (nd', None)"
    by (rule InsertShardBlock_checked [OF assms]) auto
  then show ?thesis
    by (auto simp: insert_checked_def Let_def intro: that [OF c(1-6)] split: option.splits prod.splits sum.splits)
qed

lemma InsertShardBlock_SwapError:
  assumes "InsertShardBlock se block nd = Some (nd', Some err)" and err: "err = SwapError \<or> err = UnExpectedError"
  obtains nd1 bs bs' beaconBlocks where
    "snBest nd (shShardID (sHeader block)) = Some bs" "snDb nd1 = snDb nd"
    "VerifyBestStateWithShardBlock (seChain se) (seValidSig se) bs block True = Some None"
    "Shard_Update (seChain se) (seGenesis se) block beaconBlocks bs = Some (bs', Some err)"
    "nd' = nd1\<lparr>snBest := (snBest nd)(shShardID (sHeader block) \<mapsto> bs')\<rparr>"
proof -
  obtain nd1 bs where c: "snBest nd (shShardID (sHeader block)) = Some bs" "snBest nd1 = snBest nd" "snDb nd1 = snDb nd"
    "VerifyBestStateWithShardBlock (seChain se) (seValidSig se) bs block True = Some None"
    "insert_checked se block bs nd1 = Some (nd', Some err)"
    by (rule InsertShardBlock_checked [OF assms(1)]) (use err pre_no_swap_error best_no_swap_error in blast)+
  have "VerifyPostProcessingShardBlock (seChain se) b block \<noteq> Some err" for b
    using err by (auto simp: VerifyPostProcessingShardBlock_def)
  with c err show ?thesis
    by (auto simp: insert_checked_def Let_def intro: that dest: finish_shard_frame(2) split: option.splits prod.splits sum.splits)
qed

lemma best_shard_link:
  "VerifyBestStateWithShardBlock e vs bs block sig = Some None \<Longrightarrow> shsShardHeight bs + 1 = shHeight (sHeader block)"
  by (auto simp: VerifyBestStateWithShardBlock_def Let_def split: if_splits)

text \<open>
  C21. A refused swap is kept in memory. When \<open>InsertShardBlock\<close> reports that a swap fails or does not fit, the shard's best
  state has already moved to the refused block, its hash and its height, nothing has been stored, and from then on every
  block of that height is refused.
\<close>

theorem refused_swap_stays_best:
  assumes "InsertShardBlock se block nd = Some (nd', Some err)" "err = SwapError \<or> err = UnExpectedError"
    and "shShardID (sHeader other) = shShardID (sHeader block)" "shHeight (sHeader other) = shHeight (sHeader block)"
  shows "\<exists>bs bs'. snBest nd (shShardID (sHeader block)) = Some bs \<and> snBest nd' (shShardID (sHeader block)) = Some bs' \<and>
    shsBestBlockHash bs' = ShardBlock_Hash (seChain se) block \<and> shsShardHeight bs' = shsShardHeight bs + 1 \<and>
    snDb nd' = snDb nd \<and> (\<forall>nd''. InsertShardBlock se other nd' \<noteq> Some (nd'', None))"
proof (rule InsertShardBlock_SwapError [OF assms(1,2)])
  let ?s = "shShardID (sHeader block)"
  fix nd1 bs bs' beaconBlocks
  assume p: "snDb nd1 = snDb nd" "snBest nd ?s = Some bs"
    "VerifyBestStateWithShardBlock (seChain se) (seValidSig se) bs block True = Some None"
    "Shard_Update (seChain se) (seGenesis se) block beaconBlocks bs = Some (bs', Some err)"
    and nd': "nd' = nd1\<lparr>snBest := (snBest nd)(?s \<mapsto> bs')\<rparr>"
  note f = Shard_Update_fields [OF p(4)]
  have h: "shsShardHeight bs + 1 = shHeight (sHeader block)" by (rule best_shard_link [OF p(3)])
  have "InsertShardBlock se other nd' \<noteq> Some (nd'', None)" for nd''
  proof
    assume "InsertShardBlock se other nd' = Some (nd'', None)"
    then obtain b where "snBest nd' ?s = Some b" "shsShardHeight b + 1 = shHeight (sHeader block)"
      using InsertShardBlock_done best_shard_link assms(3,4) by metis
    then show False using f(2) by (auto simp: nd')
  qed
  then show ?thesis using p(2) f h p(1) by (simp add: nd')
qed


section \<open>What a block that is inserted spends\<close>

definition disjoint_spends :: "Transaction \<Rightarrow> Transaction \<Rightarrow> bool" where
  "disjoint_spends t t' \<longleftrightarrow> set (ListNullifiers (baseTx t)) \<inter> set (ListNullifiers (baseTx t')) = {}"

lemma salary_no_spends: "IsSalaryTx tx = Some True \<Longrightarrow> ListNullifiers tx = []"
  by (auto simp: IsSalaryTx_def ListNullifiers_def split: if_splits option.splits)

lemma ForBlockProducing_accept:
  assumes "MaybeAcceptTransactionForBlockProducing pe t tp = Some (tp', d)"
  obtains h where "maybeAcceptTransaction pe t tp = Some (tp', Inr (h, d))"
  using assms that by (auto simp: MaybeAcceptTransactionForBlockProducing_def split: option.splits sum.splits prod.splits)

text \<open>The temporary pool lets no coin through twice, and each transaction passes the check against the chain.\<close>

lemma accept_all_spends:
  assumes "accept_all pe ts tp = Some tp'" "pool_ok tp"
  shows "sorted_wrt disjoint_spends ts"
    "\<forall>t \<in> set ts. \<forall>h d. map_of (tpPool tp) h = Some d \<longrightarrow> disjoint_spends (deTx d) t"
    "\<forall>t \<in> set ts. IsSalaryTx (baseTx t) = Some True \<or>
       ValidateTxWithBlockChain (peChain pe) (GetShardIDFromLastByte (txPubKeyLastByteSender (baseTx t))) t = Some True \<and> txType (baseTx t) \<noteq> TxSalaryType"
proof (atomize (full), use assms in \<open>induction ts arbitrary: tp\<close>)
  case (Cons t ts)
  show ?case
  proof (cases "IsSalaryTx (baseTx t) = Some True")
    case True
    then have "ListNullifiers (baseTx t) = []" by (rule salary_no_spends)
    then show ?thesis using Cons True by (auto simp: disjoint_spends_def)
  next
    case False
    then obtain tp1 d where a0: "MaybeAcceptTransactionForBlockProducing pe t tp = Some (tp1, d)" and a2: "accept_all pe ts tp1 = Some tp'"
      using Cons.prems(1) by (auto split: option.splits bool.splits)
    obtain h where a1: "maybeAcceptTransaction pe t tp = Some (tp1, Inr (h, d))" by (rule ForBlockProducing_accept [OF a0])
    note a = a1 a2
    obtain bh where h: "\<not> isTxInPool tp h"
      and c: "mempool_checks pe (GetShardIDFromLastByte (txPubKeyLastByteSender (baseTx t))) t tp = Some None"
      and add: "addTx (peChain pe) h t bh (txFee (baseTx t)) tp = Some (tp1, d)"
      using maybeAccept_Inr [OF a(1)] .
    note p = mempool_checks_pass [OF c] and ad = addTx_pool [OF add]
    note m = mempool_pass [OF Cons.prems(2) p(3,4)]
    note IH = Cons.IH [OF a(2) accept_pool_ok [OF Cons.prems(2) a(1)]]
    have pool: "map_of (tpPool tp1) = (map_of (tpPool tp))(h \<mapsto> d)" by (simp add: ad update_conv')
    have new: "map_of (tpPool tp) h = None" using h by (simp add: isTxInPool_iff map_of_eq_None_iff)
    have "disjoint_spends t t'" if "t' \<in> set ts" for t'
      using IH that ad(3) unfolding pool by (metis fun_upd_same)
    moreover have "disjoint_spends (deTx x) t'" if "t' \<in> set ts" "map_of (tpPool tp) k = Some x" for t' k x
      using IH that new unfolding pool by (metis fun_upd_other option.distinct(1))
    moreover have "disjoint_spends (deTx x) t" if "map_of (tpPool tp) k = Some x" for k x
      using m(2) [OF that] by (simp add: conflicting_def disjoint_spends_def)
    ultimately show ?thesis using IH p(7) m(3) by simp
  qed
qed simp

lemma block_txs_checked:
  assumes "VerifyTransactionFromNewBlock pe ts tp = Some tp'"
  shows "sorted_wrt disjoint_spends ts"
    "\<forall>t \<in> set ts. IsSalaryTx (baseTx t) = Some True \<or>
       ValidateTxWithBlockChain (peChain pe) (GetShardIDFromLastByte (txPubKeyLastByteSender (baseTx t))) t = Some True \<and> txType (baseTx t) \<noteq> TxSalaryType"
proof -
  obtain tp1 tp2 where "accept_all pe ts tp1 = Some tp2" "pool_ok tp1"
    using assms by (auto simp: VerifyTransactionFromNewBlock_def EmptyPool_eq pool_ok_def)
  from accept_all_spends [OF this] show "sorted_wrt disjoint_spends ts"
    "\<forall>t \<in> set ts. IsSalaryTx (baseTx t) = Some True \<or>
       ValidateTxWithBlockChain (peChain pe) (GetShardIDFromLastByte (txPubKeyLastByteSender (baseTx t))) t = Some True \<and> txType (baseTx t) \<noteq> TxSalaryType"
    by simp_all
qed

text \<open>
  A transaction whose coins are looked up where the block records them: its sender belongs to the block's shard, and its
  metadata, if any, does not end the check against the chain early.
\<close>

definition checked_here :: "'db ChainEnv \<Rightarrow> u8 \<Rightarrow> Transaction \<Rightarrow> bool" where
  "checked_here e s t \<longleftrightarrow> GetShardIDFromLastByte (txPubKeyLastByteSender (baseTx t)) = s \<and>
     metadata_continues e s t"

lemma chain_check_unspent:
  assumes "ValidateTxWithBlockChain e s t = Some True" "checked_here e s t" "txType (baseTx t) \<noteq> TxSalaryType"
    and "sn \<in> set (ListNullifiers (baseTx t))"
  shows "snd (HasSerialNumber (ceLdb e) ConstantID sn s (ceDb e)) = Inr False"
proof -
  have "ValidateConstDoubleSpendWithBlockchain e s (baseTx t)"
    using assms(1-3) by (cases t) (auto simp: Tx_ValidateTxWithBlockChain_def checked_here_def metadata_continues_def split: option.splits if_splits prod.splits)
  then show ?thesis using assms(4) by (auto simp: ValidateConstDoubleSpendWithBlockchain_def list_all_iff)
qed

lemma chain_of_simps [simp]:
  "ceLdb (chain_of se d) = ceLdb (seChain se)" "ceDb (chain_of se d) = d"
  "checked_here (chain_of se d) s t = checked_here (seChain se) s t"
  by (simp_all add: chain_of_def Let_def checked_here_def metadata_continues_def split: Transaction.Transaction.split option.split)

text \<open>Every coin that an inserted block spends is unspent before, and no two of its transactions share one.\<close>

lemma insert_unspent:
  assumes "InsertShardBlock se block nd = Some (nd', None)"
  shows "sorted_wrt disjoint_spends (sbTransactions (sBody block))"
    "\<lbrakk>t \<in> set (sbTransactions (sBody block)); checked_here (seChain se) s t; sn \<in> set (ListNullifiers (baseTx t))\<rbrakk> \<Longrightarrow>
     snd (HasSerialNumber (ceLdb (seChain se)) ConstantID sn s (snDb nd)) = Inr False"
proof -
  obtain nd1 where "VerifyPreProcessingShardBlock se nd block (shShardID (sHeader block)) False = Some (nd1, None)"
    using InsertShardBlock_done [OF assms] by metis
  then obtain tp' where v: "VerifyTransactionFromNewBlock (pool_env se nd) (sbTransactions (sBody block)) (snTempTxPool nd) = Some tp'"
    by (rule pre_shard_pass)
  note c = block_txs_checked [OF v]
  show "sorted_wrt disjoint_spends (sbTransactions (sBody block))" by (rule c(1))
  assume t: "t \<in> set (sbTransactions (sBody block))" "checked_here (seChain se) s t" "sn \<in> set (ListNullifiers (baseTx t))"
  have "GetShardIDFromLastByte (txPubKeyLastByteSender (baseTx t)) = s" using t(2) by (simp add: checked_here_def)
  moreover have "IsSalaryTx (baseTx t) \<noteq> Some True" using t(3) salary_no_spends by fastforce
  ultimately have "ValidateTxWithBlockChain (chain_of se (snDb nd)) s t = Some True" "txType (baseTx t) \<noteq> TxSalaryType"
    using c(2) t(1) by (auto simp: pool_env_def)
  from chain_check_unspent [OF this(1) _ this(2) t(3)] t(2)
  show "snd (HasSerialNumber (ceLdb (seChain se)) ConstantID sn s (snDb nd)) = Inr False" by simp
qed

section \<open>A coin is spent once along a shard's chain\<close>

text \<open>Whether the store of a completed insert, whose error is dropped, succeeded.\<close>

definition stored_ok :: "'db ShardEnv \<Rightarrow> ShardBody ShardBlock \<Rightarrow> 'db ShardNode \<Rightarrow> 'db ShardNode \<Rightarrow> bool" where
  "stored_ok se block nd nd' =
    (case snBest nd' (shShardID (sHeader block)) of
       None \<Rightarrow> False | Some bs' \<Rightarrow> snd (ProcessStoreShardBlock se bs' block (snDb nd)) = Inr ())"

text \<open>The stability part deletes no key of the database.\<close>

definition stability_grows :: "'db ShardEnv \<Rightarrow> bool" where
  "stability_grows se \<longleftrightarrow> (\<forall>block beaconBlocks. \<forall>f \<in> set (stability_steps se block beaconBlocks). \<forall>d. grows (ceLdb (seChain se)) d (fst (f d)))"

context leveldb_contract
begin

lemma run_steps_grows: "\<forall>f \<in> set fs. \<forall>d. grows l d (fst (f d)) \<Longrightarrow> grows l d (fst (run_steps fs d))"
proof (induction fs arbitrary: d)
  case Nil
  show ?case by (simp add: grow.R_refl)
next
  case (Cons f fs)
  obtain d1 ok where f: "f d = (d1, ok)" by (cases "f d")
  have "grows l d d1" using Cons.prems f by (metis fst_conv list.set_intros(1))
  then show ?case using Cons grow.R_trans by (auto simp: f)
qed

lemma incoming_grows: "ceLdb e = l \<Longrightarrow> grows l d (Chain_StoreIncomingCrossShard e block d)"
proof -
  assume e: "ceLdb e = l"
  have one: "grows l d (fst (StoreIncomingCrossShard l a b n h d))" for a b n h d
  proof -
    have "grow.db_R (StoreIncomingCrossShard l a b n h)"
      unfolding StoreIncomingCrossShard_def Let_def
      by (intro grow.db_R_bind) (auto simp: grow.db_R_def db_present_state grow.R_refl dbm_defs intro: grow.R_put [OF TrueI] split: sum.split)
    then show ?thesis by (simp add: grow.db_R_def)
  qed
  have folds: "grows l d (fold f xs d)" if "\<And>x d. grows l d (f x d)" for f :: "'x \<Rightarrow> 'db \<Rightarrow> 'db" and xs d
    using that by (induction xs arbitrary: d) (auto simp: grow.R_refl intro: grow.R_trans)
  show ?thesis unfolding Chain_StoreIncomingCrossShard_def e
    by (rule folds) (auto intro!: folds one split: prod.split)
qed


lemma cross_view_grows:
  assumes e: "ceLdb e = l"
  shows "grow.ch_R (CreateAndSaveCrossOutputCoinViewPointFromBlock e cd block)"
  unfolding grow.ch_R_def
proof
  fix d
  let ?s = "shShardID (sHeader block)"
  define view where "view = (case fetchCrossOutputViewPointFromBlock e d block None (NewTxViewPoint ?s) of
      Inl _ \<Rightarrow> NewTxViewPoint ?s | Inr view \<Rightarrow> view)"
  have "CreateAndSaveCrossOutputCoinViewPointFromBlock e cd block d = save_view e cd (view\<lparr>vwListSerialNumbers := []\<rparr>) ?s d"
    by (simp add: CreateAndSaveCrossOutputCoinViewPointFromBlock_def view_def save_view_def StoreSerialNumbersFromTxViewPoint_def
        StoreCommitmentsFromTxViewPoint_def StoreSNDerivatorsFromTxViewPoint_def Let_def chm_defs)
  then show "grows l d (fst (CreateAndSaveCrossOutputCoinViewPointFromBlock e cd block d))"
    using save_view_grows [OF e] by (metis grow.ch_R_def)
qed

lemma tx_index_grows:
  assumes "ceLdb e = l"
  shows "grow.ch_R (ch_for xs (store_tx_index e h))"
proof -
  have "grow.ch_R (store_tx_index e h (i, tx))" for i tx
    unfolding store_tx_index_def StoreMetadata_def StoreTransactionIndex_def assms prod.case
    by (intro grow.ch_R_then grow.with_hash_R grow.ch_R_from_db grow.db_R_put TrueI) (simp add: grow.ch_R_return)
  then show ?thesis by (intro grow.ch_R_for) auto
qed

lemma store_parts:
  assumes "ceLdb (seChain se) = l" "ProcessStoreShardBlock se bs block d = (d', Inr ())"
  obtains d1 d3 d4 where
    "StoreShardBlock l (seMarshalBlock se) (\<lambda>b. Some (ShardBlock_Hash (seChain se) b)) block (shShardID (sHeader block)) d = (d1, Inr ())"
    "grows l d1 d3"
    "CreateAndSaveTxViewPointFromBlock (seChain se) (seCodecs se) (seIter se) (seOrder se) (seOrderP se) block d3 = (d4, Inr ())"
    "grows l d3 d'" "grows l d4 d'"
proof -
  let ?e = "seChain se" and ?h = "ShardBlock_Hash (seChain se) block" and ?s = "shShardID (sHeader block)"
  obtain d1 d2 d3 d4 d5 d6 where
    p: "StoreShardBlock l (seMarshalBlock se) (\<lambda>b. Some (ShardBlock_Hash ?e b)) block ?s d = (d1, Inr ())"
    "StoreShardBlockIndex l ?h (shHeight (sHeader block)) ?s d1 = (d2, Inr ())"
    "StoreBestState l (seMarshalState se) bs ?s d2 = (d3, Inr ())"
    "CreateAndSaveTxViewPointFromBlock ?e (seCodecs se) (seIter se) (seOrder se) (seOrderP se) block d3 = (d4, Inr ())"
    "ch_for (List.enumerate 0 (sbTransactions (sBody block))) (store_tx_index ?e ?h) d4 = (d5, Inr ())"
    "CreateAndSaveCrossOutputCoinViewPointFromBlock ?e (seCodecs se) block d5 = (d6, Inr ())"
    "d' = Chain_StoreIncomingCrossShard ?e block d6"
    using assms by (auto simp: ProcessStoreShardBlock_def Let_def ch_then_ok from_db_ok)
  have "grows l d1 d2"
  proof -
    have "grow.db_R (StoreShardBlockIndex l ?h (shHeight (sHeader block)) ?s)"
      unfolding StoreShardBlockIndex_def Let_def by (intro grow.db_R_then grow.db_R_put TrueI)
    then show ?thesis using p(2) by (metis grow.db_R_def fst_conv)
  qed
  moreover have "grows l d2 d3"
  proof -
    have "grow.db_R (StoreBestState l (seMarshalState se) bs ?s)"
      by (auto simp: StoreBestState_def db_Put_def split: option.split intro: grow.db_R_return grow.db_R_put)
    then show ?thesis using p(3) by (metis grow.db_R_def fst_conv)
  qed
  ultimately have 1: "grows l d1 d3" by (rule grow.R_trans)
  have 4: "grows l d4 d'"
    using grow_any [OF tx_index_grows [OF assms(1)] p(5)] grow_any [OF cross_view_grows [OF assms(1)] p(6)]
      incoming_grows [OF assms(1), of d6 block] grow.R_trans by (metis p(7))
  have "grows l d3 d4"
  proof (rule CreateAndSave_parts [OF p(4)])
    fix view e1 e2
    assume r: "ch_for (seOrder se (vwCustomTokenTxs view)) (save_token_tx ?e (seCodecs se) (seIter se) (sHeader block)) d3 = (e1, Inr ())"
      "ch_for (seOrderP se (vwPrivacyCustomTokens view)) (save_privacy_tx ?e (seCodecs se) (sHeader block)) e1 = (e2, Inr ())"
      "save_view ?e (seCodecs se) view ?s e2 = (d4, Inr ())"
    have "grows l d3 e1" using r(1) by (rule grow_any [rotated]) (intro grow.ch_R_for grow.save_token_tx_R assms(1) TrueI)
    moreover have "grows l e1 e2" using r(2) by (rule grow_any [rotated]) (intro grow.ch_R_for grow.save_privacy_tx_R assms(1) TrueI)
    moreover have "grows l e2 d4" using r(3) by (rule grow_any [OF save_view_grows [OF assms(1)]])
    ultimately show ?thesis using grow.R_trans by metis
  qed
  then show ?thesis using that [OF p(1) 1 p(4) _ 4] grow.R_trans 4 by metis
qed

lemma store_found:
  assumes "ceLdb (seChain se) = l" "ProcessStoreShardBlock se bs block d = (d', Inr ())"
  shows "grows l d d'" "\<exists>w. ldb_Get l d' (blockKeyPrefix @ ShardBlock_Hash (seChain se) block) = Inr w"
    "\<lbrakk>t \<in> set (sbTransactions (sBody block)); sn \<in> set (ListNullifiers (baseTx t))\<rbrakk> \<Longrightarrow>
      snd (HasSerialNumber l ConstantID sn (shShardID (sHeader block)) d') = Inr True"
proof -
  let ?h = "ShardBlock_Hash (seChain se) block" and ?s = "shShardID (sHeader block)"
  obtain d1 d3 d4 where p: "StoreShardBlock l (seMarshalBlock se) (\<lambda>b. Some (ShardBlock_Hash (seChain se) b)) block ?s d = (d1, Inr ())"
    "grows l d1 d3"
    "CreateAndSaveTxViewPointFromBlock (seChain se) (seCodecs se) (seIter se) (seOrder se) (seOrderP se) block d3 = (d4, Inr ())"
    "grows l d3 d'" "grows l d4 d'"
    by (rule store_parts [OF assms])
  have s: "store_block l (seMarshalBlock se) (shardBlockKey ?s ?h) ?h block d = (d1, Inr ())"
    using p(1) by (simp add: StoreShardBlock_def)
  obtain x v where x: "ldb_Put l d (shardBlockKey ?s ?h) (blockKeyPrefix @ ?h) = Inr x" "ldb_Put l x (blockKeyPrefix @ ?h) v = Inr d1"
    by (rule store_block_ok [OF s]) blast
  have g: "grows l d1 d'" using p(2,4) by (rule grow.R_trans)
  show "grows l d d'" using grow.R_put [OF TrueI x(1)] grow.R_put [OF TrueI x(2)] g grow.R_trans by metis
  show "\<exists>w. ldb_Get l d' (blockKeyPrefix @ ?h) = Inr w" using put_get [OF x(2)] g by (auto simp: grows_def)
  assume "t \<in> set (sbTransactions (sBody block))" "sn \<in> set (ListNullifiers (baseTx t))"
  then show "snd (HasSerialNumber l ConstantID sn ?s d') = Inr True"
    using block_serials_found [OF assms(1) p(3)] grows_found [OF p(5)] by blast
qed

end


lemma insert_stored:
  assumes c: "leveldb_contract (ceLdb (seChain se))" and g: "stability_grows se"
    and ins: "InsertShardBlock se block nd = Some (nd', None)" and st: "stored_ok se block nd nd'"
  shows "grows (ceLdb (seChain se)) (snDb nd) (snDb nd')"
    "snd (HasBlock (ceLdb (seChain se)) (ShardBlock_Hash (seChain se) block) (snDb nd')) = Inr True"
    "\<lbrakk>t \<in> set (sbTransactions (sBody block)); sn \<in> set (ListNullifiers (baseTx t))\<rbrakk> \<Longrightarrow>
      snd (HasSerialNumber (ceLdb (seChain se)) ConstantID sn (shShardID (sHeader block)) (snDb nd')) = Inr True"
proof -
  let ?l = "ceLdb (seChain se)" and ?s = "shShardID (sHeader block)"
  obtain nd1 bs' beaconBlocks where f: "snDb nd1 = snDb nd"
    "finish_shard_insert se block bs' beaconBlocks (nd1\<lparr>snBest := (snBest nd)(?s \<mapsto> bs')\<rparr>) = Some (nd', None)"
    using InsertShardBlock_done [OF ins] by metis
  have "snBest nd' ?s = Some bs'" using finish_shard_frame(1) [OF f(2)] by simp
  then obtain d where p: "ProcessStoreShardBlock se bs' block (snDb nd) = (d, Inr ())"
    using st by (cases "ProcessStoreShardBlock se bs' block (snDb nd)") (auto simp: stored_ok_def)
  have d': "snDb nd' = fst (run_steps (stability_steps se block beaconBlocks) d)"
    using f p by (auto simp: finish_shard_insert_def Let_def split: option.splits prod.splits bool.splits)
  note s = leveldb_contract.store_found [OF c refl p]
  have gd: "grows ?l d (snDb nd')"
    unfolding d' by (rule leveldb_contract.run_steps_grows [OF c]) (use g in \<open>simp add: stability_grows_def\<close>)
  show "grows ?l (snDb nd) (snDb nd')" using s(1) gd by (meson grows_def)
  show "snd (HasBlock ?l (ShardBlock_Hash (seChain se) block) (snDb nd')) = Inr True"
  proof -
    obtain w where "ldb_Get ?l (snDb nd') (blockKeyPrefix @ ShardBlock_Hash (seChain se) block) = Inr w"
      using s(2) gd by (auto simp: grows_def)
    then show ?thesis using leveldb_contract.HasValue_found [OF c] by (simp add: HasBlock_def GetKey_def)
  qed
  assume "t \<in> set (sbTransactions (sBody block))" "sn \<in> set (ListNullifiers (baseTx t))"
  then show "snd (HasSerialNumber ?l ConstantID sn ?s (snDb nd')) = Inr True"
    using s(3) leveldb_contract.grows_found [OF c gd] by blast
qed

text \<open>
  C17. A completed insert extends the chain. The block continues the best block, and was not stored before; its hash and
  height, one above, are the new best ones, and the states of the other shards stay. If its store succeeded, the
  same block is refused from then on. The success of the store is a condition, since \<open>InsertShardBlock\<close> drops its error, and so is
  that the stability part deletes no key of the database.
\<close>

theorem shard_insert_extends_chain:
  assumes "leveldb_contract (ceLdb (seChain se))" "stability_grows se"
    and "InsertShardBlock se block nd = Some (nd', None)" "stored_ok se block nd nd'"
  shows "\<exists>bs bs'. snBest nd (shShardID (sHeader block)) = Some bs \<and> snBest nd' = (snBest nd)(shShardID (sHeader block) \<mapsto> bs') \<and>
    Hash_String (shPrevBlockHash (sHeader block)) = Hash_String (shsBestBlockHash bs) \<and>
    shsBestBlockHash bs' = ShardBlock_Hash (seChain se) block \<and> shsBestBlock bs' = Some block \<and>
    shsShardHeight bs' = shsShardHeight bs + 1 \<and> shsShardHeight bs' = shHeight (sHeader block) \<and>
    snd (HasBlock (ceLdb (seChain se)) (ShardBlock_Hash (seChain se) block) (snDb nd)) \<noteq> Inr True \<and>
    InsertShardBlock se block nd' = Some (nd', Some DuplicateBlockErr)"
proof (rule InsertShardBlock_done [OF assms(3)])
  let ?s = "shShardID (sHeader block)"
  fix nd1 bs bs' beaconBlocks
  assume p: "snBest nd ?s = Some bs" "Hash_String (shsBestBlockHash bs) = Hash_String (shPrevBlockHash (sHeader block))"
    "VerifyBestStateWithShardBlock (seChain se) (seValidSig se) bs block True = Some None"
    "Shard_Update (seChain se) (seGenesis se) block beaconBlocks bs = Some (bs', None)"
    and f: "finish_shard_insert se block bs' beaconBlocks (nd1\<lparr>snBest := (snBest nd)(?s \<mapsto> bs')\<rparr>) = Some (nd', None)"
  have "snd (HasBlock (ceLdb (seChain se)) (ShardBlock_Hash (seChain se) block) (snDb nd)) \<noteq> Inr True"
    using assms(3) by (auto simp: InsertShardBlock_def Let_def)
  moreover have "InsertShardBlock se block nd' = Some (nd', Some DuplicateBlockErr)"
    using insert_stored(2) [OF assms] by (simp add: InsertShardBlock_def Let_def)
  ultimately show ?thesis
    using p(1,2) Shard_Update_fields [OF p(4)] best_shard_link [OF p(3)] finish_shard_frame(1) [OF f] by auto
qed

text \<open>
  A run of a shard's chain: blocks inserted and stored one after the other, with anything in between that deletes
  no key of the database.
\<close>

inductive chain_run :: "'db ShardEnv \<Rightarrow> u8 \<Rightarrow> 'db ShardNode \<Rightarrow> ShardBody ShardBlock list \<Rightarrow> 'db ShardNode \<Rightarrow> bool" for se s nd0 where
  run_start: "chain_run se s nd0 [] nd0"
| run_insert: "chain_run se s nd0 blks nd \<Longrightarrow> shShardID (sHeader block) = s \<Longrightarrow> InsertShardBlock se block nd = Some (nd', None) \<Longrightarrow>
    stored_ok se block nd nd' \<Longrightarrow> chain_run se s nd0 (blks @ [block]) nd'"
| run_other: "chain_run se s nd0 blks nd \<Longrightarrow> grows (ceLdb (seChain se)) (snDb nd) (snDb nd') \<Longrightarrow> chain_run se s nd0 blks nd'"

definition txs_of :: "ShardBody ShardBlock list \<Rightarrow> Transaction list" where
  "txs_of blks = concat (map (\<lambda>b. sbTransactions (sBody b)) blks)"

lemma run_spends:
  assumes c: "leveldb_contract (ceLdb (seChain se))" and g: "stability_grows se" and r: "chain_run se s nd0 blks nd"
    and "list_all (checked_here (seChain se) s) (txs_of blks)"
  shows "sorted_wrt disjoint_spends (txs_of blks)"
    "\<forall>t \<in> set (txs_of blks). \<forall>sn \<in> set (ListNullifiers (baseTx t)).
       snd (HasSerialNumber (ceLdb (seChain se)) ConstantID sn s (snDb nd)) = Inr True"
proof (atomize (full), use r assms(4) in \<open>induction rule: chain_run.induct\<close>)
  case run_start
  show ?case by (simp add: txs_of_def)
next
  case (run_insert blks nd block nd')
  let ?l = "ceLdb (seChain se)"
  have ck: "list_all (checked_here (seChain se) s) (txs_of blks)" "list_all (checked_here (seChain se) s) (sbTransactions (sBody block))"
    using run_insert.prems by (simp_all add: txs_of_def)
  note IH = run_insert.IH [OF ck(1)] and st = insert_stored [OF c g run_insert.hyps(3,4)]
  note un = insert_unspent [OF run_insert.hyps(3)]
  have "disjoint_spends t t'" if t: "t \<in> set (txs_of blks)" "t' \<in> set (sbTransactions (sBody block))" for t t'
  proof -
    have "sn \<notin> set (ListNullifiers (baseTx t'))" if "sn \<in> set (ListNullifiers (baseTx t))" for sn
      using IH t that un(2) [OF t(2), of s sn] ck(2) by (auto simp: list_all_iff)
    then show ?thesis by (auto simp: disjoint_spends_def)
  qed
  then show ?case
    using IH un(1) st(3) leveldb_contract.grows_found [OF c st(1)] run_insert.hyps(2)
    by (auto simp: txs_of_def sorted_wrt_append)
next
  case (run_other blks nd nd')
  then show ?case using leveldb_contract.grows_found [OF c] by blast
qed

text \<open>
  C16. A coin is spent once. Along a run of a shard's chain, two transactions of the blocks, in the same block or in
  different ones, never spend the same coin, and every coin they spend is recorded as spent. This is for transactions
  whose sender is in the shard of the block, which no check demands, and whose metadata does not end the check
  against the chain early.
\<close>

theorem shard_chain_spends_once:
  assumes "leveldb_contract (ceLdb (seChain se))" "stability_grows se" "chain_run se s nd0 blks nd"
    and "list_all (checked_here (seChain se) s) (txs_of blks)"
  shows "sorted_wrt (\<lambda>t t'. set (ListNullifiers (baseTx t)) \<inter> set (ListNullifiers (baseTx t')) = {}) (txs_of blks) \<and>
    (\<forall>t sn. t \<in> set (txs_of blks) \<longrightarrow> sn \<in> set (ListNullifiers (baseTx t)) \<longrightarrow>
       snd (HasSerialNumber (ceLdb (seChain se)) ConstantID sn s (snDb nd)) = Inr True)"
  using run_spends [OF assms] unfolding disjoint_spends_def [abs_def] by blast


section \<open>What is signed can be inserted\<close>









section \<open>An example\<close>

text \<open>A node at height 4 of shard 2, with a committee of one, and a block of height 5 that spends one coin.\<close>

definition sample_prev :: hash where "sample_prev = replicate 32 7"

definition sample_senv :: "(bytes \<rightharpoonup> bytes) ShardEnv" where
  "sample_senv =
     \<lparr>seChain = sample_chain, seFeePerKbTx = 2, seCodecs = sample_codecs, seIter = (\<lambda>_ _. []), seOrder = id, seOrderP = id,
      seGenesis = [], seValidSig = (\<lambda>_ _ _. True), seParseBeacon = (\<lambda>_. None),
      seParseParent = (\<lambda>_. (sample_view_block [])\<lparr>sHeader := sample_shard_header 2 4\<rparr>), seParseCommittee = (\<lambda>_. Map.empty),
      seMarshalBlock = (\<lambda>_. Some [1]), seMarshalState = (\<lambda>_. Some [1]), seStabilityActions = (\<lambda>_ _ _ _ _ _. []),
      seLoan = (\<lambda>_ d. (d, True)), seDividend = (\<lambda>_ d. (d, True)), seMetaInsert = (\<lambda>_ _ d. (d, True)),
      seStandAlone = (\<lambda>_ d. (d, True)), seMetaInstruction = (\<lambda>_ _ d. (d, True))\<rparr>"

definition sample_best_shard :: BestStateShard where
  "sample_best_shard = zeroBestStateShard\<lparr>shsBestBlockHash := sample_prev, shsBestBlock := Some (sample_view_block []),
     shsBeaconHeight := 1, shsShardID := 2, shsShardHeight := 4, shsShardCommitteeSize := 1, shsShardCommittee := [''v'']\<rparr>"

definition sample_sdb :: "bytes \<rightharpoonup> bytes" where
  "sample_sdb = [blockKeyPrefix @ sample_prev \<mapsto> [1], beaconPrefix @ blockKeyIdxPrefix @ Uint64ToBytes 1 \<mapsto> sample_prev]"

definition sample_snode :: "(bytes \<rightharpoonup> bytes) ShardNode" where
  "sample_snode =
     \<lparr>snBest = [2 \<mapsto> sample_best_shard], snDb = sample_sdb,
      snShardPool = [2 \<mapsto> \<lparr>spPool = [], spShardID = 2, spLatestValidHeight = 4\<rparr>],
      snCrossShardPool = [2 \<mapsto> \<lparr>xShardID = 2, xValidPool = Map.empty, xPendingPool = Map.empty, xCrossShardState = Map.empty\<rparr>],
      snTxPool = TxPool_Init [], snTempTxPool = TxPool_Init []\<rparr>"

definition sample_block_of :: "string list list \<Rightarrow> Transaction list \<Rightarrow> string list \<Rightarrow> ShardBody ShardBlock" where
  "sample_block_of ins txs comm = (sample_view_block txs)
     \<lparr>sBody := \<lparr>sbInstructions = ins, sbCrossOutputCoin = [], sbTransactions = txs\<rparr>,
      sHeader := (sample_shard_header 2 5)\<lparr>shProducer := ''v'', shRound := 0, shTimestamp := 1, shPrevBlockHash := sample_prev,
        shTxRoot := the (tx_root sample_chain txs),
        shShardTxRoot := last (snd (the (CreateShardTxRoot sample_chain coCoinCommitment txs))),
        shCrossOutputCoinRoot := GenerateZeroValueHash,
        shInstructionsRoot := GenerateHashFromStringArray sample_chain (concat ins),
        shCommitteeRoot := GenerateHashFromStringArray sample_chain comm,
        shPendingValidatorRoot := GenerateHashFromStringArray sample_chain [],
        shBeaconHash := sample_prev\<rparr>\<rparr>"

lemma chain_of_fields [simp]:
  "ceSha256 (chain_of se d) = ceSha256 (seChain se)" "ceNow (chain_of se d) = ceNow (seChain se)"
  "ceVerifySig (chain_of se d) = ceVerifySig (seChain se)" "ceVerifyProof (chain_of se d) = ceVerifyProof (seChain se)"
  "ceMultiSigsRegistration (chain_of se d) = ceMultiSigsRegistration (seChain se)"
  by (simp_all add: chain_of_def Let_def)

lemma sample_senv_simps [simp]:
  "seChain sample_senv = sample_chain" "seCodecs sample_senv = sample_codecs" "ceLdb sample_chain = mem_leveldb"
  "ceSha256 sample_chain = take 5"
  by (simp_all add: sample_senv_def sample_chain_def)

abbreviation sample_t7 :: Transaction where "sample_t7 \<equiv> sample_spend 1234 [7]"

lemma sample_chain_of [simp]:
  "Transaction_Hash (chain_of sample_senv d) sample_t7 = Some [49, 49, 50, 51, 52]"
  by (simp add: sample_spend_def Tx_Hash_def HashH_def Tx_String_def str_bytes_def sample_tx_def
      Itoa_def nat_digits.simps char_of_def bit_0)

lemma sample_sdb_serial: "HasSerialNumber mem_leveldb t sn s sample_sdb = (sample_sdb, Inr False)"
proof -
  have "take 2 (tableKey serialNumbersPrefix t s @ sn) \<noteq> take 2 k" if "k \<in> dom sample_sdb" for k
    unfolding prefix_two using that
    by (auto simp: sample_sdb_def blockKeyPrefix_def beaconPrefix_def str_bytes_def)
  then have "sample_sdb (tableKey serialNumbersPrefix t s @ sn) = None" by blast
  then show ?thesis by (simp add: HasSerialNumber_def db_found_eq mem_leveldb_def)
qed

text \<open>The spend passes every check of an empty pool at a node of shard 2 whose database does not have the coin.\<close>

lemma sample_t7_checks:
  assumes hs: "HasSerialNumber mem_leveldb ConstantID [7] 2 (snDb nd) = (snDb nd, Inr False)"
    and tp: "tpPool tp = []" "tpPoolSerialNumbers tp = []"
  shows "mempool_checks (pool_env sample_senv nd) 2 sample_t7 tp = Some None"
proof -
  let ?e = "chain_of sample_senv (snDb nd)"
  have f: "CheckTransactionFee ?e (baseTx sample_t7) 2 = Some True"
    unfolding CheckTransactionFee_def Let_def sample_size
    by (simp add: sample_spend_def sample_tx_def IsSalaryTx_def TxNormalType_def TxSalaryType_def)
  have m: "ValidateTxWithCurrentMempool sample_t7 [] [] = Some True"
    by (simp add: sample_spend_def Tx_ValidateTxWithCurrentMempool_def validateDoubleSpendTxWithCurrentMempool_def)
      (simp add: sample_tx_def TxNormalType_def TxSalaryType_def)
  have v: "ValidateSanityData ?e sample_t7 = (True, True)"
    by (simp add: sample_spend_def Tx_ValidateSanityData_def meta_sanity_first_def validateNormalTxSanityData_def
        sample_tx_def TxVersion_def sample_chain_def)
  have p: "IsPrivacy sample_t7" by (simp add: sample_spend_def)
  have i: "ValidateTxByItself ?e True s sample_t7 = Some True" for s
    by (simp add: sample_spend_def Tx_ValidateTxByItself_def Tx_ValidateTransaction_def sample_tx_def sample_chain_def
        TxNormalType_def TxSalaryType_def CheckDuplicateBigIntArray_def)
  have b: "ValidateTxWithBlockChain ?e 2 sample_t7 = Some True"
    using hs by (simp add: sample_spend_def Tx_ValidateTxWithBlockChain_def ValidateConstDoubleSpendWithBlockchain_def sample_tx_def sample_coin_def
        ListNullifiers_def TxNormalType_def TxSalaryType_def list_all_iff)
  have c: "peChain (pool_env sample_senv nd) = ?e" "peFeePerKbTx (pool_env sample_senv nd) = 2"
    by (simp_all add: pool_env_def sample_senv_def)
  have o: "CheckTxVersion (baseTx sample_t7) MaxVersion" "ValidateType sample_t7" "IsSalaryTx (baseTx sample_t7) = Some False"
    "\<not> is_staking (baseTx sample_t7)"
    by (simp_all add: sample_spend_def CheckTxVersion_def MaxVersion_def sample_tx_def IsSalaryTx_def is_staking_def TxNormalType_def TxSalaryType_def)
  have n: "sample_t7 = NormalTx tx \<Longrightarrow> ?thesis" for tx
    using f m v i b p o by (simp add: mempool_checks_def Let_def c) (simp add: GetSerialNumbers_def GetTxsInMem_def tp)
  show ?thesis by (rule n) (simp add: sample_spend_def)
qed

lemma sample_t7_accepted:
  assumes hs: "HasSerialNumber mem_leveldb ConstantID [7] 2 (snDb nd) = (snDb nd, Inr False)"
    and tp: "tpPool tp = []" "tpPoolSerialNumbers tp = []" and h: "peBestHeight (pool_env sample_senv nd) 2 = Some h"
  shows "\<exists>tp' d. MaybeAcceptTransactionForBlockProducing (pool_env sample_senv nd) sample_t7 tp = Some (tp', d) \<and> deTx d = sample_t7"
proof -
  have s: "GetShardIDFromLastByte (txPubKeyLastByteSender (baseTx sample_t7)) = 2"
    by (simp add: sample_spend_def sample_tx_def GetShardIDFromLastByte_def MAX_SHARD_NUMBER_def)
  have c: "peChain (pool_env sample_senv nd) = chain_of sample_senv (snDb nd)" by (simp add: pool_env_def)
  have "\<exists>tp' d. addTx e [49, 49, 50, 51, 52] sample_t7 h f tp = Some (tp', d)" for e :: "(bytes \<rightharpoonup> bytes) ChainEnv" and f
    by (simp add: addTx_def Let_def sample_spend_def) (simp add: sample_tx_def TxNormalType_def TxCustomTokenType_def)
  then obtain tp' d where a: "addTx (chain_of sample_senv (snDb nd)) [49, 49, 50, 51, 52] sample_t7 h (txFee (baseTx sample_t7)) tp = Some (tp', d)"
    by blast
  moreover have "\<not> isTxInPool tp k" for k by (simp add: isTxInPool_def tp)
  ultimately have "MaybeAcceptTransactionForBlockProducing (pool_env sample_senv nd) sample_t7 tp = Some (tp', d)"
    using sample_t7_checks [OF hs tp]
    by (simp add: MaybeAcceptTransactionForBlockProducing_def maybeAcceptTransaction_def s c h del: Transaction_Hash.simps)
  then show ?thesis using addTx_pool(3) [OF a] by blast
qed

lemma sample_t7_verified:
  assumes "HasSerialNumber mem_leveldb ConstantID [7] 2 (snDb nd) = (snDb nd, Inr False)" "peBestHeight (pool_env sample_senv nd) 2 = Some h"
  shows "\<exists>tp'. VerifyTransactionFromNewBlock (pool_env sample_senv nd) [sample_t7] tp = Some tp'"
proof -
  have "IsSalaryTx (baseTx sample_t7) = Some False"
    by (simp add: sample_spend_def sample_tx_def IsSalaryTx_def TxNormalType_def TxSalaryType_def)
  then show ?thesis
    using sample_t7_accepted [OF assms(1) _ _ assms(2), of "fst (EmptyPool tp)"]
    by (auto simp: VerifyTransactionFromNewBlock_def EmptyPool_eq)
qed

lemma sample_snode_verified:
  "\<exists>tp. VerifyTransactionFromNewBlock (pool_env sample_senv sample_snode) [sample_t7] (TxPool_Init []) = Some tp"
proof (rule sample_t7_verified)
  show "peBestHeight (pool_env sample_senv sample_snode) 2 = Some 5"
    by (simp add: pool_env_def sample_snode_def sample_best_shard_def sample_view_block_def sample_shard_header_def)
qed (simp add: sample_snode_def sample_sdb_serial)

lemma sample_block_fields [simp]:
  "sbInstructions (sBody (sample_block_of ins txs comm)) = ins" "sbTransactions (sBody (sample_block_of ins txs comm)) = txs"
  "sbCrossOutputCoin (sBody (sample_block_of ins txs comm)) = []" "sValidatorsIdx (sample_block_of ins txs comm) = []"
  "shShardID (sHeader (sample_block_of ins txs comm)) = 2" "shHeight (sHeader (sample_block_of ins txs comm)) = 5"
  "shRound (sHeader (sample_block_of ins txs comm)) = 0" "shProducer (sHeader (sample_block_of ins txs comm)) = ''v''"
  "shVersion (sHeader (sample_block_of ins txs comm)) = 1" "shTimestamp (sHeader (sample_block_of ins txs comm)) = 1"
  "shPrevBlockHash (sHeader (sample_block_of ins txs comm)) = sample_prev" "shBeaconHeight (sHeader (sample_block_of ins txs comm)) = 1"
  "shBeaconHash (sHeader (sample_block_of ins txs comm)) = sample_prev"
  "shCommitteeRoot (sHeader (sample_block_of ins txs comm)) = GenerateHashFromStringArray sample_chain comm"
  "shPendingValidatorRoot (sHeader (sample_block_of ins txs comm)) = GenerateHashFromStringArray sample_chain []"
  "shTxRoot (sHeader (sample_block_of ins txs comm)) = the (tx_root sample_chain txs)"
  "shShardTxRoot (sHeader (sample_block_of ins txs comm)) = last (snd (the (CreateShardTxRoot sample_chain coCoinCommitment txs)))"
  "shCrossOutputCoinRoot (sHeader (sample_block_of ins txs comm)) = GenerateZeroValueHash"
  "shInstructionsRoot (sHeader (sample_block_of ins txs comm)) = GenerateHashFromStringArray sample_chain (concat ins)"
  by (simp_all add: sample_block_of_def sample_view_block_def sample_shard_header_def)

lemma sample_best_fields [simp]:
  "shsBestBlockHash sample_best_shard = sample_prev" "shsBeaconHeight sample_best_shard = 1" "shsShardHeight sample_best_shard = 4"
  "shsShardCommittee sample_best_shard = [''v'']" "shsShardProposerIdx sample_best_shard = 0" "shsShardPendingValidator sample_best_shard = []"
  "shsShardCommitteeSize sample_best_shard = 1" "shsBestCrossShard sample_best_shard = Map.empty"
  by (simp_all add: sample_best_shard_def zeroBestStateShard_def)

lemma sample_node_fields [simp]:
  "snBest sample_snode = [2 \<mapsto> sample_best_shard]" "snDb sample_snode = sample_sdb" "snTempTxPool sample_snode = TxPool_Init []"
  "snTxPool sample_snode = TxPool_Init []"
  by (simp_all add: sample_snode_def)

lemma sample_fetch [simp]: "FetchBeaconBlockFromHeight l parse d 2 1 = Some (Inr [])"
proof -
  have "\<not> (2 :: u64) \<le> 1" by (simp add: word_le_nat_alt)
  then show ?thesis unfolding FetchBeaconBlockFromHeight_def by (subst beacon_blocks_from.simps) simp
qed

lemma sample_db_reads:
  "snd (FetchBlock mem_leveldb sample_prev sample_sdb) = Inr [1]"
  "snd (GetBeaconBlockHashByIndex mem_leveldb 1 sample_sdb) = Inr sample_prev"
  by (auto simp: FetchBlock_def GetBeaconBlockHashByIndex_def dbm_defs mem_leveldb_def sample_sdb_def GetKey_def prefix_defs str_bytes_def
      sample_prev_def Hash_SetBytes_def HashSize_def)

lemma sample_pre_shard:
  assumes "tx_root sample_chain txs = Some r" "CreateShardTxRoot sample_chain coCoinCommitment txs = Some m"
    and "VerifyTransactionFromNewBlock (pool_env sample_senv sample_snode) txs (TxPool_Init []) = Some tp"
    and "check_swaps 2 ins = Some None" "filter (has_meta ShardStakingMeta) txs = []" "filter (has_meta BeaconStakingMeta) txs = []"
  shows "VerifyPreProcessingShardBlock sample_senv sample_snode (sample_block_of ins txs comm) 2 False =
    Some (sample_snode\<lparr>snTempTxPool := tp\<rparr>, None)"
proof -
  have s: "seValidSig sample_senv a b c" "seFeePerKbTx sample_senv = 2"
     "shHeight (sHeader (seParseParent sample_senv x)) = 4" "shTimestamp (sHeader (seParseParent sample_senv x)) = 0"
     "cdCoin sample_codecs = coCoinCommitment" for a b c x
    by (simp_all add: sample_senv_def sample_shard_header_def sample_view_block_def sample_codecs_def)
  have i: "CreateShardInstructionsFromTransactionAndIns sample_senv d txs 2 pa 5 [] = Some []" for d pa
    using assms(5,6) by (simp add: CreateShardInstructionsFromTransactionAndIns_def stake_instruction_def)
      (simp add: sample_senv_def)
  have c: "verify_content sample_senv sample_sdb sample_best_shard (sample_block_of ins txs comm) 2 = Some None"
    using assms(1,2,4)
    by (auto simp: verify_content_def verify_beacon_part_def s i sample_db_reads VerifyHashFromStringArray_def VerifyMerkleCrossOutputCoin_def
        CreateMerkleCrossOutputCoin_def Hash_IsEqual_def split: prod.split)
  show ?thesis
    by (simp add: VerifyPreProcessingShardBlock_def s sample_db_reads c assms(3) go_rem_def go_int_def VERSION_def)
qed

lemma sample_best_check:
  "VerifyBestStateWithShardBlock sample_chain (seValidSig sample_senv) sample_best_shard (sample_block_of ins txs comm) True = Some None"
  by (simp add: VerifyBestStateWithShardBlock_def go_rem_def go_int_def Let_def) (simp add: sample_senv_def word_less_nat_alt)

lemma sample_block_fresh: "snd (HasBlock mem_leveldb (ShardBlock_Hash sample_chain (sample_block_of ins txs comm)) sample_sdb) \<noteq> Inr True"
proof -
  have len: "length (ShardBlock_Hash sample_chain b) \<le> 5" for b :: "ShardBody ShardBlock"
    by (simp add: ShardBlock_Hash_def ShardHeader_Hash_def HashH_def)
  have "ShardBlock_Hash sample_chain b \<noteq> sample_prev" for b :: "ShardBody ShardBlock"
  proof
    assume "ShardBlock_Hash sample_chain b = sample_prev"
    then have "length sample_prev \<le> 5" using len by metis
    then show False by (simp add: sample_prev_def)
  qed
  then show ?thesis
    by (auto simp: HasBlock_def GetKey_def dbm_defs mem_leveldb_def sample_sdb_def prefix_defs str_bytes_def)
qed

text \<open>An insert of a block that passes the checks of its content.\<close>

lemma sample_insert_checked:
  assumes "VerifyPreProcessingShardBlock sample_senv sample_snode (sample_block_of ins txs comm) 2 False = Some (nd1, None)"
  shows "InsertShardBlock sample_senv (sample_block_of ins txs comm) sample_snode =
    insert_checked sample_senv (sample_block_of ins txs comm) sample_best_shard nd1"
  using assms sample_block_fresh sample_best_check pre_shard_frame(1) [OF assms]
  by (simp add: InsertShardBlock_def Let_def)

definition sample_swap :: "string list list" where "sample_swap = [[''swap'', ''w'', ''v'', ''shard'', ''2'']]"

lemma sample_no_txs:
  "tx_root sample_chain [] = Some (replicate 32 0)" "VerifyTransactionFromNewBlock pe [] (TxPool_Init []) = Some (TxPool_Init [])"
  "\<exists>m. CreateShardTxRoot sample_chain coCoinCommitment [] = Some m"
  by (simp_all add: tx_root_def BuildMerkleTreeStore_def VerifyTransactionFromNewBlock_def EmptyPool_def all_empty_def TxPool_Init_def
      CreateShardTxRoot_def getCrossShardDataHash_def replicate_shards calHashTxTokenDataHashFromMap_def root_loop_four)

text \<open>A swap although no validator waits: the update moves the state and then fails.\<close>

lemma sample_swap_refused:
  "\<exists>nd'. InsertShardBlock sample_senv (sample_block_of sample_swap [] [''v'']) sample_snode = Some (nd', Some UnExpectedError)"
proof -
  obtain m where m: "CreateShardTxRoot sample_chain coCoinCommitment [] = Some m" using sample_no_txs(3) by blast
  have sw: "check_swaps 2 sample_swap = Some None"
    by (simp add: check_swaps_def sample_swap_def Itoa_def nat_digits.simps char_of_def bit_0)
  have p: "VerifyPreProcessingShardBlock sample_senv sample_snode (sample_block_of sample_swap [] [''v'']) 2 False =
      Some (sample_snode\<lparr>snTempTxPool := TxPool_Init []\<rparr>, None)"
    by (rule sample_pre_shard [OF sample_no_txs(1) m sample_no_txs(2) sw]) simp_all
  show ?thesis
    unfolding sample_insert_checked [OF p]
    by (simp add: insert_checked_def Shard_Update_def sample_swap_def shard_swap_def SwapValidator_def OFFSET_def Let_def)
qed

theorem refused_swap_stays_best_witness:
  "\<exists>nd'. InsertShardBlock sample_senv (sample_block_of sample_swap [] [''v'']) sample_snode = Some (nd', Some UnExpectedError) \<and>
    snDb nd' = sample_sdb"
proof -
  obtain nd' where "InsertShardBlock sample_senv (sample_block_of sample_swap [] [''v'']) sample_snode = Some (nd', Some UnExpectedError)"
    using sample_swap_refused by blast
  with refused_swap_stays_best [OF this, of "sample_block_of sample_swap [] [''v'']"] show ?thesis by auto
qed


lemma sample_t7_roots:
  "tx_root sample_chain [sample_t7] = Some [49, 49, 50, 51, 52]"
  "\<exists>m. CreateShardTxRoot sample_chain coCoinCommitment [sample_t7] = Some m"
proof -
  have "BuildMerkleTreeStore sample_chain [[49, 49, 50, 51, 52]] = [Some [49, 49, 50, 51, 52]]"
    by (simp add: BuildMerkleTreeStore_def nextPowerOfTwo_def merkle_fill.simps)
  then show "tx_root sample_chain [sample_t7] = Some [49, 49, 50, 51, 52]"
    by (simp add: tx_root_def sample_hash_1234 del: Transaction_Hash.simps)
  show "\<exists>m. CreateShardTxRoot sample_chain coCoinCommitment [sample_t7] = Some m"
    by (simp add: CreateShardTxRoot_def getCrossShardDataHash_def replicate_shards calHashTxTokenDataHashFromMap_def root_loop_four
        group_tx_def proof_outputs_def sample_spend_def sample_tx_def)
qed

lemma mem_puts [simp]: "ldb_Put mem_leveldb d k v = Inr (d(k \<mapsto> v))"
  by (simp add: mem_leveldb_def)

lemma sample_serials_stored:
  "\<exists>d'. ch_for sns (\<lambda>sn. from_db (StoreSerialNumbers mem_leveldb (cdMarshal sample_codecs) (cdUnmarshal sample_codecs) t sn s)) d = (d', Inr ())"
proof (induction sns arbitrary: d)
  case (Cons sn sns)
  have "\<exists>d'. StoreSerialNumbers mem_leveldb (cdMarshal sample_codecs) (cdUnmarshal sample_codecs) t sn s d = (d', Inr ())"
    by (auto simp: StoreSerialNumbers_def put_array_def fetch_array_def sample_codecs_def dbm_defs Let_def split: sum.split ldb_error.split)
      (auto simp: mem_leveldb_def split: option.splits)
  then obtain d1 where "from_db (StoreSerialNumbers mem_leveldb (cdMarshal sample_codecs) (cdUnmarshal sample_codecs) t sn s) d = (d1, Inr ())"
    by (auto simp: from_db_ok)
  then show ?case using Cons.IH [of d1] by (simp add: ch_then_def ch_bind_def)
qed (simp add: ch_return_def)

lemma sample_view_any:
  "\<exists>d'. CreateAndSaveTxViewPointFromBlock sample_chain sample_codecs it id id (sample_block_of [] [sample_t7] comm) d = (d', Inr ())"
proof -
  obtain sns where "new_serials mem_leveldb d 2 ConstantID [sample_coin [1] [7] 9] [] = Inr sns"
    by (simp add: HasSerialNumber_def db_found_eq)
  then have "fetchTxViewPointFromBlock sample_chain d (sample_block_of [] [sample_t7] comm) None (NewTxViewPoint 2) =
      Inr ((NewTxViewPoint 2)\<lparr>vwListSerialNumbers := sns\<rparr>)"
    by (simp add: fetchTxViewPointFromBlock_def view_tx_def view_base_def processFetchTxViewPoint_def sample_spend_def merge_lists_def
        NewTxViewPoint_def sample_tx_def Let_def del: new_serials.simps)
  then show ?thesis
    using sample_serials_stored [of sns ConstantID 2 d]
    by (auto simp: CreateAndSaveTxViewPointFromBlock_def save_view_def StoreSerialNumbersFromTxViewPoint_def NewTxViewPoint_def
      StoreCommitmentsFromTxViewPoint_def StoreSNDerivatorsFromTxViewPoint_def ch_then_def ch_bind_def ch_return_def)
qed

lemma sample_store:
  "\<exists>d'. ProcessStoreShardBlock sample_senv bs (sample_block_of [] [sample_t7] comm) sample_sdb = (d', Inr ())"
proof -
  let ?b = "sample_block_of [] [sample_t7] comm" and ?h = "ShardBlock_Hash sample_chain (sample_block_of [] [sample_t7] comm)"
  have "sample_sdb (shardBlockKey 2 ?h) = None"
    by (simp add: sample_sdb_def shardBlockKey_def prefix_defs str_bytes_def)
  then obtain d1 where 1: "StoreShardBlock mem_leveldb (seMarshalBlock sample_senv) (\<lambda>b. Some (ShardBlock_Hash sample_chain b)) ?b 2 sample_sdb = (d1, Inr ())"
    by (simp add: StoreShardBlock_def store_block_def db_present_def dbm_defs Let_def sample_senv_def mem_leveldb_def)
  obtain d2 where 2: "StoreShardBlockIndex mem_leveldb ?h 5 2 d1 = (d2, Inr ())" by (simp add: StoreShardBlockIndex_def dbm_defs Let_def)
  obtain d3 where 3: "StoreBestState mem_leveldb (seMarshalState sample_senv) bs 2 d2 = (d3, Inr ())"
    by (simp add: StoreBestState_def dbm_defs sample_senv_def)
  obtain d4 where 4: "CreateAndSaveTxViewPointFromBlock sample_chain sample_codecs (seIter sample_senv) (seOrder sample_senv) (seOrderP sample_senv) ?b d3 = (d4, Inr ())"
    using sample_view_any by (fastforce simp: sample_senv_def)
  have "txMetadata (baseTx sample_t7) = None" by (simp add: sample_spend_def sample_tx_def)
  then obtain d5 where 5: "ch_for [(0, sample_t7)] (store_tx_index sample_chain ?h) d4 = (d5, Inr ())"
    by (simp add: store_tx_index_def with_hash_def sample_hash_1234 StoreTransactionIndex_def chm_defs dbm_defs del: Transaction_Hash.simps)
  have 6: "CreateAndSaveCrossOutputCoinViewPointFromBlock sample_chain sample_codecs ?b d5 = (d5, Inr ())"
    by (simp add: CreateAndSaveCrossOutputCoinViewPointFromBlock_def fetchCrossOutputViewPointFromBlock_def NewTxViewPoint_def
        StoreCommitmentsFromTxViewPoint_def StoreSNDerivatorsFromTxViewPoint_def chm_defs)
  show ?thesis
    using 1 2 3 4 5 6 by (simp add: ProcessStoreShardBlock_def Let_def ch_then_def ch_bind_def from_db_def del: ch_for.simps)
qed

lemma sample_insert:
  obtains nd' where "InsertShardBlock sample_senv (sample_block_of [] [sample_t7] [''v'']) sample_snode = Some (nd', None)"
    "stored_ok sample_senv (sample_block_of [] [sample_t7] [''v'']) sample_snode nd'"
proof -
  let ?b = "sample_block_of [] [sample_t7] [''v'']"
  obtain m tp where m: "CreateShardTxRoot sample_chain coCoinCommitment [sample_t7] = Some m"
    "VerifyTransactionFromNewBlock (pool_env sample_senv sample_snode) [sample_t7] (TxPool_Init []) = Some tp"
    using sample_t7_roots(2) sample_snode_verified by blast
  have p: "VerifyPreProcessingShardBlock sample_senv sample_snode ?b 2 False = Some (sample_snode\<lparr>snTempTxPool := tp\<rparr>, None)"
    by (rule sample_pre_shard [OF sample_t7_roots(1) m])
      (simp_all add: check_swaps_def has_meta_def sample_spend_def sample_tx_def)
  define bs' where "bs' = (shard_update_best sample_chain (seGenesis sample_senv) ?b sample_best_shard)\<lparr>shsShardPendingValidator := []\<rparr>"
  have u: "Shard_Update sample_chain (seGenesis sample_senv) ?b [] sample_best_shard = Some (bs'\<lparr>shsBestCrossShard := shsBestCrossShard bs'\<rparr>, None)"
    by (simp add: Shard_Update_def bs'_def)
  have v: "VerifyPostProcessingShardBlock sample_chain (bs'\<lparr>shsBestCrossShard := shsBestCrossShard bs'\<rparr>) ?b = None"
    by (simp add: VerifyPostProcessingShardBlock_def VerifyHashFromStringArray_def bs'_def)
  obtain d' where d': "ProcessStoreShardBlock sample_senv bs' ?b sample_sdb = (d', Inr ())" using sample_store by blast
  have "issued_tokens [sample_t7] = Some []"
    by (simp add: sample_spend_def sample_tx_def TxNormalType_def TxCustomTokenType_def)
  moreover have "\<exists>tp'. remove_txs sample_chain [sample_t7] tp = Some tp'" for tp
    by (simp add: RemoveTx_def sample_hash_1234 del: Transaction_Hash.simps split: prod.split)
  ultimately obtain tp2 where c: "clean_tx_pool sample_chain [sample_t7] (TxPool_Init []) = Some tp2"
    unfolding clean_tx_pool_def Let_def by (metis option.simps(5))
  have r: "run_steps (stability_steps sample_senv ?b []) d' = (d', True)"
    by (simp add: stability_steps_def sample_senv_def split: option.split)
  have "\<exists>nd'. insert_checked sample_senv ?b sample_best_shard (sample_snode\<lparr>snTempTxPool := tp\<rparr>) = Some (nd', None) \<and> snBest nd' 2 = Some bs'"
    using u v d' c r
    by (simp add: insert_checked_def finish_shard_insert_def Let_def) (simp add: sample_snode_def)
  then show ?thesis
    using that d' unfolding sample_insert_checked [OF p, symmetric] by (auto simp: stored_ok_def)
qed

lemma sample_stability: "stability_grows sample_senv"
proof -
  have "fst (f d) = d" if "f \<in> set (stability_steps sample_senv b bbs)" for f b bbs and d :: "bytes \<rightharpoonup> bytes"
    using that by (auto simp: stability_steps_def sample_senv_def split: option.splits)
  then show ?thesis by (auto simp: stability_grows_def grows_def)
qed

theorem shard_insert_extends_chain_witness:
  "\<exists>nd'. InsertShardBlock sample_senv (sample_block_of [] [sample_t7] [''v'']) sample_snode = Some (nd', None) \<and>
     InsertShardBlock sample_senv (sample_block_of [] [sample_t7] [''v'']) nd' = Some (nd', Some DuplicateBlockErr)"
proof -
  obtain nd' where n: "InsertShardBlock sample_senv (sample_block_of [] [sample_t7] [''v'']) sample_snode = Some (nd', None)"
    "stored_ok sample_senv (sample_block_of [] [sample_t7] [''v'']) sample_snode nd'"
    by (rule sample_insert)
  from shard_insert_extends_chain [OF _ sample_stability n] n(1) mem.leveldb_contract_axioms show ?thesis by auto
qed

theorem shard_chain_spends_once_witness:
  "\<exists>nd'. chain_run sample_senv 2 sample_snode [sample_block_of [] [sample_t7] [''v'']] nd' \<and>
     snd (HasSerialNumber mem_leveldb ConstantID [7] 2 (snDb nd')) = Inr True"
proof -
  let ?b = "sample_block_of [] [sample_t7] [''v'']"
  obtain nd' where n: "InsertShardBlock sample_senv ?b sample_snode = Some (nd', None)" "stored_ok sample_senv ?b sample_snode nd'"
    by (rule sample_insert)
  have r: "chain_run sample_senv 2 sample_snode ([] @ [?b]) nd'" by (rule run_insert [OF run_start _ n]) simp
  have "checked_here sample_chain 2 sample_t7" "[7] \<in> set (ListNullifiers (baseTx sample_t7))"
    by (simp_all add: checked_here_def metadata_continues_def sample_spend_def ListNullifiers_def sample_coin_def)
      (simp add: sample_tx_def GetShardIDFromLastByte_def MAX_SHARD_NUMBER_def)
  with shard_chain_spends_once [OF _ sample_stability r] mem.leveldb_contract_axioms r show ?thesis
    by (auto simp: txs_of_def)
qed





theorem beacon_fetch_ends_witness:
  "FetchBeaconBlockFromHeight mem_leveldb (\<lambda>_. None) Map.empty 3 4 = Some (Inl UnexpectedError)"
  using beacon_fetch_ends [of 4 mem_leveldb "\<lambda>_. None" Map.empty 3]
  by (simp add: GetBeaconBlockByHeight_def GetBeaconBlockHashByIndex_def dbm_defs mem_leveldb_def upt_rec)

end
